(* ===== verification/SF_Prelude.thy ===== *)
theory SF_Prelude
  imports Main "HOL-Library.Word" "HOL-Library.Monad_Syntax" "HOL-Library.Sublist"
begin

text \<open>
  Shared foundations of the development: the machine-integer types of the C++ sources, the
  reading of undefined behaviour as \<open>None\<close>, the decimal rendering of \<^verbatim>\<open>std::to_string\<close>,
  an ordered association list standing for \<^verbatim>\<open>std::map\<close>, bounded double-ended queues, and
  little-endian byte codecs. The interfaces stated as locales are \<open>key_store\<close> (what a client
  of \<^verbatim>\<open>std::map\<close> relies on), \<open>tournament\<close> (a loop that selects the best index), \<open>byte_codec\<close> (what a fixed-width field promises to the wire
  and archive formats) and \<open>invariant_system\<close> with its extensions \<open>monotone_system\<close> and
  \<open>simulated_system\<close> (what holds of, and between, the states of a transition system).
\<close>

unbundle bit_operations_syntax

section \<open>Types and collections of facts\<close>

type_synonym u8 = "8 word"
type_synonym u16 = "16 word"
type_synonym u32 = "32 word"
type_synonym u64 = "64 word"
type_synonym bytes = "u8 list"

text \<open>
  A C++ expression whose evaluation may have undefined behaviour (an empty optional that is
  dereferenced, an index past the end of a vector) yields an option; \<open>None\<close> is the undefined case.
\<close>

type_synonym 'a cpp = "'a option"

named_theorems sf_defs \<open>definitions of model operations unfolded by component proofs\<close>
named_theorems sf_inv \<open>preservation facts of component invariants\<close>
named_theorems codec_simps \<open>round trips of byte codecs\<close>

section \<open>Vectors, optionals and decimal strings\<close>

definition vec_at :: "'a list \<Rightarrow> nat \<Rightarrow> 'a cpp" where
  "vec_at xs i = (if i < length xs then Some (xs ! i) else None)"

definition vec_prefix :: "nat \<Rightarrow> 'a list \<Rightarrow> 'a list cpp" where
  "vec_prefix n xs = (if n \<le> length xs then Some (take n xs) else None)"

definition push_bounded :: "nat \<Rightarrow> 'a \<Rightarrow> 'a list \<Rightarrow> 'a list" where
  "push_bounded cap x q = (let q' = q @ [x] in if length q' > cap then tl q' else q')"

fun decimal :: "nat \<Rightarrow> string" where
  "decimal n = (if n < 10 then [char_of (48 + n)] else decimal (n div 10) @ [char_of (48 + n mod 10)])"

declare decimal.simps [simp del]

definition word_string :: "'a::len word \<Rightarrow> string" where
  "word_string w = decimal (unat w)"

fun undecimal :: "string \<Rightarrow> nat" where
  "undecimal s = foldl (\<lambda>n c. 10 * n + (of_char c - 48)) 0 s"

section \<open>Ordered association lists\<close>

fun map_put :: "'k::linorder \<Rightarrow> 'v \<Rightarrow> ('k \<times> 'v) list \<Rightarrow> ('k \<times> 'v) list" where
  "map_put k v [] = [(k, v)]"
| "map_put k v (p # ps) =
     (if fst p < k then p # map_put k v ps
      else if fst p = k then (k, v) # ps
      else (k, v) # p # ps)"

definition map_ordered :: "('k::linorder \<times> 'v) list \<Rightarrow> bool" where
  "map_ordered ps \<longleftrightarrow> sorted_wrt (<) (map fst ps)"

section \<open>Little-endian bytes\<close>

definition le_split :: "nat \<Rightarrow> 'a::len word \<Rightarrow> bytes" where
  "le_split n v = map (\<lambda>i. ucast (drop_bit (8 * i) v AND 0xFF)) [0..<n]"

definition le_join :: "bytes \<Rightarrow> 'a::len word" where
  "le_join bs = foldl (\<lambda>v i. v OR push_bit (8 * i) (ucast (bs ! i))) 0 [0..<length bs]"

definition take_field :: "nat \<Rightarrow> bytes \<Rightarrow> ('a::len word \<times> bytes) option" where
  "take_field n bs = (if length bs < n then None else Some (le_join (take n bs), drop n bs))"

section \<open>Lemmas on vectors and strings\<close>

lemma vec_at_Some_iff [simp]: "vec_at xs i = Some x \<longleftrightarrow> i < length xs \<and> x = xs ! i"
  by (auto simp: vec_at_def)

lemma vec_prefix_Some_iff [simp]: "vec_prefix n xs = Some ys \<longleftrightarrow> n \<le> length xs \<and> ys = take n xs"
  by (auto simp: vec_prefix_def)

lemma length_push_bounded: "length q \<le> cap \<Longrightarrow> length (push_bounded cap x q) \<le> cap"
  by (cases q) (auto simp: push_bounded_def Let_def)

lemma last_push_bounded: "0 < cap \<Longrightarrow> q = [] \<or> push_bounded cap x q \<noteq> [] \<Longrightarrow> last (push_bounded cap x q) = x"
  by (cases q) (auto simp: push_bounded_def Let_def)

lemma undecimal_snoc: "undecimal (s @ [c]) = 10 * undecimal s + (of_char c - 48)"
  by simp

lemma undecimal_decimal [simp]: "undecimal (decimal n) = n"
proof (induction n rule: decimal.induct)
  case (1 n)
  show ?case
  proof (cases "n < 10")
    case True
    then show ?thesis by (simp add: decimal.simps [of n])
  next
    case False
    with 1 have "undecimal (decimal (n div 10)) = n div 10" by simp
    moreover have "decimal n = decimal (n div 10) @ [char_of (48 + n mod 10)]"
      using False by (simp add: decimal.simps [of n])
    ultimately show ?thesis
      using undecimal_snoc [of "decimal (n div 10)" "char_of (48 + n mod 10)"] by simp
  qed
qed

lemma decimal_inject [simp]: "decimal m = decimal n \<longleftrightarrow> m = n"
  by (metis undecimal_decimal)

lemma word_string_inject [simp]: "word_string v = word_string w \<longleftrightarrow> v = w"
  by (simp add: word_string_def word_unat_eq_iff)

section \<open>Ordered association lists: the key store interface\<close>

locale key_store =
  fixes find :: "'m \<Rightarrow> 'k \<Rightarrow> 'v option"
    and put :: "'k \<Rightarrow> 'v \<Rightarrow> 'm \<Rightarrow> 'm"
    and keys :: "'m \<Rightarrow> 'k set"
    and wf :: "'m \<Rightarrow> bool"
  assumes find_put: "find (put k v m) k' = (if k' = k then Some v else find m k')"
    and keys_find: "k \<in> keys m \<longleftrightarrow> find m k \<noteq> None"
    and put_wf: "wf m \<Longrightarrow> wf (put k v m)"
begin

lemma find_put_same [simp]: "find (put k v m) k = Some v"
  by (simp add: find_put)

lemma find_put_other: "k' \<noteq> k \<Longrightarrow> find (put k v m) k' = find m k'"
  by (simp add: find_put)

lemma keys_put: "keys (put k v m) = insert k (keys m)"
  by (auto simp: keys_find find_put split: if_splits)

lemma keys_put_present: "find m k = Some w \<Longrightarrow> keys (put k v m) = keys m"
  by (auto simp: keys_put keys_find insert_absorb)

lemma all_put:
  assumes "\<And>k' w. find m k' = Some w \<Longrightarrow> P k' w" and "P k v"
  shows "find (put k v m) k' = Some w \<Longrightarrow> P k' w"
  using assms by (auto simp: find_put split: if_splits)

end

lemma map_of_map_put: "map_of (map_put k v ps) k' = (if k' = k then Some v else map_of ps k')"
  by (induction ps) auto

lemma map_put_again: "map_put k v (map_put k u ps) = map_put k v ps"
  by (induction ps) auto

lemma fst_set_map_put: "fst ` set (map_put k v ps) = insert k (fst ` set ps)"
  by (induction ps) auto

lemma map_ordered_put: "map_ordered ps \<Longrightarrow> map_ordered (map_put k v ps)"
  unfolding map_ordered_def
proof (induction ps)
  case (Cons p ps)
  then have tl: "sorted_wrt (<) (map fst ps)" and hd: "\<forall>q\<in>set ps. fst p < fst q" by auto
  have "\<forall>q\<in>set (map_put k v ps). fst q = k \<or> fst q \<in> fst ` set ps"
    using fst_set_map_put [of k v ps] by auto
  with hd have "fst p < k \<Longrightarrow> \<forall>q\<in>set (map_put k v ps). fst p < fst q" by fastforce
  with Cons.IH [OF tl] tl hd show ?case by (auto dest: less_trans)
qed simp

interpretation omap: key_store "map_of :: ('k::linorder \<times> 'v) list \<Rightarrow> 'k \<Rightarrow> 'v option"
    map_put "\<lambda>ps. fst ` set ps" map_ordered
  by unfold_locales (auto simp: map_of_map_put map_of_eq_None_iff map_ordered_put)

section \<open>Choosing a winner\<close>

text \<open>A loop that keeps the better of the winner so far and the next index.\<close>

locale tournament =
  fixes pick :: "nat \<Rightarrow> nat \<Rightarrow> nat" and beats :: "nat \<Rightarrow> nat \<Rightarrow> bool"
  assumes pick_one: "pick w i = w \<or> pick w i = i"
    and pick_keeps: "beats w j \<Longrightarrow> beats (pick w i) j"
    and pick_wins: "beats (pick w i) i"
    and beats_self: "beats w w"
begin

lemma winner: "0 < n \<Longrightarrow> foldl pick 0 [1..<n] < n \<and> (\<forall>i<n. beats (foldl pick 0 [1..<n]) i)"
proof (induction n)
  case (Suc n)
  show ?case
  proof (cases "n = 0")
    case False
    let ?w = "foldl pick 0 [1..<n]"
    from False have "foldl pick 0 [1..<Suc n] = pick ?w n" by simp
    moreover have "?w < n" "\<forall>i<n. beats ?w i" using False Suc.IH by auto
    moreover have "pick ?w n < Suc n" using pick_one [of ?w n] \<open>?w < n\<close> by auto
    ultimately show ?thesis using pick_keeps pick_wins by (metis less_antisym)
  qed (simp add: beats_self)
qed simp

end

section \<open>Transition systems\<close>

locale invariant_system =
  fixes start :: "'s \<Rightarrow> bool" and step :: "'s \<Rightarrow> 's \<Rightarrow> bool" and I :: "'s \<Rightarrow> bool"
  assumes start_inv: "start s \<Longrightarrow> I s"
    and step_inv: "step s t \<Longrightarrow> I s \<Longrightarrow> I t"
begin

lemma steps_inv: "step\<^sup>*\<^sup>* s t \<Longrightarrow> I s \<Longrightarrow> I t"
  by (induction rule: rtranclp_induct) (auto intro: step_inv)

lemma reachable_inv: "start s \<Longrightarrow> step\<^sup>*\<^sup>* s t \<Longrightarrow> I t"
  using start_inv steps_inv by blast

end

locale monotone_system = invariant_system +
  fixes R :: "'s \<Rightarrow> 's \<Rightarrow> bool"
  assumes R_refl: "R s s"
    and R_trans: "R s t \<Longrightarrow> R t u \<Longrightarrow> R s u"
    and R_step: "step s t \<Longrightarrow> I s \<Longrightarrow> R s t"
begin

lemma steps_R: "step\<^sup>*\<^sup>* s t \<Longrightarrow> I s \<Longrightarrow> R s t"
proof (induction rule: rtranclp_induct)
  case (step t u)
  then have "R s t" and "I t" using steps_inv by auto
  with step.hyps(2) show ?case using R_trans R_step by blast
qed (rule R_refl)

end

text \<open>An abstract system that a concrete one implements step by step, through an abstraction function.\<close>

locale simulated_system = invariant_system +
  fixes abstr :: "'s \<Rightarrow> 'a" and astep :: "'a \<Rightarrow> 'a \<Rightarrow> bool"
  assumes simulated: "step s t \<Longrightarrow> I s \<Longrightarrow> astep (abstr s) (abstr t)"
begin

lemma steps_simulated: "step\<^sup>*\<^sup>* s t \<Longrightarrow> I s \<Longrightarrow> astep\<^sup>*\<^sup>* (abstr s) (abstr t)"
proof (induction rule: rtranclp_induct)
  case (step t u)
  then have "astep (abstr t) (abstr u)" using simulated steps_inv by blast
  with step show ?case by (meson rtranclp.rtrancl_into_rtrancl)
qed simp

lemma reachable_simulated: "start s \<Longrightarrow> step\<^sup>*\<^sup>* s t \<Longrightarrow> astep\<^sup>*\<^sup>* (abstr s) (abstr t)"
  using start_inv steps_simulated by blast

end

section \<open>Byte codecs\<close>

lemma length_le_split [simp]: "length (le_split n v) = n"
  by (simp add: le_split_def)

lemma bit_0xFF: "bit (0xFF :: int) k \<longleftrightarrow> k < 8"
proof -
  have "(0xFF :: int) = mask 8" by (simp add: mask_eq_exp_minus_1)
  then show ?thesis by (simp only: bit_mask_iff) simp
qed

lemma bit_le_split: "i < n \<Longrightarrow> bit (le_split n v ! i) k \<longleftrightarrow> k < 8 \<and> bit v (8 * i + k)"
  by (auto simp: le_split_def bit_simps bit_0xFF dest: bit_imp_le_length)

lemma bit_le_join_upto:
  fixes bs :: bytes
  assumes "m \<le> length bs"
  shows "bit (foldl (\<lambda>v i. v OR push_bit (8 * i) (ucast (bs ! i))) (0::'a::len word) [0..<m]) n \<longleftrightarrow>
    n < LENGTH('a) \<and> n div 8 < m \<and> bit (bs ! (n div 8)) (n mod 8)"
  using assms
proof (induction m)
  case (Suc m)
  have "8 * m \<le> n \<and> bit (bs ! m) (n - 8 * m) \<longleftrightarrow> n div 8 = m \<and> bit (bs ! (n div 8)) (n mod 8)"
  proof
    assume a: "8 * m \<le> n \<and> bit (bs ! m) (n - 8 * m)"
    then have "n - 8 * m < 8" using bit_imp_le_length [of "bs ! m" "n - 8 * m"] by simp
    with a have "n div 8 = m" "n mod 8 = n - 8 * m" by (auto simp: div_nat_eqI modulo_nat_def)
    with a show "n div 8 = m \<and> bit (bs ! (n div 8)) (n mod 8)" by simp
  next
    assume a: "n div 8 = m \<and> bit (bs ! (n div 8)) (n mod 8)"
    then have "n - 8 * m = n mod 8" by (auto simp: modulo_nat_def)
    with a show "8 * m \<le> n \<and> bit (bs ! m) (n - 8 * m)" by auto
  qed
  with Suc show ?case by (auto simp: bit_simps less_Suc_eq)
qed simp

lemma bit_le_join:
  "bit (le_join bs :: 'a::len word) n \<longleftrightarrow> n < LENGTH('a) \<and> n div 8 < length bs \<and> bit (bs ! (n div 8)) (n mod 8)"
  unfolding le_join_def by (rule bit_le_join_upto) simp

lemma le_join_split: "8 * n = LENGTH('a) \<Longrightarrow> le_join (le_split n v) = (v :: 'a::len word)"
  by (rule bit_word_eqI) (auto simp: bit_le_join bit_le_split less_mult_imp_div_less mult.commute)

lemma le_split_join:
  assumes "8 * n = LENGTH('a)" and "length bs = n"
  shows "le_split n (le_join bs :: 'a::len word) = bs"
proof (rule nth_equalityI)
  fix i assume "i < length (le_split n (le_join bs :: 'a word))"
  then have i: "i < n" by simp
  show "le_split n (le_join bs :: 'a word) ! i = bs ! i"
  proof (rule bit_word_eqI)
    fix k assume "k < LENGTH(8)"
    with i assms show "bit (le_split n (le_join bs :: 'a word) ! i) k = bit (bs ! i) k"
      by (simp add: bit_le_split bit_le_join)
  qed
qed (use assms in simp)

locale byte_codec =
  fixes width :: nat and put :: "'v \<Rightarrow> bytes" and get :: "bytes \<Rightarrow> ('v \<times> bytes) option"
  assumes length_put: "length (put v) = width"
    and get_put: "get (put v @ r) = Some (v, r)"
    and get_sound: "get bs = Some (v, r) \<Longrightarrow> bs = put v @ r"
    and get_total: "width \<le> length bs \<Longrightarrow> get bs \<noteq> None"
begin

lemma get_None_iff: "get bs = None \<longleftrightarrow> length bs < width"
proof
  assume "get bs = None" then show "length bs < width" using get_total by (meson not_le)
next
  assume "length bs < width"
  then have "bs \<noteq> put v @ r" for v r using length_put [of v] by auto
  then show "get bs = None" using get_sound by (metis option.exhaust prod.exhaust)
qed

lemma get_Some_iff: "get bs = Some (v, r) \<longleftrightarrow> bs = put v @ r"
  using get_put get_sound by blast

lemma put_inject: "put v = put w \<longleftrightarrow> v = w"
  by (metis get_put option.inject prod.inject append_Nil2)

lemma length_concat_put: "length (concat (map put vs)) = width * length vs"
  by (induction vs) (simp_all add: length_put)

end

text \<open>Reading a counted run of fields, as the decoders' loops do; \<open>None\<close> is a failed read.\<close>

fun get_many :: "(bytes \<Rightarrow> ('v \<times> bytes) option) \<Rightarrow> nat \<Rightarrow> bytes \<Rightarrow> ('v list \<times> bytes) option" where
  "get_many g 0 bs = Some ([], bs)"
| "get_many g (Suc n) bs =
     (case g bs of None \<Rightarrow> None
      | Some (v, r) \<Rightarrow> (case get_many g n r of None \<Rightarrow> None | Some (vs, r') \<Rightarrow> Some (v # vs, r')))"

context byte_codec
begin

lemma get_many_put: "get_many get (length vs) (concat (map put vs) @ r) = Some (vs, r)"
  by (induction vs) (simp_all add: get_put)

lemma get_many_sound: "get_many get n bs = Some (vs, r) \<Longrightarrow> bs = concat (map put vs) @ r \<and> length vs = n"
  by (induction n arbitrary: bs vs) (auto split: option.splits prod.splits simp: get_Some_iff)

lemma get_many_None_iff: "get_many get n bs = None \<longleftrightarrow> length bs < width * n"
proof (induction n arbitrary: bs)
  case (Suc n)
  show ?case
  proof (cases "get bs")
    case None
    then have "length bs < width" by (simp add: get_None_iff)
    with None show ?thesis by simp
  next
    case (Some p)
    obtain v r where p: "p = (v, r)" by fastforce
    with Some have "length bs = width + length r" by (auto simp: get_Some_iff length_put)
    with Some p Suc.IH [of r] show ?thesis by (auto split: option.splits)
  qed
qed simp

end

lemma take_field_codec: "8 * n = LENGTH('a::len) \<Longrightarrow> byte_codec n (le_split n) (take_field n :: bytes \<Rightarrow> ('a word \<times> bytes) option)"
proof unfold_locales
  assume n: "8 * n = LENGTH('a)"
  show "take_field n (le_split n v @ r) = Some (v :: 'a word, r)" for v r
    using n by (simp add: take_field_def le_join_split)
  show "take_field n bs = Some (v :: 'a word, r) \<Longrightarrow> bs = le_split n v @ r" for bs v r
    using n by (auto simp: take_field_def le_split_join split: if_splits)
  show "n \<le> length bs \<Longrightarrow> take_field n bs \<noteq> (None :: ('a word \<times> bytes) option)" for bs
    by (simp add: take_field_def)
qed simp

interpretation u32c: byte_codec 4 "le_split 4 :: u32 \<Rightarrow> bytes" "take_field 4"
  by (rule take_field_codec) simp

interpretation u64c: byte_codec 8 "le_split 8 :: u64 \<Rightarrow> bytes" "take_field 8"
  by (rule take_field_codec) simp

interpretation u8c: byte_codec 1 "le_split 1 :: u8 \<Rightarrow> bytes" "take_field 1"
  by (rule take_field_codec) simp

end
