(* ===== verification/SF_Error.thy ===== *)
theory SF_Error
  imports SF_Prelude
begin

text \<open>
  The error model of \<^verbatim>\<open>include/speculation_fabric/core/error.hpp\<close> and
  \<^verbatim>\<open>src/core/error.cpp\<close>: the structured \<^verbatim>\<open>ErrorCode\<close> (one datatype per category
  comment of the enum), its numeric values, the table \<^verbatim>\<open>kCodes\<close> with its two lookups, the
  terminal classification, and the value-or-error container \<^verbatim>\<open>Result<T>\<close> with its combinators.
\<close>

section \<open>Error codes\<close>

datatype GeneralCode =
    EC_invalid_argument
  | EC_out_of_range
  | EC_not_found
  | EC_already_exists
  | EC_invalid_state
  | EC_unknown
  | EC_not_implemented
  | EC_internal
  | EC_capacity_exceeded
  | EC_buffer_full
  | EC_corrupt
  | EC_malformed

datatype ValidationCode =
    EC_invalid_proposal
  | EC_invalid_candidate
  | EC_invalid_branch
  | EC_invalid_depth
  | EC_invalid_token_encoding
  | EC_token_count_mismatch
  | EC_acceptance_exceeds_candidate
  | EC_invalid_verification_result
  | EC_empty_candidate
  | EC_invalid_authoritative_generation
  | EC_invalid_candidate_generation
  | EC_candidate_length_mismatch
  | EC_invalid_request
  | EC_invalid_identity
  | EC_invalid_dispatch
  | EC_invalid_attempt
  | EC_impossible_candidate_depth
  | EC_invalid_zero_depth

datatype AuthorityCode =
    EC_stale_epoch
  | EC_stale_worker_boot
  | EC_stale_attempt
  | EC_stale_proposal_generation
  | EC_stale_verification_generation
  | EC_wrong_base_generation
  | EC_duplicate_proposal
  | EC_duplicate_verification
  | EC_completion_after_cancellation
  | EC_completion_after_terminal
  | EC_losing_branch_commit
  | EC_late_proposal
  | EC_late_verification
  | EC_stale_authority
  | EC_obsolete_worker

datatype CompatibilityCode =
    EC_incompatible_model_pair
  | EC_incompatible_tokenizer
  | EC_incompatible_vocabulary
  | EC_incompatible_adapter
  | EC_incompatible_protocol
  | EC_incompatible_device
  | EC_incompatible_executor
  | EC_incompatible_state_layout
  | EC_incompatible_revision
  | EC_incompatible_operator_policy

datatype ResourceCode =
    EC_reservation_underflow
  | EC_double_release
  | EC_deadline_exceeded
  | EC_budget_exceeded
  | EC_backpressure
  | EC_request_cancelled
  | EC_expired
  | EC_proposer_unavailable
  | EC_verifier_unavailable
  | EC_reservation_leak
  | EC_memory_pressure
  | EC_shut_down

datatype TerminalCode =
    EC_rejected
  | EC_rolled_back
  | EC_superseded
  | EC_failed
  | EC_already_terminal
  | EC_cancelled
  | EC_committed
  | EC_fully_accepted
  | EC_partially_accepted
  | EC_retryable_failure
  | EC_non_retryable_failure

datatype ResultCode =
    EC_proposal_success
  | EC_proposal_retryable_failure
  | EC_proposal_non_retryable_failure
  | EC_verification_success_full_accept
  | EC_verification_success_partial_accept
  | EC_verification_reject_all
  | EC_verification_retryable_failure
  | EC_verification_non_retryable_failure

datatype ProtocolCode =
    EC_malformed_frame
  | EC_oversized_frame
  | EC_truncated_frame
  | EC_unknown_protocol_version
  | EC_unknown_message_type
  | EC_malformed_identity
  | EC_invalid_message
  | EC_zero_length_message

datatype MachineCode =
    EC_invalid_transition
  | EC_not_ready
  | EC_wrong_state
  | EC_state_machine_cycle_overflow

datatype ErrorCode =
    EC_ok
  | General GeneralCode
  | Validation ValidationCode
  | Authority AuthorityCode
  | Compatibility CompatibilityCode
  | Resource ResourceCode
  | TerminalOutcome TerminalCode
  | ResultOutcome ResultCode
  | Protocol ProtocolCode
  | Machine MachineCode

primrec general_value :: "GeneralCode \<Rightarrow> int" where
    "general_value EC_invalid_argument = 1"
  | "general_value EC_out_of_range = 2"
  | "general_value EC_not_found = 3"
  | "general_value EC_already_exists = 4"
  | "general_value EC_invalid_state = 5"
  | "general_value EC_unknown = 6"
  | "general_value EC_not_implemented = 7"
  | "general_value EC_internal = 8"
  | "general_value EC_capacity_exceeded = 9"
  | "general_value EC_buffer_full = 10"
  | "general_value EC_corrupt = 11"
  | "general_value EC_malformed = 12"

primrec validation_value :: "ValidationCode \<Rightarrow> int" where
    "validation_value EC_invalid_proposal = 100"
  | "validation_value EC_invalid_candidate = 101"
  | "validation_value EC_invalid_branch = 102"
  | "validation_value EC_invalid_depth = 103"
  | "validation_value EC_invalid_token_encoding = 104"
  | "validation_value EC_token_count_mismatch = 105"
  | "validation_value EC_acceptance_exceeds_candidate = 106"
  | "validation_value EC_invalid_verification_result = 107"
  | "validation_value EC_empty_candidate = 108"
  | "validation_value EC_invalid_authoritative_generation = 109"
  | "validation_value EC_invalid_candidate_generation = 110"
  | "validation_value EC_candidate_length_mismatch = 111"
  | "validation_value EC_invalid_request = 112"
  | "validation_value EC_invalid_identity = 113"
  | "validation_value EC_invalid_dispatch = 114"
  | "validation_value EC_invalid_attempt = 115"
  | "validation_value EC_impossible_candidate_depth = 116"
  | "validation_value EC_invalid_zero_depth = 117"

primrec authority_value :: "AuthorityCode \<Rightarrow> int" where
    "authority_value EC_stale_epoch = 200"
  | "authority_value EC_stale_worker_boot = 201"
  | "authority_value EC_stale_attempt = 202"
  | "authority_value EC_stale_proposal_generation = 203"
  | "authority_value EC_stale_verification_generation = 204"
  | "authority_value EC_wrong_base_generation = 205"
  | "authority_value EC_duplicate_proposal = 206"
  | "authority_value EC_duplicate_verification = 207"
  | "authority_value EC_completion_after_cancellation = 208"
  | "authority_value EC_completion_after_terminal = 209"
  | "authority_value EC_losing_branch_commit = 210"
  | "authority_value EC_late_proposal = 211"
  | "authority_value EC_late_verification = 212"
  | "authority_value EC_stale_authority = 213"
  | "authority_value EC_obsolete_worker = 214"

primrec compatibility_value :: "CompatibilityCode \<Rightarrow> int" where
    "compatibility_value EC_incompatible_model_pair = 300"
  | "compatibility_value EC_incompatible_tokenizer = 301"
  | "compatibility_value EC_incompatible_vocabulary = 302"
  | "compatibility_value EC_incompatible_adapter = 303"
  | "compatibility_value EC_incompatible_protocol = 304"
  | "compatibility_value EC_incompatible_device = 305"
  | "compatibility_value EC_incompatible_executor = 306"
  | "compatibility_value EC_incompatible_state_layout = 307"
  | "compatibility_value EC_incompatible_revision = 308"
  | "compatibility_value EC_incompatible_operator_policy = 309"

primrec resource_value :: "ResourceCode \<Rightarrow> int" where
    "resource_value EC_reservation_underflow = 400"
  | "resource_value EC_double_release = 401"
  | "resource_value EC_deadline_exceeded = 402"
  | "resource_value EC_budget_exceeded = 403"
  | "resource_value EC_backpressure = 404"
  | "resource_value EC_request_cancelled = 405"
  | "resource_value EC_expired = 406"
  | "resource_value EC_proposer_unavailable = 407"
  | "resource_value EC_verifier_unavailable = 408"
  | "resource_value EC_reservation_leak = 409"
  | "resource_value EC_memory_pressure = 410"
  | "resource_value EC_shut_down = 411"

primrec terminaloutcome_value :: "TerminalCode \<Rightarrow> int" where
    "terminaloutcome_value EC_rejected = 500"
  | "terminaloutcome_value EC_rolled_back = 501"
  | "terminaloutcome_value EC_superseded = 502"
  | "terminaloutcome_value EC_failed = 503"
  | "terminaloutcome_value EC_already_terminal = 504"
  | "terminaloutcome_value EC_cancelled = 505"
  | "terminaloutcome_value EC_committed = 506"
  | "terminaloutcome_value EC_fully_accepted = 507"
  | "terminaloutcome_value EC_partially_accepted = 508"
  | "terminaloutcome_value EC_retryable_failure = 509"
  | "terminaloutcome_value EC_non_retryable_failure = 510"

primrec resultoutcome_value :: "ResultCode \<Rightarrow> int" where
    "resultoutcome_value EC_proposal_success = 600"
  | "resultoutcome_value EC_proposal_retryable_failure = 601"
  | "resultoutcome_value EC_proposal_non_retryable_failure = 602"
  | "resultoutcome_value EC_verification_success_full_accept = 603"
  | "resultoutcome_value EC_verification_success_partial_accept = 604"
  | "resultoutcome_value EC_verification_reject_all = 605"
  | "resultoutcome_value EC_verification_retryable_failure = 606"
  | "resultoutcome_value EC_verification_non_retryable_failure = 607"

primrec protocol_value :: "ProtocolCode \<Rightarrow> int" where
    "protocol_value EC_malformed_frame = 700"
  | "protocol_value EC_oversized_frame = 701"
  | "protocol_value EC_truncated_frame = 702"
  | "protocol_value EC_unknown_protocol_version = 703"
  | "protocol_value EC_unknown_message_type = 704"
  | "protocol_value EC_malformed_identity = 705"
  | "protocol_value EC_invalid_message = 706"
  | "protocol_value EC_zero_length_message = 707"

primrec machine_value :: "MachineCode \<Rightarrow> int" where
    "machine_value EC_invalid_transition = 800"
  | "machine_value EC_not_ready = 801"
  | "machine_value EC_wrong_state = 802"
  | "machine_value EC_state_machine_cycle_overflow = 803"

primrec code_value :: "ErrorCode \<Rightarrow> int" where
    "code_value EC_ok = 0"
  | "code_value (General c) = general_value c"
  | "code_value (Validation c) = validation_value c"
  | "code_value (Authority c) = authority_value c"
  | "code_value (Compatibility c) = compatibility_value c"
  | "code_value (Resource c) = resource_value c"
  | "code_value (TerminalOutcome c) = terminaloutcome_value c"
  | "code_value (ResultOutcome c) = resultoutcome_value c"
  | "code_value (Protocol c) = protocol_value c"
  | "code_value (Machine c) = machine_value c"

section \<open>The name table and its lookups\<close>

definition kCodes :: "(ErrorCode \<times> string \<times> string) list" where
  "kCodes = [
    (EC_ok, ''ok'', ''success''),
    (General EC_invalid_argument, ''invalid_argument'', ''invalid argument''),
    (General EC_out_of_range, ''out_of_range'', ''value out of range''),
    (General EC_not_found, ''not_found'', ''entity not found''),
    (General EC_already_exists, ''already_exists'', ''entity already exists''),
    (General EC_invalid_state, ''invalid_state'', ''invalid state''),
    (General EC_unknown, ''unknown'', ''unknown error''),
    (General EC_not_implemented, ''not_implemented'', ''not implemented''),
    (General EC_internal, ''internal'', ''internal error''),
    (General EC_capacity_exceeded, ''capacity_exceeded'', ''capacity exceeded''),
    (General EC_buffer_full, ''buffer_full'', ''buffer full''),
    (General EC_corrupt, ''corrupt'', ''data corrupt''),
    (General EC_malformed, ''malformed'', ''malformed data''),
    (Validation EC_invalid_proposal, ''invalid_proposal'', ''invalid proposal''),
    (Validation EC_invalid_candidate, ''invalid_candidate'', ''invalid candidate''),
    (Validation EC_invalid_branch, ''invalid_branch'', ''invalid branch''),
    (Validation EC_invalid_depth, ''invalid_depth'', ''invalid speculative depth''),
    (Validation EC_invalid_token_encoding, ''invalid_token_encoding'', ''invalid token encoding''),
    (Validation EC_token_count_mismatch, ''token_count_mismatch'', ''token count mismatch''),
    (Validation EC_acceptance_exceeds_candidate, ''acceptance_exceeds_candidate'', ''accepted count exceeds candidate count''),
    (Validation EC_invalid_verification_result, ''invalid_verification_result'', ''invalid verification result''),
    (Validation EC_empty_candidate, ''empty_candidate'', ''empty candidate sequence''),
    (Validation EC_invalid_authoritative_generation, ''invalid_authoritative_generation'', ''invalid authoritative generation''),
    (Validation EC_invalid_candidate_generation, ''invalid_candidate_generation'', ''invalid candidate generation''),
    (Validation EC_candidate_length_mismatch, ''candidate_length_mismatch'', ''candidate length mismatch''),
    (Validation EC_invalid_request, ''invalid_request'', ''invalid request''),
    (Validation EC_invalid_identity, ''invalid_identity'', ''invalid identity''),
    (Validation EC_invalid_dispatch, ''invalid_dispatch'', ''invalid dispatch''),
    (Validation EC_invalid_attempt, ''invalid_attempt'', ''invalid attempt''),
    (Validation EC_impossible_candidate_depth, ''impossible_candidate_depth'', ''impossible candidate depth''),
    (Validation EC_invalid_zero_depth, ''invalid_zero_depth'', ''zero speculative depth is invalid''),
    (Authority EC_stale_epoch, ''stale_epoch'', ''stale coordinator epoch''),
    (Authority EC_stale_worker_boot, ''stale_worker_boot'', ''stale worker boot identity''),
    (Authority EC_stale_attempt, ''stale_attempt'', ''stale attempt''),
    (Authority EC_stale_proposal_generation, ''stale_proposal_generation'', ''stale proposal generation''),
    (Authority EC_stale_verification_generation, ''stale_verification_generation'', ''stale verification generation''),
    (Authority EC_wrong_base_generation, ''wrong_base_generation'', ''wrong authoritative base generation''),
    (Authority EC_duplicate_proposal, ''duplicate_proposal'', ''duplicate proposal completion''),
    (Authority EC_duplicate_verification, ''duplicate_verification'', ''duplicate verification completion''),
    (Authority EC_completion_after_cancellation, ''completion_after_cancellation'', ''completion after cancellation''),
    (Authority EC_completion_after_terminal, ''completion_after_terminal'', ''completion after terminal state''),
    (Authority EC_losing_branch_commit, ''losing_branch_commit'', ''commit from losing branch''),
    (Authority EC_late_proposal, ''late_proposal'', ''late proposal completion''),
    (Authority EC_late_verification, ''late_verification'', ''late verification completion''),
    (Authority EC_stale_authority, ''stale_authority'', ''stale authority''),
    (Authority EC_obsolete_worker, ''obsolete_worker'', ''obsolete worker''),
    (Compatibility EC_incompatible_model_pair, ''incompatible_model_pair'', ''incompatible model pair''),
    (Compatibility EC_incompatible_tokenizer, ''incompatible_tokenizer'', ''incompatible tokenizer''),
    (Compatibility EC_incompatible_vocabulary, ''incompatible_vocabulary'', ''incompatible vocabulary''),
    (Compatibility EC_incompatible_adapter, ''incompatible_adapter'', ''incompatible adapter stack''),
    (Compatibility EC_incompatible_protocol, ''incompatible_protocol'', ''incompatible candidate protocol''),
    (Compatibility EC_incompatible_device, ''incompatible_device'', ''incompatible device''),
    (Compatibility EC_incompatible_executor, ''incompatible_executor'', ''incompatible executor''),
    (Compatibility EC_incompatible_state_layout, ''incompatible_state_layout'', ''incompatible state layout''),
    (Compatibility EC_incompatible_revision, ''incompatible_revision'', ''incompatible model revision''),
    (Compatibility EC_incompatible_operator_policy, ''incompatible_operator_policy'', ''incompatible operator policy''),
    (Resource EC_reservation_underflow, ''reservation_underflow'', ''reservation underflow''),
    (Resource EC_double_release, ''double_release'', ''double release''),
    (Resource EC_deadline_exceeded, ''deadline_exceeded'', ''deadline exceeded''),
    (Resource EC_budget_exceeded, ''budget_exceeded'', ''budget exceeded''),
    (Resource EC_backpressure, ''backpressure'', ''speculative backpressure''),
    (Resource EC_request_cancelled, ''request_cancelled'', ''request cancelled''),
    (Resource EC_expired, ''expired'', ''expired''),
    (Resource EC_proposer_unavailable, ''proposer_unavailable'', ''proposer unavailable''),
    (Resource EC_verifier_unavailable, ''verifier_unavailable'', ''verifier unavailable''),
    (Resource EC_reservation_leak, ''reservation_leak'', ''reservation leak''),
    (Resource EC_memory_pressure, ''memory_pressure'', ''memory pressure''),
    (Resource EC_shut_down, ''shut_down'', ''runtime shut down''),
    (TerminalOutcome EC_rejected, ''rejected'', ''rejected''),
    (TerminalOutcome EC_rolled_back, ''rolled_back'', ''rolled back''),
    (TerminalOutcome EC_superseded, ''superseded'', ''superseded''),
    (TerminalOutcome EC_failed, ''failed'', ''failed''),
    (TerminalOutcome EC_already_terminal, ''already_terminal'', ''already terminal''),
    (TerminalOutcome EC_cancelled, ''cancelled'', ''cancelled''),
    (TerminalOutcome EC_committed, ''committed'', ''committed''),
    (TerminalOutcome EC_fully_accepted, ''fully_accepted'', ''fully accepted''),
    (TerminalOutcome EC_partially_accepted, ''partially_accepted'', ''partially accepted''),
    (TerminalOutcome EC_retryable_failure, ''retryable_failure'', ''retryable failure''),
    (TerminalOutcome EC_non_retryable_failure, ''non_retryable_failure'', ''non-retryable failure''),
    (ResultOutcome EC_proposal_success, ''proposal_success'', ''proposal succeeded''),
    (ResultOutcome EC_proposal_retryable_failure, ''proposal_retryable_failure'', ''proposal retryable failure''),
    (ResultOutcome EC_proposal_non_retryable_failure, ''proposal_non_retryable_failure'', ''proposal non-retryable failure''),
    (ResultOutcome EC_verification_success_full_accept, ''verification_success_full_accept'', ''verification full accept''),
    (ResultOutcome EC_verification_success_partial_accept, ''verification_success_partial_accept'', ''verification partial accept''),
    (ResultOutcome EC_verification_reject_all, ''verification_reject_all'', ''verification rejected all''),
    (ResultOutcome EC_verification_retryable_failure, ''verification_retryable_failure'', ''verification retryable failure''),
    (ResultOutcome EC_verification_non_retryable_failure, ''verification_non_retryable_failure'', ''verification non-retryable failure''),
    (Protocol EC_malformed_frame, ''malformed_frame'', ''malformed frame''),
    (Protocol EC_oversized_frame, ''oversized_frame'', ''oversized frame''),
    (Protocol EC_truncated_frame, ''truncated_frame'', ''truncated frame''),
    (Protocol EC_unknown_protocol_version, ''unknown_protocol_version'', ''unknown protocol version''),
    (Protocol EC_unknown_message_type, ''unknown_message_type'', ''unknown message type''),
    (Protocol EC_malformed_identity, ''malformed_identity'', ''malformed identity''),
    (Protocol EC_invalid_message, ''invalid_message'', ''invalid message''),
    (Protocol EC_zero_length_message, ''zero_length_message'', ''zero-length message''),
    (Machine EC_invalid_transition, ''invalid_transition'', ''invalid state transition''),
    (Machine EC_not_ready, ''not_ready'', ''not ready''),
    (Machine EC_wrong_state, ''wrong_state'', ''wrong state''),
    (Machine EC_state_machine_cycle_overflow, ''state_machine_cycle_overflow'', ''state machine cycle overflow'')]"

definition error_to_string :: "ErrorCode \<Rightarrow> string" where
  "error_to_string c = (case find (\<lambda>e. fst e = c) kCodes of Some e \<Rightarrow> fst (snd e) | None \<Rightarrow> ''unknown'')"

definition error_describe :: "ErrorCode \<Rightarrow> string" where
  "error_describe c = (case find (\<lambda>e. fst e = c) kCodes of Some e \<Rightarrow> snd (snd e) | None \<Rightarrow> ''unknown error'')"

definition is_terminal_code :: "ErrorCode \<Rightarrow> bool" where
  "is_terminal_code c \<longleftrightarrow> c \<in> {TerminalOutcome EC_committed, TerminalOutcome EC_fully_accepted,
     TerminalOutcome EC_partially_accepted, TerminalOutcome EC_rejected, TerminalOutcome EC_rolled_back,
     TerminalOutcome EC_superseded, TerminalOutcome EC_failed, TerminalOutcome EC_cancelled,
     Resource EC_expired, TerminalOutcome EC_already_terminal}"

section \<open>Result<T>\<close>

record Error =
  err_code :: ErrorCode
  err_message :: string

definition Error_is_ok :: "Error \<Rightarrow> bool" where
  "Error_is_ok e \<longleftrightarrow> err_code e = EC_ok"

datatype 'a Result = Ok 'a | Err Error

abbreviation err :: "ErrorCode \<Rightarrow> string \<Rightarrow> 'a Result" where
  "err c m \<equiv> Err \<lparr>err_code = c, err_message = m\<rparr>"

primrec has_value :: "'a Result \<Rightarrow> bool" where
  "has_value (Ok v) = True"
| "has_value (Err e) = False"

definition is_error :: "'a Result \<Rightarrow> bool" where
  "is_error r \<longleftrightarrow> \<not> has_value r"

text \<open>Reading the value of an error result dereferences an empty optional.\<close>

primrec result_value :: "'a Result \<Rightarrow> 'a cpp" where
  "result_value (Ok v) = Some v"
| "result_value (Err e) = None"

primrec value_or :: "'a Result \<Rightarrow> 'a \<Rightarrow> 'a" where
  "value_or (Ok v) d = v"
| "value_or (Err e) d = d"

primrec error_of :: "'a Result \<Rightarrow> Error" where
  "error_of (Ok v) = \<lparr>err_code = EC_ok, err_message = []\<rparr>"
| "error_of (Err e) = e"

definition error_code :: "'a Result \<Rightarrow> ErrorCode" where
  "error_code r = err_code (error_of r)"

primrec result_map :: "('a \<Rightarrow> 'b) \<Rightarrow> 'a Result \<Rightarrow> 'b Result" where
  "result_map f (Ok v) = Ok (f v)"
| "result_map f (Err e) = Err e"

primrec and_then :: "'a Result \<Rightarrow> ('a \<Rightarrow> 'b Result) \<Rightarrow> 'b Result" where
  "and_then (Ok v) f = f v"
| "and_then (Err e) f = Err e"

primrec or_else :: "'a Result \<Rightarrow> (Error \<Rightarrow> 'a Result) \<Rightarrow> 'a Result" where
  "or_else (Ok v) f = Ok v"
| "or_else (Err e) f = f e"

section \<open>Result<void>\<close>

text \<open>
  The specialisation without a payload keeps a flag and an error. The other theories use \<open>unit Result\<close>
  for it; \<open>void_repr\<close> is how the class represents such a value.
\<close>

record VoidResult =
  vr_ok :: bool
  vr_error :: Error

definition void_new :: VoidResult where
  "void_new = \<lparr>vr_ok = False, vr_error = \<lparr>err_code = EC_ok, err_message = []\<rparr>\<rparr>"

definition void_ok :: VoidResult where
  "void_ok = void_new\<lparr>vr_ok := True\<rparr>"

definition void_err :: "ErrorCode \<Rightarrow> string \<Rightarrow> VoidResult" where
  "void_err c m =
     (let r = void_new\<lparr>vr_ok := False\<rparr>; r = r\<lparr>vr_error := (vr_error r)\<lparr>err_code := c\<rparr>\<rparr>
      in r\<lparr>vr_error := (vr_error r)\<lparr>err_message := m\<rparr>\<rparr>)"

definition void_err_of :: "Error \<Rightarrow> VoidResult" where
  "void_err_of e = void_new\<lparr>vr_ok := False, vr_error := e\<rparr>"

definition void_has_value :: "VoidResult \<Rightarrow> bool" where "void_has_value r \<longleftrightarrow> vr_ok r"

definition void_is_error :: "VoidResult \<Rightarrow> bool" where "void_is_error r \<longleftrightarrow> \<not> vr_ok r"

definition void_error_code :: "VoidResult \<Rightarrow> ErrorCode" where "void_error_code r = err_code (vr_error r)"

primrec void_repr :: "unit Result \<Rightarrow> VoidResult" where
  "void_repr (Ok u) = void_ok"
| "void_repr (Err e) = void_err_of e"

section \<open>Facts\<close>

text \<open>The class and \<open>unit Result\<close> agree on every constructor and observer, and no information is lost.\<close>

lemma void_result_refines:
  "void_err c m = void_repr (err c m)" "void_has_value (void_repr r) = has_value r" "void_is_error (void_repr r) = is_error r"
  "vr_error (void_repr r) = error_of r" "void_error_code (void_repr r) = error_code r" "void_repr r = void_repr s \<longleftrightarrow> r = s"
  by (cases r; cases s; simp add: void_err_def void_err_of_def void_ok_def void_new_def void_has_value_def void_is_error_def
      void_error_code_def is_error_def error_code_def Let_def)+

lemma kCodes_sorted: "sorted_wrt (<) (map (code_value \<circ> fst) kCodes)"
  by (simp add: kCodes_def sorted_wrt1 sorted_wrt2 [OF transp_on_less] del: sorted_wrt.simps)

lemma kCodes_complete: "c \<in> set (map fst kCodes)"
  unfolding kCodes_def list.map fst_conv list.set
  by (cases c; simp; rename_tac k; case_tac k; simp)

lemma kCodes_distinct: "distinct (map fst kCodes)"
proof -
  have "distinct (map code_value (map fst kCodes))"
    using kCodes_sorted by (simp add: strict_sorted_iff)
  then show ?thesis by (simp only: distinct_map)
qed

lemma code_value_inject: "code_value c = code_value d \<longleftrightarrow> c = d"
proof
  assume eq: "code_value c = code_value d"
  have "inj_on code_value (set (map fst kCodes))"
    using kCodes_sorted by (simp only: strict_sorted_iff flip: map_map) (simp only: distinct_map)
  with eq kCodes_complete show "c = d" by (meson inj_onD)
qed simp

lemma find_kCodes: "find (\<lambda>e. fst e = c) kCodes = map_option (\<lambda>p. (c, p)) (map_of kCodes c)"
proof -
  have "find (\<lambda>e. fst e = c) ps = map_option (\<lambda>p. (c, p)) (map_of ps c)" for ps :: "(ErrorCode \<times> string \<times> string) list"
    by (induction ps) auto
  then show ?thesis .
qed

lemma kCodes_names_distinct: "distinct (map (fst \<circ> snd) kCodes)"
  by (simp add: kCodes_def)

lemma kCodes_row:
  obtains n d where "(c, n, d) \<in> set kCodes" "error_to_string c = n" "error_describe c = d"
proof -
  from kCodes_complete [of c] obtain n d where row: "(c, n, d) \<in> set kCodes" by auto
  then have "map_of kCodes c = Some (n, d)" by (simp add: kCodes_distinct)
  with row that show thesis by (simp add: error_to_string_def error_describe_def find_kCodes)
qed

lemma and_then_assoc: "and_then (and_then r f) g = and_then r (\<lambda>v. and_then (f v) g)"
  by (cases r) simp_all

lemma and_then_Ok: "and_then r Ok = r"
  by (cases r) simp_all

lemma result_map_and_then: "result_map f r = and_then r (Ok \<circ> f)"
  by (cases r) simp_all

lemma result_value_Some_iff [simp]: "result_value r = Some v \<longleftrightarrow> r = Ok v"
  by (cases r) auto

lemma has_value_iff: "has_value r \<longleftrightarrow> (\<exists>v. r = Ok v)"
  by (cases r) simp_all

section \<open>Properties\<close>

text \<open>
  Every error code has a row in the name table; two codes with the same
  rendered name, or the same numeric value, are the same code, and the fallback
  name is rendered for the code of that name only.
\<close>

lemma error_codes_named:
  "(error_to_string c = ''unknown'' \<longleftrightarrow> c = General EC_unknown) \<and> (error_to_string c = error_to_string d \<longleftrightarrow> c = d) \<and>
   (code_value c = code_value d \<longleftrightarrow> c = d)"
proof -
  have row: "\<exists>x. (c, error_to_string c, x) \<in> set kCodes" for c by (metis kCodes_row)
  have fallback: "error_to_string (General EC_unknown) = ''unknown''"
    by (simp add: error_to_string_def kCodes_def)
  have "c = d" if eq: "error_to_string c = error_to_string d" for c d
  proof -
    obtain x y where "(c, error_to_string c, x) \<in> set kCodes" "(d, error_to_string d, y) \<in> set kCodes"
      using row by blast
    moreover have "inj_on (fst \<circ> snd) (set kCodes)" using kCodes_names_distinct by (simp only: distinct_map)
    moreover have "(fst \<circ> snd) (c, error_to_string c, x) = (fst \<circ> snd) (d, error_to_string d, y)" using eq by simp
    ultimately have "(c, error_to_string c, x) = (d, error_to_string d, y)" by (meson inj_onD)
    then show "c = d" by (rule Pair_inject)
  qed
  then show ?thesis using code_value_inject fallback by metis
qed

end
