(* ===== verification/SF_Lifecycle.thy ===== *)
theory SF_Lifecycle
  imports SF_Error
begin

text \<open>
  The speculative-cycle state machine (\<^verbatim>\<open>lifecycle.hpp\<close>, \<^verbatim>\<open>src/core/lifecycle.cpp\<close>): phases,
  events, the transition table with its linear search, the terminal classification and the guarded
  machine \<^verbatim>\<open>SpeculativeStateMachine::apply\<close>. The lemmas give the table's meaning as a step
  relation, show what a commit must be preceded by, and that every phase can still reach Terminal.
\<close>

section \<open>Phases, events and the transition table\<close>

datatype SpeculativePhase =
    Ph_Ready | Ph_ProposalPlanned | Ph_ProposalReserved | Ph_ProposalDispatched 
  | Ph_ProposalRunning | Ph_ProposalProduced | Ph_VerificationPlanned | Ph_VerificationReserved 
  | Ph_VerificationDispatched | Ph_VerificationRunning | Ph_Verified | Ph_PartiallyAccepted 
  | Ph_FullyAccepted | Ph_Rejected | Ph_RolledBack | Ph_CancelRequested 
  | Ph_Cancelled | Ph_RetryPending | Ph_Superseded | Ph_Expired 
  | Ph_Failed | Ph_Committed | Ph_Terminal

datatype SpeculationEvent =
    Ev_Null | Ev_PlanProposal | Ev_ReserveProposal | Ev_DispatchProposal 
  | Ev_ProposalStarted | Ev_ProposalFinished | Ev_ProposalRetry | Ev_ProposalFail 
  | Ev_PlanVerification | Ev_ReserveVerification | Ev_DispatchVerification | Ev_VerificationStarted 
  | Ev_VerificationFinished | Ev_AcceptPartial | Ev_AcceptFull | Ev_RejectAll 
  | Ev_Commit | Ev_Rollback | Ev_Cancel | Ev_Retry 
  | Ev_Supersede | Ev_Expire | Ev_Fail | Ev_EnterTerminal

primrec phase_number :: "SpeculativePhase \<Rightarrow> nat" where
    "phase_number Ph_Ready = 0"
  | "phase_number Ph_ProposalPlanned = 1"
  | "phase_number Ph_ProposalReserved = 2"
  | "phase_number Ph_ProposalDispatched = 3"
  | "phase_number Ph_ProposalRunning = 4"
  | "phase_number Ph_ProposalProduced = 5"
  | "phase_number Ph_VerificationPlanned = 6"
  | "phase_number Ph_VerificationReserved = 7"
  | "phase_number Ph_VerificationDispatched = 8"
  | "phase_number Ph_VerificationRunning = 9"
  | "phase_number Ph_Verified = 10"
  | "phase_number Ph_PartiallyAccepted = 11"
  | "phase_number Ph_FullyAccepted = 12"
  | "phase_number Ph_Rejected = 13"
  | "phase_number Ph_RolledBack = 14"
  | "phase_number Ph_CancelRequested = 15"
  | "phase_number Ph_Cancelled = 16"
  | "phase_number Ph_RetryPending = 17"
  | "phase_number Ph_Superseded = 18"
  | "phase_number Ph_Expired = 19"
  | "phase_number Ph_Failed = 20"
  | "phase_number Ph_Committed = 21"
  | "phase_number Ph_Terminal = 22"

primrec event_number :: "SpeculationEvent \<Rightarrow> nat" where
    "event_number Ev_Null = 0"
  | "event_number Ev_PlanProposal = 1"
  | "event_number Ev_ReserveProposal = 2"
  | "event_number Ev_DispatchProposal = 3"
  | "event_number Ev_ProposalStarted = 4"
  | "event_number Ev_ProposalFinished = 5"
  | "event_number Ev_ProposalRetry = 6"
  | "event_number Ev_ProposalFail = 7"
  | "event_number Ev_PlanVerification = 8"
  | "event_number Ev_ReserveVerification = 9"
  | "event_number Ev_DispatchVerification = 10"
  | "event_number Ev_VerificationStarted = 11"
  | "event_number Ev_VerificationFinished = 12"
  | "event_number Ev_AcceptPartial = 13"
  | "event_number Ev_AcceptFull = 14"
  | "event_number Ev_RejectAll = 15"
  | "event_number Ev_Commit = 16"
  | "event_number Ev_Rollback = 17"
  | "event_number Ev_Cancel = 18"
  | "event_number Ev_Retry = 19"
  | "event_number Ev_Supersede = 20"
  | "event_number Ev_Expire = 21"
  | "event_number Ev_Fail = 22"
  | "event_number Ev_EnterTerminal = 23"

definition kPhaseNames :: "string list" where
  "kPhaseNames = [
    ''Ready'', ''ProposalPlanned'', ''ProposalReserved'',
    ''ProposalDispatched'', ''ProposalRunning'', ''ProposalProduced'',
    ''VerificationPlanned'', ''VerificationReserved'', ''VerificationDispatched'',
    ''VerificationRunning'', ''Verified'', ''PartiallyAccepted'',
    ''FullyAccepted'', ''Rejected'', ''RolledBack'',
    ''CancelRequested'', ''Cancelled'', ''RetryPending'',
    ''Superseded'', ''Expired'', ''Failed'',
    ''Committed'', ''Terminal'']"

definition kEventNames :: "string list" where
  "kEventNames = [
    ''Null'', ''PlanProposal'', ''ReserveProposal'',
    ''DispatchProposal'', ''ProposalStarted'', ''ProposalFinished'',
    ''ProposalRetry'', ''ProposalFail'', ''PlanVerification'',
    ''ReserveVerification'', ''DispatchVerification'', ''VerificationStarted'',
    ''VerificationFinished'', ''AcceptPartial'', ''AcceptFull'',
    ''RejectAll'', ''Commit'', ''Rollback'',
    ''Cancel'', ''Retry'', ''Supersede'',
    ''Expire'', ''Fail'', ''EnterTerminal'']"

definition phase_to_string :: "SpeculativePhase \<Rightarrow> string" where
  "phase_to_string p =
     (if phase_number p < length kPhaseNames then kPhaseNames ! phase_number p else ''Unknown'')"

definition event_to_string :: "SpeculationEvent \<Rightarrow> string" where
  "event_to_string e =
     (if event_number e < length kEventNames then kEventNames ! event_number e else ''Unknown'')"

definition kTransitions :: "(SpeculativePhase \<times> SpeculationEvent \<times> SpeculativePhase) list" where
  "kTransitions = [
    (Ph_Ready, Ev_PlanProposal, Ph_ProposalPlanned),
    (Ph_ProposalPlanned, Ev_ReserveProposal, Ph_ProposalReserved),
    (Ph_ProposalReserved, Ev_DispatchProposal, Ph_ProposalDispatched),
    (Ph_ProposalDispatched, Ev_ProposalStarted, Ph_ProposalRunning),
    (Ph_ProposalRunning, Ev_ProposalFinished, Ph_ProposalProduced),
    (Ph_ProposalRunning, Ev_ProposalRetry, Ph_RetryPending),
    (Ph_ProposalRunning, Ev_ProposalFail, Ph_Failed),
    (Ph_ProposalProduced, Ev_PlanVerification, Ph_VerificationPlanned),
    (Ph_VerificationPlanned, Ev_ReserveVerification, Ph_VerificationReserved),
    (Ph_VerificationReserved, Ev_DispatchVerification, Ph_VerificationDispatched),
    (Ph_VerificationDispatched, Ev_VerificationStarted, Ph_VerificationRunning),
    (Ph_VerificationRunning, Ev_VerificationFinished, Ph_Verified),
    (Ph_Verified, Ev_AcceptPartial, Ph_PartiallyAccepted),
    (Ph_Verified, Ev_AcceptFull, Ph_FullyAccepted),
    (Ph_Verified, Ev_RejectAll, Ph_Rejected),
    (Ph_VerificationRunning, Ev_ProposalRetry, Ph_RetryPending),
    (Ph_VerificationRunning, Ev_ProposalFail, Ph_Failed),
    (Ph_FullyAccepted, Ev_Commit, Ph_Committed),
    (Ph_PartiallyAccepted, Ev_Commit, Ph_Committed),
    (Ph_PartiallyAccepted, Ev_Rollback, Ph_RolledBack),
    (Ph_Rejected, Ev_Rollback, Ph_RolledBack),
    (Ph_RolledBack, Ev_Retry, Ph_Ready),
    (Ph_RetryPending, Ev_Retry, Ph_Ready),
    (Ph_Ready, Ev_Cancel, Ph_CancelRequested),
    (Ph_ProposalPlanned, Ev_Cancel, Ph_CancelRequested),
    (Ph_ProposalReserved, Ev_Cancel, Ph_CancelRequested),
    (Ph_ProposalDispatched, Ev_Cancel, Ph_CancelRequested),
    (Ph_ProposalRunning, Ev_Cancel, Ph_CancelRequested),
    (Ph_ProposalProduced, Ev_Cancel, Ph_CancelRequested),
    (Ph_VerificationPlanned, Ev_Cancel, Ph_CancelRequested),
    (Ph_VerificationDispatched, Ev_Cancel, Ph_CancelRequested),
    (Ph_VerificationRunning, Ev_Cancel, Ph_CancelRequested),
    (Ph_CancelRequested, Ev_Expire, Ph_Cancelled),
    (Ph_Ready, Ev_Supersede, Ph_Superseded),
    (Ph_ProposalPlanned, Ev_Supersede, Ph_Superseded),
    (Ph_ProposalReserved, Ev_Supersede, Ph_Superseded),
    (Ph_ProposalDispatched, Ev_Supersede, Ph_Superseded),
    (Ph_ProposalRunning, Ev_Supersede, Ph_Superseded),
    (Ph_ProposalProduced, Ev_Supersede, Ph_Superseded),
    (Ph_VerificationPlanned, Ev_Supersede, Ph_Superseded),
    (Ph_VerificationDispatched, Ev_Supersede, Ph_Superseded),
    (Ph_VerificationRunning, Ev_Supersede, Ph_Superseded),
    (Ph_Verified, Ev_Supersede, Ph_Superseded),
    (Ph_RetryPending, Ev_Supersede, Ph_Superseded),
    (Ph_Ready, Ev_Expire, Ph_Expired),
    (Ph_ProposalPlanned, Ev_Expire, Ph_Expired),
    (Ph_ProposalReserved, Ev_Expire, Ph_Expired),
    (Ph_ProposalDispatched, Ev_Expire, Ph_Expired),
    (Ph_ProposalRunning, Ev_Expire, Ph_Expired),
    (Ph_ProposalProduced, Ev_Expire, Ph_Expired),
    (Ph_VerificationPlanned, Ev_Expire, Ph_Expired),
    (Ph_VerificationDispatched, Ev_Expire, Ph_Expired),
    (Ph_VerificationRunning, Ev_Expire, Ph_Expired),
    (Ph_RetryPending, Ev_Expire, Ph_Expired),
    (Ph_Ready, Ev_Fail, Ph_Failed),
    (Ph_ProposalPlanned, Ev_Fail, Ph_Failed),
    (Ph_ProposalReserved, Ev_Fail, Ph_Failed),
    (Ph_ProposalDispatched, Ev_Fail, Ph_Failed),
    (Ph_ProposalRunning, Ev_Fail, Ph_Failed),
    (Ph_VerificationRunning, Ev_Fail, Ph_Failed),
    (Ph_PartiallyAccepted, Ev_Fail, Ph_Failed),
    (Ph_Rejected, Ev_Fail, Ph_Failed),
    (Ph_Committed, Ev_EnterTerminal, Ph_Terminal),
    (Ph_RolledBack, Ev_EnterTerminal, Ph_Terminal),
    (Ph_Cancelled, Ev_EnterTerminal, Ph_Terminal),
    (Ph_Superseded, Ev_EnterTerminal, Ph_Terminal),
    (Ph_Expired, Ev_EnterTerminal, Ph_Terminal),
    (Ph_Failed, Ev_EnterTerminal, Ph_Terminal)]"

fun transition_search :: "(SpeculativePhase \<times> SpeculationEvent \<times> SpeculativePhase) list \<Rightarrow>
    SpeculativePhase \<Rightarrow> SpeculationEvent \<Rightarrow> SpeculativePhase option" where
  "transition_search [] p e = None"
| "transition_search ((f, ev, t) # ts) p e =
     (if f = p \<and> ev = e then Some t else transition_search ts p e)"

definition transition_target :: "SpeculativePhase \<Rightarrow> SpeculationEvent \<Rightarrow> SpeculativePhase option" where
  "transition_target p e = transition_search kTransitions p e"

definition transition_declared :: "SpeculativePhase \<Rightarrow> SpeculationEvent \<Rightarrow> bool" where
  "transition_declared p e \<longleftrightarrow> transition_target p e \<noteq> None"

definition is_terminal_phase :: "SpeculativePhase \<Rightarrow> bool" where
  "is_terminal_phase p \<longleftrightarrow>
     p = Ph_Terminal \<or> p = Ph_Committed \<or> p = Ph_Cancelled \<or> p = Ph_Expired \<or> p = Ph_Superseded \<or> p = Ph_Failed"

section \<open>The guarded machine\<close>

record SpeculativeStateMachine =
  ssm_phase :: SpeculativePhase

definition machine_at :: "SpeculativePhase \<Rightarrow> SpeculativeStateMachine" where
  "machine_at p = \<lparr>ssm_phase = p\<rparr>"

definition machine_apply_guarded :: "SpeculationEvent \<Rightarrow> bool \<Rightarrow> ErrorCode \<Rightarrow> string \<Rightarrow>
    SpeculativeStateMachine \<Rightarrow> SpeculativePhase Result \<times> SpeculativeStateMachine" where
  "machine_apply_guarded ev guard guard_error guard_message m =
     (if \<not> transition_declared (ssm_phase m) ev then
        (err (Machine EC_invalid_transition)
           (phase_to_string (ssm_phase m) @ '' --'' @ event_to_string ev @ ''--> (undeclared)''), m)
      else if \<not> guard then
        (err guard_error (''guard blocked '' @ event_to_string ev @
           (if guard_message = [] then [] else '': '' @ guard_message)), m)
      else (case transition_target (ssm_phase m) ev of
              None \<Rightarrow> (err (General EC_internal) ''declared transition resolved to null'', m)
            | Some p \<Rightarrow> (Ok p, m\<lparr>ssm_phase := p\<rparr>)))"

text \<open>\<^verbatim>\<open>apply(event)\<close> with the default arguments.\<close>

definition machine_apply :: "SpeculationEvent \<Rightarrow> SpeculativeStateMachine \<Rightarrow>
    SpeculativePhase Result \<times> SpeculativeStateMachine" where
  "machine_apply ev m = machine_apply_guarded ev True (Machine EC_invalid_transition) [] m"

text \<open>A run that ignores the results of the calls, as a caller writing \<^verbatim>\<open>(void)cycle.apply(e)\<close> does.\<close>

fun machine_run :: "SpeculationEvent list \<Rightarrow> SpeculativeStateMachine \<Rightarrow> SpeculativeStateMachine" where
  "machine_run [] m = m"
| "machine_run (e # es) m = machine_run es (snd (machine_apply e m))"

section \<open>The step relation of declared transitions\<close>

inductive phase_step :: "SpeculativePhase \<Rightarrow> SpeculativePhase \<Rightarrow> bool" where
  declared: "transition_target p e = Some q \<Longrightarrow> phase_step p q"

inductive phase_trace :: "SpeculativePhase \<Rightarrow> SpeculationEvent list \<Rightarrow> SpeculativePhase \<Rightarrow> bool" where
  trace_here: "phase_trace p [] p"
| trace_snoc: "phase_trace p es q \<Longrightarrow> transition_target q e = Some r \<Longrightarrow> phase_trace p (es @ [e]) r"

inductive_cases phase_stepE: "phase_step p q"
inductive_simps phase_trace_Nil: "phase_trace p [] q"

section \<open>Facts about the table\<close>

lemma transition_search_mem: "transition_search ts p e = Some q \<Longrightarrow> (p, e, q) \<in> set ts"
  by (induction ts p e rule: transition_search.induct) (auto split: if_splits)

lemma transition_target_mem: "transition_target p e = Some q \<Longrightarrow> (p, e, q) \<in> set kTransitions"
  unfolding transition_target_def by (rule transition_search_mem)

lemmas table_lookup = transition_target_def kTransitions_def

lemma into_Committed:
  "transition_target p e = Some Ph_Committed \<Longrightarrow> e = Ev_Commit \<and> (p = Ph_FullyAccepted \<or> p = Ph_PartiallyAccepted)"
  by (drule transition_target_mem) (auto simp: kTransitions_def)

lemma into_FullyAccepted:
  "transition_target p e = Some Ph_FullyAccepted \<Longrightarrow> p = Ph_Verified \<and> e = Ev_AcceptFull"
  by (drule transition_target_mem) (auto simp: kTransitions_def)

lemma into_PartiallyAccepted:
  "transition_target p e = Some Ph_PartiallyAccepted \<Longrightarrow> p = Ph_Verified \<and> e = Ev_AcceptPartial"
  by (drule transition_target_mem) (auto simp: kTransitions_def)

lemma into_Verified:
  "transition_target p e = Some Ph_Verified \<Longrightarrow> p = Ph_VerificationRunning \<and> e = Ev_VerificationFinished"
  by (drule transition_target_mem) (auto simp: kTransitions_def)

lemma from_terminal:
  "is_terminal_phase p \<Longrightarrow> transition_target p e = Some q \<Longrightarrow> p \<noteq> Ph_Terminal \<and> e = Ev_EnterTerminal \<and> q = Ph_Terminal"
  by (drule transition_target_mem) (auto simp: kTransitions_def is_terminal_phase_def)

lemma machine_apply_simps:
  "machine_apply e m = (case transition_target (ssm_phase m) e of
     None \<Rightarrow> (err (Machine EC_invalid_transition)
               (phase_to_string (ssm_phase m) @ '' --'' @ event_to_string e @ ''--> (undeclared)''), m)
   | Some p \<Rightarrow> (Ok p, m\<lparr>ssm_phase := p\<rparr>))"
  by (auto simp: machine_apply_def machine_apply_guarded_def transition_declared_def split: option.splits)

lemma machine_apply_phase:
  "ssm_phase (snd (machine_apply e m)) = (case transition_target (ssm_phase m) e of None \<Rightarrow> ssm_phase m | Some p \<Rightarrow> p)"
  by (auto simp: machine_apply_simps split: option.splits)

lemma phase_trace_pred:
  assumes "phase_trace p es q" and "p \<noteq> q"
  obtains es' e r where "es = es' @ [e]" "phase_trace p es' r" "transition_target r e = Some q"
  using assms by (cases rule: phase_trace.cases) auto

section \<open>Properties\<close>

text \<open>
  C34 (commit_needs_verdict): every sequence of declared transitions from Ready to Committed ends with
  a finished verification, then an acceptance, then the commit: no commit is declared without
  a verdict.
\<close>

theorem commit_needs_verdict:
  assumes "phase_trace Ph_Ready es Ph_Committed"
  shows "\<exists>pre acc. es = pre @ [Ev_VerificationFinished, acc, Ev_Commit] \<and>
    (acc = Ev_AcceptFull \<or> acc = Ev_AcceptPartial) \<and> phase_trace Ph_Ready pre Ph_VerificationRunning"
proof -
  from assms obtain es1 e1 p1 where 1: "es = es1 @ [e1]" "phase_trace Ph_Ready es1 p1" "transition_target p1 e1 = Some Ph_Committed"
    by (rule phase_trace_pred) auto
  have p1: "e1 = Ev_Commit" "p1 = Ph_FullyAccepted \<or> p1 = Ph_PartiallyAccepted" using into_Committed [OF 1(3)] by auto
  have "Ph_Ready \<noteq> p1" using p1(2) by auto
  with 1(2) obtain es2 e2 p2 where 2: "es1 = es2 @ [e2]" "phase_trace Ph_Ready es2 p2" "transition_target p2 e2 = Some p1"
    by (rule phase_trace_pred)
  have p2: "p2 = Ph_Verified" "e2 = Ev_AcceptFull \<or> e2 = Ev_AcceptPartial"
    using p1(2) 2(3) into_FullyAccepted into_PartiallyAccepted by metis+
  from 2(2) p2(1) obtain es3 e3 p3 where 3: "es2 = es3 @ [e3]" "phase_trace Ph_Ready es3 p3" "transition_target p3 e3 = Some Ph_Verified"
    using phase_trace_pred [of Ph_Ready es2 Ph_Verified] by auto
  with into_Verified [OF 3(3)] 1 2 p1 p2 show ?thesis by auto
qed

lemma phase_trace_Cons:
  assumes "transition_target p e = Some q" and "phase_trace q es r" shows "phase_trace p (e # es) r"
  using assms(2,1)
proof (induction rule: phase_trace.induct)
  case (trace_here q)
  with phase_trace.trace_snoc [OF phase_trace.trace_here] show ?case by fastforce
next
  case (trace_snoc q es q' e' r)
  with phase_trace.trace_snoc [of p "e # es"] show ?case by simp
qed

lemma full_accept_trace:
  "phase_trace Ph_Ready [Ev_PlanProposal, Ev_ReserveProposal, Ev_DispatchProposal, Ev_ProposalStarted,
     Ev_ProposalFinished, Ev_PlanVerification, Ev_ReserveVerification, Ev_DispatchVerification,
     Ev_VerificationStarted, Ev_VerificationFinished, Ev_AcceptFull, Ev_Commit] Ph_Committed"
  by (rule phase_trace_Cons, simp add: table_lookup)+ (rule trace_here)

theorem commit_needs_verdict_witness:
  "\<exists>pre acc. [Ev_PlanProposal, Ev_ReserveProposal, Ev_DispatchProposal, Ev_ProposalStarted,
     Ev_ProposalFinished, Ev_PlanVerification, Ev_ReserveVerification, Ev_DispatchVerification,
     Ev_VerificationStarted, Ev_VerificationFinished, Ev_AcceptFull, Ev_Commit] =
     pre @ [Ev_VerificationFinished, acc, Ev_Commit]"
  using commit_needs_verdict [OF full_accept_trace] by blast

lemma terminal_step:
  "is_terminal_phase p \<Longrightarrow> phase_step p q \<longleftrightarrow> p \<noteq> Ph_Terminal \<and> q = Ph_Terminal"
proof
  assume t: "is_terminal_phase p"
  show "phase_step p q \<Longrightarrow> p \<noteq> Ph_Terminal \<and> q = Ph_Terminal"
    using from_terminal [OF t] by (auto elim: phase_stepE)
  show "p \<noteq> Ph_Terminal \<and> q = Ph_Terminal \<Longrightarrow> phase_step p q"
    using t by (intro phase_step.declared [of p Ev_EnterTerminal]) (auto simp: is_terminal_phase_def table_lookup)
qed

lemma step_back: "transition_target p e = Some q \<Longrightarrow> phase_step\<^sup>*\<^sup>* q r \<Longrightarrow> phase_step\<^sup>*\<^sup>* p r"
  by (meson converse_rtranclp_into_rtranclp phase_step.declared)

lemma reaches_Terminal: "phase_step\<^sup>*\<^sup>* p Ph_Terminal"
proof -
  have failed: "phase_step\<^sup>*\<^sup>* Ph_Failed Ph_Terminal"
    by (rule step_back [of _ Ev_EnterTerminal Ph_Terminal]) (simp_all add: table_lookup)
  have super: "phase_step\<^sup>*\<^sup>* Ph_Superseded Ph_Terminal"
    by (rule step_back [of _ Ev_EnterTerminal Ph_Terminal]) (simp_all add: table_lookup)
  have dispatched: "phase_step\<^sup>*\<^sup>* Ph_VerificationDispatched Ph_Terminal"
    by (rule step_back [of _ Ev_Supersede Ph_Superseded]) (simp_all add: table_lookup super)
  have reserved: "phase_step\<^sup>*\<^sup>* Ph_VerificationReserved Ph_Terminal"
    by (rule step_back [of _ Ev_DispatchVerification Ph_VerificationDispatched]) (simp_all add: table_lookup dispatched)
  have committed: "phase_step\<^sup>*\<^sup>* Ph_Committed Ph_Terminal"
    by (rule step_back [of _ Ev_EnterTerminal Ph_Terminal]) (simp_all add: table_lookup)
  have full: "phase_step\<^sup>*\<^sup>* Ph_FullyAccepted Ph_Terminal"
    by (rule step_back [of _ Ev_Commit Ph_Committed]) (simp_all add: table_lookup committed)
  have cancelled: "phase_step\<^sup>*\<^sup>* Ph_Cancelled Ph_Terminal" "phase_step\<^sup>*\<^sup>* Ph_Expired Ph_Terminal"
    "phase_step\<^sup>*\<^sup>* Ph_RolledBack Ph_Terminal"
    by (rule step_back [of _ Ev_EnterTerminal Ph_Terminal]; simp add: table_lookup)+
  have requested: "phase_step\<^sup>*\<^sup>* Ph_CancelRequested Ph_Terminal"
    by (rule step_back [of _ Ev_Expire Ph_Cancelled]) (simp_all add: table_lookup cancelled)
  have by_super: "transition_target p Ev_Supersede = Some Ph_Superseded \<Longrightarrow> phase_step\<^sup>*\<^sup>* p Ph_Terminal" for p
    by (rule step_back [OF _ super])
  have by_fail: "transition_target p Ev_Fail = Some Ph_Failed \<Longrightarrow> phase_step\<^sup>*\<^sup>* p Ph_Terminal" for p
    by (rule step_back [OF _ failed])
  show ?thesis
    by (cases p) (simp_all add: failed super dispatched reserved committed full cancelled requested by_super by_fail table_lookup)
qed

text \<open>
  From every phase some sequence of declared transitions leads to
  Terminal; a phase classified terminal has no transition except the one into Terminal, and
  Terminal has none.
\<close>

lemma terminal_always_reachable:
  "phase_step\<^sup>*\<^sup>* p Ph_Terminal \<and> (is_terminal_phase p \<longrightarrow> (\<forall>q. phase_step p q \<longleftrightarrow> p \<noteq> Ph_Terminal \<and> q = Ph_Terminal))"
  using reaches_Terminal terminal_step by blast

text \<open>
  Applying an event succeeds exactly when the transition is declared and the
  guard holds, and then the machine is in the declared target; otherwise an error is returned and
  the phase is unchanged.
\<close>

lemma apply_guarded:
  "case machine_apply_guarded ev guard code msg m of
     (Ok p, m') \<Rightarrow> guard \<and> transition_target (ssm_phase m) ev = Some p \<and> ssm_phase m' = p
   | (Err e, m') \<Rightarrow> m' = m \<and> (if transition_declared (ssm_phase m) ev then \<not> guard \<and> err_code e = code
                             else err_code e = Machine EC_invalid_transition)"
  by (auto simp: machine_apply_guarded_def transition_declared_def split: option.splits)

end
