(* ===== verification/SF_Float.thy ===== *)
theory SF_Float
  imports Complex_Main "HOL-Library.Log_Nat" SF_Prelude
begin

text \<open>
  The doubles of the scheduler and of the acceptance statistics. A finite IEEE binary64 value is
  its exact rational value, and every arithmetic operation of the source is the exact rational
  operation followed by \<open>fl\<close>, rounding to 53 significant bits, ties to even. The quantities that
  occur are ratios of counters and products of them with depths below \<open>2^32\<close>, so neither
  overflow nor the subnormal range is met; NaN and infinities are outside the model. The locale
  \<open>rounding\<close> states what the policy code relies on, and \<open>fl\<close> is its interpretation.
\<close>

type_synonym double = rat

section \<open>Rounding to nearest, ties to even\<close>

definition binary_exponent :: "rat \<Rightarrow> int" where
  "binary_exponent x =
     (let (p, q) = quotient_of \<bar>x\<bar>; k = bitlen p - bitlen q
      in if 2 powi k \<le> \<bar>x\<bar> then k else k - 1)"

definition round_even :: "rat \<Rightarrow> int" where
  "round_even y =
     (let f = \<lfloor>y\<rfloor>; d = y - of_int f
      in if d < 1 / 2 then f else if 1 / 2 < d then f + 1 else if even f then f else f + 1)"

definition fl :: "rat \<Rightarrow> double" where
  "fl x = (if x = 0 then 0 else (let u = 2 powi (binary_exponent x - 52) in of_int (round_even (x / u)) * u))"

text \<open>\<^verbatim>\<open>std::llround\<close>: ties away from zero.\<close>

definition llround :: "double \<Rightarrow> int" where
  "llround x = (if 0 \<le> x then \<lfloor>x + 1 / 2\<rfloor> else - \<lfloor>1 / 2 - x\<rfloor>)"

section \<open>The rounding contract and its consequences\<close>

locale rounding =
  fixes rnd :: "rat \<Rightarrow> rat"
  assumes rnd_nat: "n \<le> 2 ^ 53 \<Longrightarrow> rnd (of_nat n) = of_nat n"
    and rnd_mono: "0 \<le> x \<Longrightarrow> x \<le> y \<Longrightarrow> rnd x \<le> rnd y"
begin

lemma rnd_0 [simp]: "rnd 0 = 0"
  using rnd_nat [of 0] by simp

lemma rnd_1 [simp]: "rnd 1 = 1"
  using rnd_nat [of 1] by simp

lemma rnd_nonneg: "0 \<le> x \<Longrightarrow> 0 \<le> rnd x"
  using rnd_mono [of 0 x] by simp

lemma rnd_le_nat: "0 \<le> x \<Longrightarrow> x \<le> of_nat n \<Longrightarrow> n \<le> 2 ^ 53 \<Longrightarrow> rnd x \<le> of_nat n"
  using rnd_mono [of x "of_nat n"] rnd_nat [of n] by simp

lemma rnd_le_1: "0 \<le> x \<Longrightarrow> x \<le> 1 \<Longrightarrow> rnd x \<le> 1"
  using rnd_le_nat [of x 1] by simp

lemma sum_bounds:
  assumes "\<forall>v\<in>set vs. 0 \<le> v \<and> v \<le> 1" and "m + length vs \<le> 2 ^ 53" and "0 \<le> s" and "s \<le> of_nat m"
  shows "0 \<le> foldl (\<lambda>s v. rnd (s + v)) s vs \<and> foldl (\<lambda>s v. rnd (s + v)) s vs \<le> of_nat (m + length vs)"
  using assms
proof (induction vs arbitrary: s m)
  case (Cons v vs)
  then have "0 \<le> s + v" "s + v \<le> of_nat (Suc m)" "Suc m \<le> 2 ^ 53" by auto
  then have "0 \<le> rnd (s + v)" "rnd (s + v) \<le> of_nat (Suc m)"
    using rnd_nonneg rnd_le_nat by blast+
  with Cons.IH [of "Suc m" "rnd (s + v)"] Cons.prems show ?case by simp
qed simp

lemma sum_ones: "m + n \<le> 2 ^ 53 \<Longrightarrow> foldl (\<lambda>s v. rnd (s + v)) (of_nat m) (replicate n 1) = of_nat (m + n)"
proof (induction n arbitrary: m)
  case (Suc n)
  then have "rnd (of_nat m + 1) = of_nat (Suc m)" using rnd_nat [of "Suc m"] by (simp add: add.commute)
  with Suc.IH [of "Suc m"] Suc.prems show ?case by simp
qed simp

lemma sum_mono:
  assumes "list_all2 (\<le>) vs ws" and "0 \<le> s" and "s \<le> t" and "\<forall>v\<in>set vs. 0 \<le> v"
  shows "foldl (\<lambda>s v. rnd (s + v)) s vs \<le> foldl (\<lambda>s v. rnd (s + v)) t ws"
  using assms
proof (induction vs ws arbitrary: s t rule: list_all2_induct)
  case (Cons v vs w ws)
  then have "0 \<le> rnd (s + v)" "rnd (s + v) \<le> rnd (t + w)"
    by (auto intro!: rnd_nonneg rnd_mono)
  with Cons show ?case by simp
qed simp

end

section \<open>fl satisfies the contract\<close>

lemma bitlen_powi:
  assumes "0 < p"
  shows "2 powi (bitlen p - 1) \<le> (of_int p :: rat)" and "(of_int p :: rat) < 2 powi bitlen p"
proof -
  from assms have "bitlen p \<noteq> 0" by (simp add: bitlen_eq_zero_iff)
  with bitlen_nonneg [of p] have b: "1 \<le> bitlen p" by linarith
  have "of_int (2 ^ nat (bitlen p - 1)) \<le> (of_int p :: rat)" and "(of_int p :: rat) < of_int (2 ^ nat (bitlen p))"
    using bitlen_bounds [OF assms] by (simp_all only: of_int_le_iff of_int_less_iff)
  with b show "2 powi (bitlen p - 1) \<le> (of_int p :: rat)" and "(of_int p :: rat) < 2 powi bitlen p"
    by (simp_all add: power_int_def)
qed

lemma binary_exponent_bounds:
  assumes "x \<noteq> 0"
  shows "2 powi binary_exponent x \<le> \<bar>x\<bar>" and "\<bar>x\<bar> < 2 powi (binary_exponent x + 1)"
proof -
  obtain p q where pq: "quotient_of \<bar>x\<bar> = (p, q)" by fastforce
  have q: "q > 0" using pq by (rule quotient_of_denom_pos)
  have x: "\<bar>x\<bar> = of_int p / of_int q" using pq by (rule quotient_of_div)
  have "0 < \<bar>x\<bar>" using assms by simp
  with x q have p: "p > 0" by (simp add: zero_less_divide_iff)
  let ?k = "bitlen p - bitlen q"
  have "\<bar>x\<bar> < 2 powi bitlen p / 2 powi (bitlen q - 1)"
    unfolding x using bitlen_powi [OF p] bitlen_powi [OF q] p by (intro frac_less) simp_all
  then have hi: "\<bar>x\<bar> < 2 powi (?k + 1)" by (simp add: power_int_diff [symmetric] algebra_simps)
  have "2 powi (bitlen p - 1) / 2 powi bitlen q < \<bar>x\<bar>"
    unfolding x using bitlen_powi [OF p] bitlen_powi [OF q] q by (intro frac_less2) simp_all
  then have lo: "2 powi (?k - 1) \<le> \<bar>x\<bar>" by (simp add: power_int_diff [symmetric] algebra_simps)
  have e: "binary_exponent x = (if 2 powi ?k \<le> \<bar>x\<bar> then ?k else ?k - 1)"
    by (simp add: binary_exponent_def pq Let_def)
  show "2 powi binary_exponent x \<le> \<bar>x\<bar>" "\<bar>x\<bar> < 2 powi (binary_exponent x + 1)"
    using hi lo by (simp_all add: e)
qed

lemma binary_exponent_mono:
  assumes "0 < x" and "x \<le> y"
  shows "binary_exponent x \<le> binary_exponent y"
proof (rule ccontr)
  assume "\<not> binary_exponent x \<le> binary_exponent y"
  then have "(2::rat) powi (binary_exponent y + 1) \<le> 2 powi binary_exponent x"
    by (intro power_int_increasing) simp_all
  moreover have "2 powi binary_exponent x \<le> x" "y < 2 powi (binary_exponent y + 1)"
    using binary_exponent_bounds(1) [of x] binary_exponent_bounds(2) [of y] assms by simp_all
  ultimately show False using assms(2) by linarith
qed

lemma round_even_int [simp]: "round_even (of_int n) = n"
  by (simp add: round_even_def)

lemma round_even_mono: "y \<le> z \<Longrightarrow> round_even y \<le> round_even z"
proof -
  assume le: "y \<le> z"
  then have "\<lfloor>y\<rfloor> \<le> \<lfloor>z\<rfloor>" by (rule floor_mono)
  then consider "\<lfloor>y\<rfloor> = \<lfloor>z\<rfloor>" | "\<lfloor>y\<rfloor> + 1 \<le> \<lfloor>z\<rfloor>" by linarith
  then show ?thesis
  proof cases
    case 1
    with le show ?thesis by (auto simp: round_even_def Let_def)
  next
    case 2
    then show ?thesis by (auto simp: round_even_def Let_def)
  qed
qed

lemma fl_scaled:
  assumes "x \<noteq> 0"
  shows "fl x = of_int (round_even (x / 2 powi (binary_exponent x - 52))) * 2 powi (binary_exponent x - 52)"
  using assms by (simp add: fl_def Let_def)

lemma fl_bounds:
  assumes "0 < x"
  shows "2 powi binary_exponent x \<le> fl x" and "fl x \<le> 2 powi (binary_exponent x + 1)"
proof -
  let ?e = "binary_exponent x" and ?u = "(2::rat) powi (binary_exponent x - 52)"
  have u: "0 < ?u" by simp
  have eq: "2 powi ?e = of_int (2 ^ 52) * ?u" "2 powi (?e + 1) = of_int (2 ^ 53) * ?u"
    by (simp_all add: power_int_diff power_int_add)
  from assms have "of_int (2 ^ 52) * ?u \<le> x" "x \<le> of_int (2 ^ 53) * ?u"
    using binary_exponent_bounds [of x] by (simp_all only: eq [symmetric]) simp_all
  with u have "of_int (2 ^ 52) \<le> x / ?u" "x / ?u \<le> of_int (2 ^ 53)"
    by (simp_all only: pos_le_divide_eq pos_divide_le_eq)
  then have "2 ^ 52 \<le> round_even (x / ?u)" "round_even (x / ?u) \<le> 2 ^ 53"
    using round_even_mono round_even_int by metis+
  then have "(of_int (2 ^ 52) :: rat) \<le> of_int (round_even (x / ?u))"
      "of_int (round_even (x / ?u)) \<le> (of_int (2 ^ 53) :: rat)"
    by (simp_all only: of_int_le_iff)
  then have "of_int (2 ^ 52) * ?u \<le> of_int (round_even (x / ?u)) * ?u"
      "of_int (round_even (x / ?u)) * ?u \<le> of_int (2 ^ 53) * ?u"
    using u by (simp_all only: mult_right_mono less_imp_le)
  moreover have "fl x = of_int (round_even (x / ?u)) * ?u" using assms by (intro fl_scaled) simp
  ultimately show "2 powi ?e \<le> fl x" "fl x \<le> 2 powi (?e + 1)"
    by (simp_all only: eq)
qed

lemma fl_mono: "0 \<le> x \<Longrightarrow> x \<le> y \<Longrightarrow> fl x \<le> fl y"
proof (cases "x = 0")
  case True
  assume "x \<le> y"
  with True show ?thesis
    using fl_bounds(1) [of y] by (cases "y = 0") (simp_all add: fl_def order_trans [rotated])
next
  case False
  assume "0 \<le> x" "x \<le> y"
  with False have x: "0 < x" and y: "0 < y" by simp_all
  from binary_exponent_mono [OF x \<open>x \<le> y\<close>] consider
    "binary_exponent x = binary_exponent y" | "binary_exponent x + 1 \<le> binary_exponent y" by linarith
  then show ?thesis
  proof cases
    case 1
    let ?u = "(2::rat) powi (binary_exponent y - 52)"
    have "x / ?u \<le> y / ?u" using \<open>x \<le> y\<close> by (simp add: divide_right_mono)
    then have "(of_int (round_even (x / ?u)) :: rat) \<le> of_int (round_even (y / ?u))"
      by (simp only: of_int_le_iff round_even_mono)
    with 1 x y show ?thesis by (simp add: fl_scaled)
  next
    case 2
    have "fl x \<le> 2 powi (binary_exponent x + 1)" by (rule fl_bounds) (rule x)
    also have "\<dots> \<le> 2 powi binary_exponent y" using 2 by (intro power_int_increasing) simp_all
    also have "\<dots> \<le> fl y" by (rule fl_bounds) (rule y)
    finally show ?thesis .
  qed
qed

lemma fl_nat: "n \<le> 2 ^ 53 \<Longrightarrow> fl (of_nat n) = of_nat n"
proof (cases "n = 0")
  case False
  assume n: "n \<le> 2 ^ 53"
  let ?e = "binary_exponent (of_nat n)"
  show ?thesis
  proof (cases "?e \<le> 52")
    case True
    have "(of_nat n :: rat) / 2 powi (?e - 52) = of_nat n * 2 powi (52 - ?e)"
      by (simp add: power_int_diff field_simps)
    also have "\<dots> = of_int (int n * 2 ^ nat (52 - ?e))"
      using True by (simp add: power_int_def)
    finally have "of_int (round_even (of_nat n / 2 powi (?e - 52))) = (of_nat n :: rat) / 2 powi (?e - 52)"
      by (simp only: round_even_int)
    with False show ?thesis by (simp add: fl_scaled)
  next
    case False
    have "(2::rat) powi ?e \<le> of_nat n" using binary_exponent_bounds(1) [of "of_nat n"] \<open>n \<noteq> 0\<close> by simp
    moreover have "(2::rat) powi 53 \<le> 2 powi ?e" using False by (intro power_int_increasing) simp_all
    moreover have "(2::rat) powi 53 = of_nat (2 ^ 53)" by (simp add: power_int_def)
    ultimately have "(of_nat (2 ^ 53) :: rat) \<le> of_nat n" by linarith
    with n have eq: "n = 2 ^ 53" by (simp only: of_nat_le_iff)
    with \<open>(2::rat) powi ?e \<le> of_nat n\<close> have "(2::rat) powi ?e \<le> 2 powi 53" by (simp add: power_int_def)
    then have "?e \<le> 53" by (rule power_int_le_imp_le_exp [rotated]) simp_all
    with False have e: "?e - 52 = 1" by linarith
    have "(of_nat n :: rat) / 2 = of_int (2 ^ 52)" by (simp add: eq)
    then have "of_int (round_even (of_nat n / 2)) = (of_nat n :: rat) / 2" by (simp only: round_even_int)
    then show ?thesis using \<open>n \<noteq> 0\<close> by (simp add: fl_scaled e)
  qed
qed (simp add: fl_def)

interpretation binary64: rounding fl
  by unfold_locales (rule fl_nat, assumption, rule fl_mono)

end
