(* ===== verification/SF_Id.thy ===== *)
theory SF_Id
  imports SF_Prelude
begin

text \<open>
  Strong identifiers (\<^verbatim>\<open>include/speculation_fabric/core/id.hpp\<close>). \<^verbatim>\<open>StrongId<Tag, T>\<close> is a
  phantom type over 64-bit values, so identifiers of different kinds have different types here
  too; its order is the order of the value, which makes identifiers usable as keys of the ordered
  maps of the prelude. \<^verbatim>\<open>IdFactory\<close> hands out a counter that skips the null identifier.
\<close>

section \<open>StrongId\<close>

datatype 'tag StrongId = StrongId (id_get: u64)

definition null_id :: "'tag StrongId" where
  "null_id = StrongId 0"

definition is_null :: "'tag StrongId \<Rightarrow> bool" where
  "is_null i \<longleftrightarrow> id_get i = 0"

definition id_str :: "'tag StrongId \<Rightarrow> string" where
  "id_str i = word_string (id_get i)"

instantiation StrongId :: (type) linorder
begin

definition less_eq_StrongId :: "'a StrongId \<Rightarrow> 'a StrongId \<Rightarrow> bool" where
  "less_eq_StrongId a b \<longleftrightarrow> id_get a \<le> id_get b"

definition less_StrongId :: "'a StrongId \<Rightarrow> 'a StrongId \<Rightarrow> bool" where
  "less_StrongId a b \<longleftrightarrow> id_get a < id_get b"

instance
  by standard (auto simp: less_eq_StrongId_def less_StrongId_def StrongId.expand)

end

text \<open>The tag types; a tag has no operations, so a one-element type serves.\<close>

datatype RequestIdTag = RequestIdTag
datatype SequenceIdTag = SequenceIdTag
datatype AttemptIdTag = AttemptIdTag
datatype ProposalIdTag = ProposalIdTag
datatype BranchIdTag = BranchIdTag
datatype WorkerIdTag = WorkerIdTag
datatype WorkerBootIdTag = WorkerBootIdTag
datatype DispatchIdTag = DispatchIdTag
datatype TenantIdTag = TenantIdTag
datatype AdapterIdTag = AdapterIdTag
datatype ModelIdTag = ModelIdTag
datatype RevisionTag = RevisionTag
datatype TokenizerIdTag = TokenizerIdTag
datatype ExecutorIdTag = ExecutorIdTag
datatype DeviceIdTag = DeviceIdTag
datatype ReservationIdTag = ReservationIdTag
datatype StateIdTag = StateIdTag
datatype EventIdTag = EventIdTag
datatype ProposalGenTag = ProposalGenTag
datatype AuthGenTag = AuthGenTag
datatype StateGenTag = StateGenTag
datatype EpochTag = EpochTag
datatype CycleIdTag = CycleIdTag
datatype ClientIdTag = ClientIdTag

type_synonym RequestId = "RequestIdTag StrongId"
type_synonym SequenceId = "SequenceIdTag StrongId"
type_synonym AttemptId = "AttemptIdTag StrongId"
type_synonym ProposalId = "ProposalIdTag StrongId"
type_synonym BranchId = "BranchIdTag StrongId"
type_synonym WorkerId = "WorkerIdTag StrongId"
type_synonym WorkerBootId = "WorkerBootIdTag StrongId"
type_synonym DispatchId = "DispatchIdTag StrongId"
type_synonym TenantId = "TenantIdTag StrongId"
type_synonym AdapterId = "AdapterIdTag StrongId"
type_synonym ModelId = "ModelIdTag StrongId"
type_synonym Revision = "RevisionTag StrongId"
type_synonym TokenizerId = "TokenizerIdTag StrongId"
type_synonym ExecutorId = "ExecutorIdTag StrongId"
type_synonym DeviceId = "DeviceIdTag StrongId"
type_synonym ReservationId = "ReservationIdTag StrongId"
type_synonym StateId = "StateIdTag StrongId"
type_synonym EventId = "EventIdTag StrongId"
type_synonym ProposalGeneration = "ProposalGenTag StrongId"
type_synonym AuthGeneration = "AuthGenTag StrongId"
type_synonym StateGeneration = "StateGenTag StrongId"
type_synonym CoordinatorEpoch = "EpochTag StrongId"
type_synonym CycleId = "CycleIdTag StrongId"
type_synonym ClientId = "ClientIdTag StrongId"
type_synonym TokenId = u32

section \<open>IdFactory\<close>

record IdFactory =
  fac_next :: u64

definition IdFactory_new :: "IdFactory" where
  "IdFactory_new = \<lparr>fac_next = 1\<rparr>"

definition IdFactory_start :: "u64 \<Rightarrow> IdFactory" where
  "IdFactory_start s = \<lparr>fac_next = (if s = 0 then 1 else s)\<rparr>"

definition factory_peek :: "IdFactory \<Rightarrow> 'tag StrongId" where
  "factory_peek f = StrongId (fac_next f)"

text \<open>\<^verbatim>\<open>fetch_add\<close> returns the old value and stores the successor.\<close>

definition fetch_add :: "IdFactory \<Rightarrow> u64 \<times> IdFactory" where
  "fetch_add f = (fac_next f, \<lparr>fac_next = fac_next f + 1\<rparr>)"

definition factory_next :: "IdFactory \<Rightarrow> 'tag StrongId \<times> IdFactory" where
  "factory_next f =
     (let (v, f1) = fetch_add f
      in if v = 0 then (let (v', f2) = fetch_add f1 in (StrongId v', f2)) else (StrongId v, f1))"

fun factory_take :: "nat \<Rightarrow> IdFactory \<Rightarrow> 'tag StrongId list" where
  "factory_take 0 f = []"
| "factory_take (Suc n) f = (let (i, f') = factory_next f in i # factory_take n f')"

section \<open>Facts\<close>

lemma null_id_is_null [simp]: "is_null null_id" "is_null i \<longleftrightarrow> i = null_id"
  by (auto simp: is_null_def null_id_def StrongId.expand)

lemma id_get_null [simp]: "id_get null_id = 0"
  by (simp add: null_id_def)

lemma id_str_inject [simp]: "id_str i = id_str j \<longleftrightarrow> i = j"
  by (auto simp: id_str_def StrongId.expand)

lemma factory_next_not_null: "fst (factory_next f) \<noteq> null_id"
  by (auto simp: factory_next_def fetch_add_def null_id_def Let_def split: prod.splits)

lemma factory_take_values:
  fixes f :: "IdFactory"
  assumes "fac_next f \<noteq> 0" and "unat (fac_next f) + n \<le> 2 ^ 64"
  shows "map (\<lambda>i. unat (id_get i)) (factory_take n f :: 'tag StrongId list) = [unat (fac_next f)..<unat (fac_next f) + n]"
  using assms
proof (induction n arbitrary: f)
  case (Suc n)
  let ?f' = "\<lparr>fac_next = fac_next f + 1\<rparr> :: IdFactory"
  have next_f: "factory_next f = (StrongId (fac_next f) :: 'tag StrongId, ?f')"
    using Suc.prems(1) by (simp add: factory_next_def fetch_add_def)
  show ?case
  proof (cases n)
    case 0
    then show ?thesis by (simp add: next_f)
  next
    case (Suc m)
    with Suc.prems have "unat (fac_next f) + 1 < 2 ^ LENGTH(64)" by simp
    then have u: "unat (fac_next f + 1) = unat (fac_next f) + 1"
      by (subst unat_add_lem [THEN iffD1]) simp_all
    then have "fac_next f + 1 \<noteq> 0" by (metis Suc_eq_plus1 nat.simps(3) unat_0)
    with Suc.IH [of ?f'] Suc.prems u have
      "map (\<lambda>i. unat (id_get i)) (factory_take n ?f' :: 'tag StrongId list) = [Suc (unat (fac_next f))..<unat (fac_next f) + Suc n]"
      by simp
    then show ?thesis by (simp add: next_f upt_conv_Cons [of "unat (fac_next f)"])
  qed
qed simp

section \<open>Properties\<close>

text \<open>
  The identifiers a factory hands out are never null, and as long as the
  64-bit counter does not wrap, any number of them are pairwise distinct and strictly increasing.
\<close>

lemma factory_ids_fresh:
  assumes "fac_next f \<noteq> 0" and "unat (fac_next f) + n \<le> 2 ^ 64"
  shows "sorted_wrt (<) (factory_take n f :: 'tag StrongId list) \<and>
    distinct (factory_take n f :: 'tag StrongId list) \<and> null_id \<notin> set (factory_take n f :: 'tag StrongId list)"
proof -
  let ?ids = "factory_take n f :: 'tag StrongId list"
  have v: "map (\<lambda>i. unat (id_get i)) ?ids = [unat (fac_next f)..<unat (fac_next f) + n]"
    using factory_take_values [OF assms] .
  have "sorted_wrt (<) (map (\<lambda>i. unat (id_get i)) ?ids)" unfolding v by simp
  then have "sorted_wrt (\<lambda>i j. unat (id_get i) < unat (id_get j)) ?ids" by (simp add: sorted_wrt_map)
  then have s: "sorted_wrt (<) ?ids"
    by (rule sorted_wrt_mono_rel [rotated]) (simp add: less_StrongId_def word_less_nat_alt)
  moreover from s have "distinct ?ids" by (simp add: strict_sorted_iff)
  moreover have "null_id \<notin> set ?ids"
  proof
    assume "null_id \<in> set ?ids"
    then have "unat (id_get (null_id :: 'tag StrongId)) \<in> set (map (\<lambda>i. unat (id_get i)) ?ids)" by force
    with assms(1) show False unfolding v by (simp add: unat_eq_0)
  qed
  ultimately show ?thesis by blast
qed

lemma factory_ids_fresh_example:
  "distinct (factory_take 3 IdFactory_new :: RequestId list) \<and> factory_take 3 IdFactory_new = [StrongId 1, StrongId 2, StrongId 3 :: RequestId]"
  using factory_ids_fresh [of IdFactory_new 3, where ?'tag = RequestIdTag]
  by (simp add: IdFactory_new_def numeral_3_eq_3 factory_next_def fetch_add_def)

end
