(* ===== verification/SF_Policy.thy ===== *)
theory SF_Policy
  imports SF_Float SF_Id
begin

text \<open>
  Policy, adaptive depth and fairness accounting (\<^verbatim>\<open>policy.hpp\<close>, \<^verbatim>\<open>src/core/policy.cpp\<close>).
  \<open>choose_depth\<close> follows \<^verbatim>\<open>AdaptiveDepth::choose_depth\<close> operation by operation over the
  rounded doubles of the previous theory; \<^verbatim>\<open>std::clamp\<close> with an upper bound below the lower one
  is undefined and yields \<open>None\<close>.
\<close>

section \<open>Policy data\<close>

datatype LatencyClass = LC_Interactive | LC_Balanced | LC_Throughput

record ProposalPolicy =
  pol_max_depth :: u32
  pol_max_branches :: u32
  pol_max_candidate_tokens_per_proposal :: u32
  pol_max_concurrent_proposals_per_sequence :: u32
  pol_max_proposer_compute_budget :: u64
  pol_max_proposer_memory_budget :: u64
  pol_max_outstanding_speculative_work :: u32
  pol_max_speculative_delay_ns :: u64
  pol_latency_class :: LatencyClass
  pol_speculating_enabled :: bool
  pol_tenant_max_speculative_budget_ns :: u64
  pol_tenant_max_concurrent_branches :: u32
  pol_min_economic_acceptance_ratio :: double
  pol_adaptive_window :: u32
  pol_adaptive_depth_enabled :: bool

definition default_ProposalPolicy :: ProposalPolicy where
  "default_ProposalPolicy = \<lparr>pol_max_depth = 4, pol_max_branches = 1,
     pol_max_candidate_tokens_per_proposal = 64, pol_max_concurrent_proposals_per_sequence = 2,
     pol_max_proposer_compute_budget = 0, pol_max_proposer_memory_budget = 0,
     pol_max_outstanding_speculative_work = 8, pol_max_speculative_delay_ns = 1000000000,
     pol_latency_class = LC_Balanced, pol_speculating_enabled = True,
     pol_tenant_max_speculative_budget_ns = 0, pol_tenant_max_concurrent_branches = 0,
     pol_min_economic_acceptance_ratio = 0, pol_adaptive_window = 32, pol_adaptive_depth_enabled = True\<rparr>"

datatype BackpressureReason = BP_None | BP_ProposerCapacity | BP_VerifierCapacity | BP_BranchLimit
  | BP_MemoryHeadroom | BP_OutstandingLimit | BP_TenantBudget | BP_DeadlineTooTight
  | BP_EconomicsBelowThreshold

record BackpressureDecision =
  bp_blocked :: bool
  bp_reason :: BackpressureReason
  bp_detail :: string

definition bp_allow :: BackpressureDecision where
  "bp_allow = \<lparr>bp_blocked = False, bp_reason = BP_None, bp_detail = []\<rparr>"

definition bp_deny :: "BackpressureReason \<Rightarrow> string \<Rightarrow> BackpressureDecision" where
  "bp_deny r d = \<lparr>bp_blocked = True, bp_reason = r, bp_detail = d\<rparr>"

record ProposalRationale =
  rat_depth :: u32
  rat_branch_count :: u32
  rat_depth_reason :: string
  rat_branch_reason :: string
  rat_proposer_reason :: string
  rat_verifier_reason :: string

definition default_ProposalRationale :: ProposalRationale where
  "default_ProposalRationale = \<lparr>rat_depth = 0, rat_branch_count = 1, rat_depth_reason = [],
     rat_branch_reason = [], rat_proposer_reason = [], rat_verifier_reason = []\<rparr>"

record TenantSpecBudget =
  tsb_tenant :: TenantId
  tsb_budget_units :: u64
  tsb_used_units :: u64
  tsb_current_branches :: u32
  tsb_weight :: double
  tsb_speculative_work_ns :: u64

definition remaining_units :: "TenantSpecBudget \<Rightarrow> u64" where
  "remaining_units b =
     (if tsb_used_units b < tsb_budget_units b then tsb_budget_units b - tsb_used_units b else 0)"

datatype ValueOrigin = VO_Measured | VO_Derived | VO_Configured | VO_Estimated

section \<open>Adaptive depth\<close>

record AdaptiveDepth =
  ad_history :: "double list"
  ad_window :: u32

definition default_AdaptiveDepth :: AdaptiveDepth where
  "default_AdaptiveDepth = \<lparr>ad_history = [], ad_window = 32\<rparr>"

definition ad_record :: "double \<Rightarrow> AdaptiveDepth \<Rightarrow> AdaptiveDepth" where
  "ad_record r a = a\<lparr>ad_history := push_bounded (unat (ad_window a)) r (ad_history a)\<rparr>"

definition ad_set_window :: "u32 \<Rightarrow> AdaptiveDepth \<Rightarrow> AdaptiveDepth" where
  "ad_set_window w a = a\<lparr>ad_window := w\<rparr>"

definition ad_clear :: "AdaptiveDepth \<Rightarrow> AdaptiveDepth" where
  "ad_clear a = a\<lparr>ad_history := []\<rparr>"

definition average_ratio :: "AdaptiveDepth \<Rightarrow> double" where
  "average_ratio a =
     (if ad_history a = [] then 0
      else fl (foldl (\<lambda>s v. fl (s + v)) 0 (ad_history a) / of_nat (length (ad_history a))))"

text \<open>The scaling factor: three bands of the average ratio; the decimal literals are rounded doubles.\<close>

definition depth_factor :: "double \<Rightarrow> double" where
  "depth_factor r =
     (if fl (4/5) \<le> r then 1
      else if 1/2 \<le> r then fl (fl (3/5) + fl (fl (2/5) * fl (fl (r - 1/2) / fl (3/10))))
      else fl (fl (3/10) + fl (fl (3/10) * fl (r / (1/2)))))"

definition memory_scaled :: "u32 \<Rightarrow> u32 \<Rightarrow> double \<Rightarrow> double" where
  "memory_scaled headroom max_depth depth =
     (if headroom \<noteq> 0
      then fl (depth * min 1 (fl (of_nat (unat headroom) / fl (128 * of_nat (unat max_depth)))))
      else depth)"

definition clamp_double :: "double \<Rightarrow> double \<Rightarrow> double \<Rightarrow> double" where
  "clamp_double v lo hi = (if v < lo then lo else if hi < v then hi else v)"

definition saturation_scaled :: "double \<Rightarrow> double \<Rightarrow> double" where
  "saturation_scaled saturation depth = fl (depth * fl (1 - fl (1/2 * clamp_double saturation 0 1)))"

text \<open>\<^verbatim>\<open>std::clamp\<close> on \<^verbatim>\<open>int\<close>: the behaviour is undefined unless the bounds are ordered.\<close>

definition clamp_int :: "int \<Rightarrow> int \<Rightarrow> int \<Rightarrow> int cpp" where
  "clamp_int v lo hi = (if hi < lo then None else Some (if v < lo then lo else if hi < v then hi else v))"

definition choose_depth :: "AdaptiveDepth \<Rightarrow> ProposalPolicy \<Rightarrow> u32 \<Rightarrow> double \<Rightarrow> u32 cpp" where
  "choose_depth a policy headroom saturation =
     (if \<not> pol_adaptive_depth_enabled policy \<or> ad_history a = [] then Some (pol_max_depth policy)
      else
        let depth0 = fl (of_nat (unat (pol_max_depth policy)) * depth_factor (average_ratio a));
            depth1 = memory_scaled headroom (pol_max_depth policy) depth0;
            depth2 = saturation_scaled saturation depth1;
            d = (of_int (llround depth2) :: u32)
        in map_option of_int (clamp_int (sint d) 1 (sint (pol_max_depth policy))))"

section \<open>Facts\<close>

lemma length_ad_record:
  "length (ad_history a) \<le> unat (ad_window a) \<Longrightarrow> length (ad_history (ad_record r a)) \<le> unat (ad_window (ad_record r a))"
  by (simp add: ad_record_def length_push_bounded)

lemma set_push_bounded: "set (push_bounded c x q) \<subseteq> insert x (set q)"
  by (cases q) (auto simp: push_bounded_def Let_def)

lemma average_ratio_unit:
  assumes "\<forall>v\<in>set (ad_history a). 0 \<le> v \<and> v \<le> 1" and "length (ad_history a) \<le> 2 ^ 53"
  shows "0 \<le> average_ratio a \<and> average_ratio a \<le> 1"
proof (cases "ad_history a = []")
  case False
  let ?s = "foldl (\<lambda>s v. fl (s + v)) 0 (ad_history a)" and ?n = "of_nat (length (ad_history a)) :: rat"
  have "0 \<le> ?s" "?s \<le> ?n" using binary64.sum_bounds [OF assms(1), of 0 0] assms(2) by simp_all
  moreover have "0 < ?n" using False by simp
  ultimately have "0 \<le> ?s / ?n" "?s / ?n \<le> 1" by simp_all
  then have "0 \<le> fl (?s / ?n)" "fl (?s / ?n) \<le> 1"
    using binary64.rnd_nonneg binary64.rnd_le_1 by blast+
  with False show ?thesis by (simp add: average_ratio_def)
qed (simp add: average_ratio_def)

lemma average_ratio_ones:
  assumes "ad_history a = replicate n 1" and "0 < n" and "n \<le> 2 ^ 53"
  shows "average_ratio a = 1"
  using assms binary64.sum_ones [of 0 n] by (simp add: average_ratio_def)

text \<open>The three bands meet without a downward jump, so the factor is monotone in the ratio.\<close>

lemma band_joins:
  "fl (fl (3/10) + fl (fl (3/10) * fl ((1/2) / (1/2)))) \<le> fl (fl (3/5))"
  "fl (fl (3/5) + fl (fl (2/5) * fl (fl (fl (4/5) - 1/2) / fl (3/10)))) \<le> 1"
  "0 \<le> fl (3/10)" "0 \<le> fl (2/5)" "0 \<le> fl (3/5)" "1/2 \<le> fl (4/5)" "fl (4/5) \<le> 1"
  by code_simp+

lemma depth_factor_low: "0 \<le> r \<Longrightarrow> r \<le> s \<Longrightarrow>
    fl (fl (3/10) + fl (fl (3/10) * fl (r / (1/2)))) \<le> fl (fl (3/10) + fl (fl (3/10) * fl (s / (1/2))))"
  by (intro fl_mono add_left_mono mult_left_mono add_nonneg_nonneg mult_nonneg_nonneg binary64.rnd_nonneg
      divide_right_mono band_joins) simp_all

lemma depth_factor_mid: "1/2 \<le> r \<Longrightarrow> r \<le> s \<Longrightarrow>
    fl (fl (3/5) + fl (fl (2/5) * fl (fl (r - 1/2) / fl (3/10)))) \<le>
    fl (fl (3/5) + fl (fl (2/5) * fl (fl (s - 1/2) / fl (3/10))))"
  by (intro fl_mono add_left_mono mult_left_mono add_nonneg_nonneg mult_nonneg_nonneg divide_nonneg_nonneg
      binary64.rnd_nonneg divide_right_mono band_joins) simp_all

lemma depth_factor_mid_ge: "1/2 \<le> s \<Longrightarrow> fl (fl (3/5)) \<le> fl (fl (3/5) + fl (fl (2/5) * fl (fl (s - 1/2) / fl (3/10))))"
  by (intro fl_mono band_joins) (auto intro!: mult_nonneg_nonneg divide_nonneg_nonneg binary64.rnd_nonneg band_joins)

lemma depth_factor_le_1: "0 \<le> r \<Longrightarrow> depth_factor r \<le> 1"
proof -
  assume r: "0 \<le> r"
  have "fl (fl (3/5)) \<le> 1"
    by (intro binary64.rnd_le_1 binary64.rnd_nonneg) simp_all
  moreover have "r < fl (4/5) \<Longrightarrow> 1/2 \<le> r \<Longrightarrow>
      fl (fl (3/5) + fl (fl (2/5) * fl (fl (r - 1/2) / fl (3/10)))) \<le> 1"
    using depth_factor_mid [of r "fl (4/5)"] band_joins(2) by linarith
  moreover have "r < 1/2 \<Longrightarrow> fl (fl (3/10) + fl (fl (3/10) * fl (r / (1/2)))) \<le> fl (fl (3/5))"
    using depth_factor_low [OF r, of "1/2"] band_joins(1) by linarith
  ultimately show ?thesis unfolding depth_factor_def by auto
qed

lemma depth_factor_mono: "0 \<le> r \<Longrightarrow> r \<le> s \<Longrightarrow> depth_factor r \<le> depth_factor s"
proof -
  assume rs: "0 \<le> r" "r \<le> s"
  consider "fl (4/5) \<le> s" | "s < fl (4/5)" "1/2 \<le> r" | "s < fl (4/5)" "r < 1/2" "1/2 \<le> s" | "s < 1/2"
    by linarith
  then show ?thesis
  proof cases
    case 1
    with rs depth_factor_le_1 [of r] show ?thesis by (simp add: depth_factor_def [of s])
  next
    case 2
    with rs depth_factor_mid [of r s] show ?thesis by (simp add: depth_factor_def)
  next
    case 3
    with rs depth_factor_low [of r "1/2"] band_joins(1) depth_factor_mid_ge [of s] show ?thesis
      by (simp add: depth_factor_def)
  next
    case 4
    with rs depth_factor_low [of r s] band_joins(6) show ?thesis by (simp add: depth_factor_def)
  qed
qed

lemma depth_factor_nonneg: "0 \<le> r \<Longrightarrow> 0 \<le> depth_factor r"
  by (auto simp: depth_factor_def intro!: binary64.rnd_nonneg add_nonneg_nonneg mult_nonneg_nonneg
      divide_nonneg_nonneg band_joins)

lemma memory_ratio:
  "0 \<le> min 1 (fl (of_nat (unat h) / fl (128 * of_nat (unat m))))"
  "min 1 (fl (of_nat (unat h) / fl (128 * of_nat (unat m)))) \<le> 1"
proof -
  have "0 \<le> fl (of_nat (unat h) / fl (128 * of_nat (unat m)))"
    by (intro binary64.rnd_nonneg divide_nonneg_nonneg mult_nonneg_nonneg of_nat_0_le_iff) simp
  then show "0 \<le> min 1 (fl (of_nat (unat h) / fl (128 * of_nat (unat m))))" by simp
qed simp

lemma memory_scaled_mono: "0 \<le> x \<Longrightarrow> x \<le> y \<Longrightarrow> memory_scaled h m x \<le> memory_scaled h m y"
  unfolding memory_scaled_def by (auto intro!: fl_mono mult_right_mono mult_nonneg_nonneg memory_ratio simp del: of_nat_unat)

lemma memory_scaled_bounds:
  assumes "0 \<le> x" and "x \<le> of_nat n" and "n \<le> 2 ^ 53"
  shows "0 \<le> memory_scaled h m x \<and> memory_scaled h m x \<le> of_nat n"
proof (cases "h = 0")
  case False
  let ?q = "min 1 (fl (of_nat (unat h) / fl (128 * of_nat (unat m))))"
  have q: "0 \<le> ?q" "?q \<le> 1" by (rule memory_ratio)+
  then have "0 \<le> x * ?q" "x * ?q \<le> of_nat n"
    using assms mult_left_le [of ?q x] by auto
  with False assms show ?thesis
    using binary64.rnd_nonneg binary64.rnd_le_nat by (auto simp: memory_scaled_def)
qed (use assms in \<open>simp add: memory_scaled_def\<close>)

lemma saturation_factor: "0 \<le> fl (1 - fl (1/2 * clamp_double t 0 1)) \<and> fl (1 - fl (1/2 * clamp_double t 0 1)) \<le> 1"
proof -
  have c: "0 \<le> clamp_double t 0 1" "clamp_double t 0 1 \<le> 1" by (auto simp: clamp_double_def)
  then have "0 \<le> fl (1/2 * clamp_double t 0 1)" "fl (1/2 * clamp_double t 0 1) \<le> 1"
    by (auto intro!: binary64.rnd_nonneg binary64.rnd_le_1)
  then show ?thesis by (auto intro!: binary64.rnd_nonneg binary64.rnd_le_1)
qed

lemma saturation_scaled_mono: "0 \<le> x \<Longrightarrow> x \<le> y \<Longrightarrow> saturation_scaled t x \<le> saturation_scaled t y"
  using saturation_factor [of t] by (auto simp: saturation_scaled_def intro!: fl_mono mult_right_mono)

lemma saturation_scaled_bounds:
  assumes "0 \<le> x" and "x \<le> of_nat n" and "n \<le> 2 ^ 53"
  shows "0 \<le> saturation_scaled t x \<and> saturation_scaled t x \<le> of_nat n"
proof -
  let ?q = "fl (1 - fl (1/2 * clamp_double t 0 1))"
  have "0 \<le> x * ?q" "x * ?q \<le> of_nat n"
    using assms saturation_factor [of t] mult_left_le [of ?q x] by auto
  then show ?thesis
    using assms binary64.rnd_nonneg binary64.rnd_le_nat by (auto simp: saturation_scaled_def)
qed

lemma llround_mono: "0 \<le> x \<Longrightarrow> x \<le> y \<Longrightarrow> llround x \<le> llround y"
  by (auto simp: llround_def intro!: floor_mono)

lemma llround_bounds: "0 \<le> x \<Longrightarrow> x \<le> of_nat n \<Longrightarrow> 0 \<le> llround x \<and> llround x \<le> int n"
proof -
  assume x: "0 \<le> x" "x \<le> of_nat n"
  then have "x + 1/2 < of_int (int n + 1)" by simp
  then have "\<lfloor>x + 1/2\<rfloor> < int n + 1" by (simp only: floor_less_iff)
  with x show ?thesis by (simp add: llround_def)
qed

text \<open>The real-valued depth before the final clamp.\<close>

definition raw_depth :: "AdaptiveDepth \<Rightarrow> u32 \<Rightarrow> u32 \<Rightarrow> double \<Rightarrow> double" where
  "raw_depth a m h t = saturation_scaled t (memory_scaled h m (fl (of_nat (unat m) * depth_factor (average_ratio a))))"

lemma raw_depth_bounds:
  assumes "0 \<le> average_ratio a"
  shows "0 \<le> raw_depth a m h t" "raw_depth a m h t \<le> of_nat (unat m)"
proof -
  have m: "unat m \<le> 2 ^ 53" using unsigned_less [of m, where ?'a = nat] by simp
  let ?x = "of_nat (unat m) * depth_factor (average_ratio a)"
  have "0 \<le> ?x" "?x \<le> of_nat (unat m)"
    using depth_factor_nonneg [OF assms] depth_factor_le_1 [OF assms]
    by (auto intro: mult_left_le simp del: of_nat_unat)
  then have "0 \<le> fl ?x" "fl ?x \<le> of_nat (unat m)"
    using m binary64.rnd_nonneg binary64.rnd_le_nat by blast+
  then have "0 \<le> memory_scaled h m (fl ?x)" "memory_scaled h m (fl ?x) \<le> of_nat (unat m)"
    using memory_scaled_bounds m by blast+
  then show "0 \<le> raw_depth a m h t" "raw_depth a m h t \<le> of_nat (unat m)"
    unfolding raw_depth_def using saturation_scaled_bounds m by blast+
qed

lemma raw_depth_mono:
  assumes "0 \<le> average_ratio a" and "average_ratio a \<le> average_ratio b"
  shows "raw_depth a m h t \<le> raw_depth b m h t"
proof -
  have m: "unat m \<le> 2 ^ 53" using unsigned_less [of m, where ?'a = nat] by simp
  let ?x = "\<lambda>a. of_nat (unat m) * depth_factor (average_ratio a) :: rat"
  have x: "0 \<le> ?x a" "?x a \<le> ?x b" "?x a \<le> of_nat (unat m)"
    using depth_factor_nonneg [of "average_ratio a"] depth_factor_mono [OF assms] depth_factor_le_1 [of "average_ratio a"] assms
    by (auto intro: mult_left_le mult_left_mono simp del: of_nat_unat)
  then have y: "0 \<le> fl (?x a)" "fl (?x a) \<le> fl (?x b)" "fl (?x a) \<le> of_nat (unat m)"
    using binary64.rnd_nonneg fl_mono binary64.rnd_le_nat m by blast+
  then have "0 \<le> memory_scaled h m (fl (?x a))" "memory_scaled h m (fl (?x a)) \<le> memory_scaled h m (fl (?x b))"
    using memory_scaled_bounds m memory_scaled_mono by blast+
  then show ?thesis unfolding raw_depth_def by (rule saturation_scaled_mono)
qed

lemma sint_small: "unat (m::u32) < 2 ^ 31 \<Longrightarrow> sint m = int (unat m)"
  by (simp add: sint_uint signed_take_bit_int_eq_self uint_nat del: of_nat_unat)

lemma choose_depth_eq:
  assumes "pol_adaptive_depth_enabled p" and "ad_history a \<noteq> []" and "0 \<le> average_ratio a"
    and "0 < unat (pol_max_depth p)" and "unat (pol_max_depth p) < 2 ^ 31"
  shows "choose_depth a p h t = Some (of_int (max 1 (llround (raw_depth a (pol_max_depth p) h t))))"
proof -
  let ?m = "pol_max_depth p" and ?k = "llround (raw_depth a (pol_max_depth p) h t)"
  have k: "0 \<le> ?k" "?k \<le> int (unat ?m)"
    using llround_bounds raw_depth_bounds [OF assms(3)] by blast+
  with assms(5) have "signed_take_bit 31 ?k = ?k"
    by (intro signed_take_bit_int_eq_self) (simp_all del: of_nat_unat)
  then have "sint (of_int ?k :: u32) = ?k"
    by (simp add: sint_sbintrunc')
  moreover have "1 \<le> sint ?m" "sint ?m = int (unat ?m)"
    using assms(4,5) by (simp_all add: sint_small del: of_nat_unat)
  ultimately have "clamp_int (sint (of_int ?k :: u32)) 1 (sint ?m) = Some (max 1 ?k)"
    using k by (auto simp: clamp_int_def)
  then show ?thesis
    using assms(1,2) by (simp add: choose_depth_def Let_def raw_depth_def)
qed

section \<open>Properties\<close>

lemma choose_depth_nat:
  assumes "\<forall>v\<in>set (ad_history a). 0 \<le> v \<and> v \<le> 1" and "length (ad_history a) \<le> 2 ^ 53"
    and "0 < unat (pol_max_depth p)" and "unat (pol_max_depth p) < 2 ^ 31"
    and "pol_adaptive_depth_enabled p" and "ad_history a \<noteq> []"
  obtains d where "choose_depth a p h t = Some d"
    "unat d = nat (max 1 (llround (raw_depth a (pol_max_depth p) h t)))" "1 \<le> unat d" "unat d \<le> unat (pol_max_depth p)"
proof -
  let ?k = "max 1 (llround (raw_depth a (pol_max_depth p) h t))"
  have r: "0 \<le> average_ratio a" using average_ratio_unit [OF assms(1,2)] by simp
  have "llround (raw_depth a (pol_max_depth p) h t) \<le> int (unat (pol_max_depth p))"
    using llround_bounds [OF raw_depth_bounds [OF r]] by blast
  then have k: "1 \<le> ?k" "?k \<le> int (unat (pol_max_depth p))" using assms(3) by (simp_all del: of_nat_unat)
  have "nat ?k \<le> unat (pol_max_depth p)" using k(2) by (simp only: nat_le_iff)
  moreover have "unat (of_int ?k :: u32) = nat ?k"
  proof -
    have "(of_int ?k :: u32) = of_nat (nat ?k)" using k(1) by simp
    then show ?thesis using \<open>nat ?k \<le> _\<close> assms(4) by (simp add: unat_of_nat del: of_nat_nat)
  qed
  ultimately show thesis
    using that [of "of_int ?k"] choose_depth_eq [OF assms(5,6) r assms(3,4)] k(1) by simp
qed

lemma choose_depth_in_range:
  assumes "\<forall>v\<in>set (ad_history a). 0 \<le> v \<and> v \<le> 1" and "length (ad_history a) \<le> 2 ^ 53"
    and "0 < unat (pol_max_depth p)" and "unat (pol_max_depth p) < 2 ^ 31"
  shows "\<exists>d. choose_depth a p h t = Some d \<and> 1 \<le> unat d \<and> unat d \<le> unat (pol_max_depth p)"
proof (cases "pol_adaptive_depth_enabled p \<and> ad_history a \<noteq> []")
  case True
  then show ?thesis using choose_depth_nat [OF assms] by metis
qed (use assms(3) in \<open>auto simp: choose_depth_def\<close>)

text \<open>
  C35 (choose_depth_range): for every history of acceptance ratios in the unit interval, and every
  depth bound from 1 to \<open>2^31 - 1\<close>, the chosen depth is defined and lies between 1 and the bound,
  whatever the memory headroom and the saturation.
\<close>

theorem choose_depth_range:
  assumes "\<forall>v\<in>set (ad_history a). 0 \<le> v \<and> v \<le> 1" and "length (ad_history a) \<le> 2 ^ 53"
    and "0 < unat (pol_max_depth p)" and "unat (pol_max_depth p) < 2 ^ 31"
  shows "\<exists>d. choose_depth a p h t = Some d \<and> 1 \<le> unat d \<and> unat d \<le> unat (pol_max_depth p)"
  using choose_depth_in_range [OF assms] .

theorem choose_depth_range_witness:
  "\<exists>d. choose_depth \<lparr>ad_history = [1/2, 0, 1], ad_window = 32\<rparr> default_ProposalPolicy 100 (1/4) = Some d \<and>
     1 \<le> unat d \<and> unat d \<le> 4"
  using choose_depth_range [of "\<lparr>ad_history = [1/2, 0, 1], ad_window = 32\<rparr>" default_ProposalPolicy 100 "1/4"]
  by (simp add: default_ProposalPolicy_def)

lemma choose_depth_ones:
  assumes "ad_history a = replicate n 1" and "0 < n" and "n \<le> 2 ^ 53" and "pol_adaptive_depth_enabled p"
    and "0 < unat (pol_max_depth p)" and "unat (pol_max_depth p) < 2 ^ 31"
  shows "choose_depth a p 0 0 = Some (pol_max_depth p)"
proof -
  let ?m = "pol_max_depth p"
  have r: "average_ratio a = 1" using assms(1-3) by (rule average_ratio_ones)
  have "depth_factor 1 = 1" by (simp add: depth_factor_def band_joins)
  moreover have "fl (of_nat (unat ?m)) = of_nat (unat ?m)"
    using assms(6) by (intro binary64.rnd_nat) simp
  ultimately have "raw_depth a ?m 0 0 = of_nat (unat ?m)"
    by (simp add: raw_depth_def r memory_scaled_def saturation_scaled_def clamp_double_def del: of_nat_unat)
  then have "llround (raw_depth a ?m 0 0) = int (unat ?m)"
    by (simp add: llround_def floor_eq_iff del: of_nat_unat)
  then show ?thesis
    using choose_depth_eq [of p a 0 0] assms r by (simp add: max_absorb2 del: of_nat_unat) simp
qed

text \<open>
  C36 (choose_depth_monotone): among histories with at least one recorded ratio, one with a better
  average never yields a smaller depth, all other inputs being equal, in the code's rounded double
  arithmetic; and a history of full acceptances without memory pressure or saturation yields the
  policy's maximum. The empty history of a new runtime is outside this order: its average is 0,
  yet its depth is the maximum, at least the depth that any recorded history gets.
\<close>

theorem choose_depth_monotone:
  assumes "\<forall>v\<in>set (ad_history a) \<union> set (ad_history b). 0 \<le> v \<and> v \<le> 1"
    and "length (ad_history a) \<le> 2 ^ 53" and "length (ad_history b) \<le> 2 ^ 53"
    and "0 < unat (pol_max_depth p)" and "unat (pol_max_depth p) < 2 ^ 31" and "pol_adaptive_depth_enabled p"
    and "ad_history a \<noteq> []" and "ad_history b \<noteq> []" and "average_ratio a \<le> average_ratio b"
    and "0 < n" and "n \<le> 2 ^ 53"
  shows "\<exists>x y z. choose_depth a p h t = Some x \<and> choose_depth b p h t = Some y \<and> x \<le> y \<and>
    choose_depth \<lparr>ad_history = replicate n 1, ad_window = w\<rparr> p 0 0 = Some (pol_max_depth p) \<and>
    average_ratio \<lparr>ad_history = [], ad_window = w\<rparr> = 0 \<and>
    choose_depth \<lparr>ad_history = [], ad_window = w\<rparr> p h t = Some z \<and> z = pol_max_depth p \<and> y \<le> z"
proof -
  have u: "\<forall>v\<in>set (ad_history a). 0 \<le> v \<and> v \<le> 1" "\<forall>v\<in>set (ad_history b). 0 \<le> v \<and> v \<le> 1" using assms(1) by auto
  obtain x where x: "choose_depth a p h t = Some x"
    "unat x = nat (max 1 (llround (raw_depth a (pol_max_depth p) h t)))"
    using choose_depth_nat [OF u(1) assms(2,4,5,6,7)] by metis
  obtain y where y: "choose_depth b p h t = Some y"
    "unat y = nat (max 1 (llround (raw_depth b (pol_max_depth p) h t)))"
    using choose_depth_nat [OF u(2) assms(3,4,5,6,8)] by metis
  have r: "0 \<le> average_ratio a" using average_ratio_unit [OF u(1) assms(2)] by simp
  have "llround (raw_depth a (pol_max_depth p) h t) \<le> llround (raw_depth b (pol_max_depth p) h t)"
    using raw_depth_bounds(1) [OF r] raw_depth_mono [OF r assms(9)] by (rule llround_mono)
  then have "unat x \<le> unat y" unfolding x(2) y(2) by (intro nat_mono) linarith
  moreover have "unat y \<le> unat (pol_max_depth p)"
    using choose_depth_in_range [OF u(2) assms(3,4,5), of h t] y(1) by auto
  moreover have "choose_depth \<lparr>ad_history = [], ad_window = w\<rparr> p h t = Some (pol_max_depth p)"
    "average_ratio \<lparr>ad_history = [], ad_window = w\<rparr> = 0" by (simp_all add: choose_depth_def average_ratio_def)
  ultimately show ?thesis
    using x(1) y(1) choose_depth_ones [of "\<lparr>ad_history = replicate n 1, ad_window = w\<rparr>" n p] assms by (simp add: word_le_nat_alt)
qed

theorem choose_depth_monotone_witness:
  "\<exists>x y z. choose_depth \<lparr>ad_history = [0], ad_window = 32\<rparr> default_ProposalPolicy 0 0 = Some x \<and>
     choose_depth \<lparr>ad_history = [1], ad_window = 32\<rparr> default_ProposalPolicy 0 0 = Some y \<and> x \<le> y \<and>
     choose_depth \<lparr>ad_history = replicate 3 1, ad_window = 32\<rparr> default_ProposalPolicy 0 0 = Some (pol_max_depth default_ProposalPolicy) \<and>
     average_ratio \<lparr>ad_history = [], ad_window = 32\<rparr> = 0 \<and>
     choose_depth \<lparr>ad_history = [], ad_window = 32\<rparr> default_ProposalPolicy 0 0 = Some z \<and>
     z = pol_max_depth default_ProposalPolicy \<and> y \<le> z"
  by (rule choose_depth_monotone) (simp_all add: default_ProposalPolicy_def average_ratio_def binary64.rnd_0 binary64.rnd_1)

end
