(* ===== verification/SF_Model.thy ===== *)
theory SF_Model
  imports SF_Id SF_Error
begin

text \<open>
  The identities of models, devices and executors (\<^verbatim>\<open>model.hpp\<close>), and state references,
  descriptors and reservations (\<^verbatim>\<open>state.hpp\<close>). One record per struct with its fields in order;
  \<open>default_S\<close> is the value-initialised struct \<^verbatim>\<open>S{}\<close>. Field names carry a short struct prefix
  because record selectors are global.
\<close>

section \<open>Model, device and executor identity (model.hpp)\<close>

datatype ExecutorKind = EK_CPU | EK_CUDA | EK_ROCm | EK_Metal | EK_Custom | EK_Unknown

record DeviceDescriptor =
  dev_id :: DeviceId
  dev_name :: string
  dev_canonical :: string
  dev_kind :: ExecutorKind
  dev_compute_capability_major :: u32
  dev_compute_capability_minor :: u32
  dev_memory_bytes :: u64

record TokenizerIdentity =
  tok_id :: TokenizerId
  tok_name :: string
  tok_vocab_size :: u32
  tok_hash :: string

record ExecutorIdentity =
  exe_id :: ExecutorId
  exe_name :: string
  exe_kind :: ExecutorKind
  exe_protocol_version :: u32

record AdapterIdentity =
  ada_id :: AdapterId
  ada_name :: string
  ada_revision :: string

record ModelIdentity =
  mi_model :: ModelId
  mi_revision :: Revision
  mi_tokenizer :: TokenizerIdentity
  mi_adapter :: "AdapterIdentity option"
  mi_executor :: ExecutorIdentity
  mi_device :: DeviceDescriptor
  mi_name :: string

definition default_DeviceDescriptor :: DeviceDescriptor where
  "default_DeviceDescriptor = \<lparr>dev_id = null_id, dev_name = [], dev_canonical = [], dev_kind = EK_Unknown,
     dev_compute_capability_major = 0, dev_compute_capability_minor = 0, dev_memory_bytes = 0\<rparr>"

definition default_TokenizerIdentity :: TokenizerIdentity where
  "default_TokenizerIdentity = \<lparr>tok_id = null_id, tok_name = [], tok_vocab_size = 0, tok_hash = []\<rparr>"

definition default_ExecutorIdentity :: ExecutorIdentity where
  "default_ExecutorIdentity = \<lparr>exe_id = null_id, exe_name = [], exe_kind = EK_Unknown, exe_protocol_version = 0\<rparr>"

definition default_ModelIdentity :: ModelIdentity where
  "default_ModelIdentity = \<lparr>mi_model = null_id, mi_revision = null_id,
     mi_tokenizer = default_TokenizerIdentity, mi_adapter = None, mi_executor = default_ExecutorIdentity,
     mi_device = default_DeviceDescriptor, mi_name = []\<rparr>"

definition model_canonical :: "ModelIdentity \<Rightarrow> string" where
  "model_canonical m =
     ''model='' @ mi_name m @ '';rev='' @ id_str (mi_revision m) @ '';tok='' @ tok_name (mi_tokenizer m) @ '';'' @
     (case mi_adapter m of Some a \<Rightarrow> ''adapter='' @ ada_name a @ '';'' | None \<Rightarrow> []) @
     ''exec='' @ exe_name (mi_executor m) @ '';dev='' @ dev_canonical (mi_device m)"

record ModelPair =
  mp_proposer :: ModelIdentity
  mp_verifier :: ModelIdentity

record WorkerDescriptor =
  wd_id :: WorkerId
  wd_boot_id :: WorkerBootId
  wd_role_name :: string
  wd_executor :: ExecutorIdentity
  wd_device :: DeviceDescriptor
  wd_address :: string
  wd_port :: u16

datatype WorkerCapability = WorkerCapability (capability_bits: u8)

definition Capability_None :: WorkerCapability where "Capability_None = WorkerCapability 0"
definition Capability_Propose :: WorkerCapability where "Capability_Propose = WorkerCapability 1"
definition Capability_Verify :: WorkerCapability where "Capability_Verify = WorkerCapability 2"
definition Capability_ProposeAndVerify :: WorkerCapability where
  "Capability_ProposeAndVerify = WorkerCapability (1 OR 2)"

definition capability_or :: "WorkerCapability \<Rightarrow> WorkerCapability \<Rightarrow> WorkerCapability" where
  "capability_or a b = WorkerCapability (capability_bits a OR capability_bits b)"

definition has_capability :: "WorkerCapability \<Rightarrow> WorkerCapability \<Rightarrow> bool" where
  "has_capability v c \<longleftrightarrow> capability_bits v AND capability_bits c \<noteq> 0"

section \<open>State and reservations (state.hpp)\<close>

datatype SequenceRole = Role_Authoritative | Role_Speculative

record StateRef =
  sr_id :: StateId
  sr_generation :: StateGeneration

definition default_StateRef :: StateRef where
  "default_StateRef = \<lparr>sr_id = null_id, sr_generation = null_id\<rparr>"

definition stateref_is_valid :: "StateRef \<Rightarrow> bool" where
  "stateref_is_valid r \<longleftrightarrow> \<not> is_null (sr_id r)"

record StateDomain =
  dom_name :: string
  dom_device :: DeviceDescriptor

definition default_StateDomain :: StateDomain where
  "default_StateDomain = \<lparr>dom_name = ''cpu'', dom_device = default_DeviceDescriptor\<rparr>"

datatype ReservationState = RS_None | RS_Reserved | RS_Pending | RS_Used | RS_Released

datatype StateOwner = SO_None | SO_Proposal | SO_Branch | SO_Verification | SO_AuthoritativeCommit

record StateDescriptor =
  sd_ref :: StateRef
  sd_role :: SequenceRole
  sd_domain :: StateDomain
  sd_parent :: "StateRef option"
  sd_parent_generation :: "StateGeneration option"
  sd_bytes_held :: u64
  sd_reservation :: ReservationState
  sd_owner :: StateOwner
  sd_proposal_owner :: "ProposalId option"
  sd_branch_owner :: "BranchId option"
  sd_committed :: bool

definition default_StateDescriptor :: StateDescriptor where
  "default_StateDescriptor = \<lparr>sd_ref = default_StateRef, sd_role = Role_Speculative,
     sd_domain = default_StateDomain, sd_parent = None, sd_parent_generation = None, sd_bytes_held = 0,
     sd_reservation = RS_None, sd_owner = SO_None, sd_proposal_owner = None, sd_branch_owner = None,
     sd_committed = False\<rparr>"

definition active_state :: "ReservationState \<Rightarrow> bool" where
  "active_state s \<longleftrightarrow> s = RS_Reserved \<or> s = RS_Pending \<or> s = RS_Used"

definition descriptor_is_held :: "StateDescriptor \<Rightarrow> bool" where
  "descriptor_is_held d \<longleftrightarrow> active_state (sd_reservation d)"

record Reservation =
  res_id :: ReservationId
  res_domain :: StateDomain
  res_bytes :: u64
  res_state :: ReservationState
  res_purpose :: StateOwner
  res_proposal :: "ProposalId option"
  res_branch :: "BranchId option"
  res_request :: "RequestId option"
  res_purpose_label :: string

definition reservation_is_active :: "Reservation \<Rightarrow> bool" where
  "reservation_is_active r \<longleftrightarrow> active_state (res_state r)"

record AuthoritativeState =
  as_sequence :: SequenceId
  as_generation :: AuthGeneration
  as_state :: StateRef
  as_committed_tokens :: "u32 list"
  as_model :: ModelIdentity
  as_committed_length :: u64

end
