(* ===== verification/SF_Compat.thy ===== *)
theory SF_Compat
  imports SF_Model
begin

text \<open>
  Model-pair compatibility (\<^verbatim>\<open>compat.hpp\<close>, \<^verbatim>\<open>src/core/compat.cpp\<close>): the key, the decision
  with its ordered list of reasons, and \<^verbatim>\<open>evaluate_compatibility\<close> as a sequence of checks on its
  two local variables, in the order of the source. The lemmas characterise the decision
  declaratively and relate it to its reasons.
\<close>

section \<open>The decision procedure\<close>

record ModelPairCompatibilityKey =
  key_proposer :: ModelIdentity
  key_verifier :: ModelIdentity
  key_protocol_version :: u32

definition default_CompatibilityKey :: ModelPairCompatibilityKey where
  "default_CompatibilityKey = \<lparr>key_proposer = default_ModelIdentity, key_verifier = default_ModelIdentity,
     key_protocol_version = 1\<rparr>"

definition key_canonical :: "ModelPairCompatibilityKey \<Rightarrow> string" where
  "key_canonical k = model_canonical (key_proposer k) @ ''|'' @ model_canonical (key_verifier k) @
     ''|proto='' @ word_string (key_protocol_version k)"

record CompatReason =
  cmp_code :: string
  cmp_detail :: string
  cmp_fatal :: bool

record ModelPairCompatibilityDecision =
  dec_compatible :: bool
  dec_cache_hit :: bool
  dec_reasons :: "CompatReason list"
  dec_canonical_key :: string

definition same_executor_kind :: "ExecutorKind \<Rightarrow> ExecutorKind \<Rightarrow> bool" where
  "same_executor_kind a b \<longleftrightarrow> a = b \<or> a = EK_Unknown \<or> b = EK_Unknown"

definition add_reason :: "string \<Rightarrow> string \<Rightarrow> bool \<Rightarrow> CompatReason list \<Rightarrow> CompatReason list" where
  "add_reason c d fatal out = out @ [\<lparr>cmp_code = c, cmp_detail = d, cmp_fatal = fatal\<rparr>]"

text \<open>The source quotes names with single quotes, character 0x27.\<close>

definition quoted :: "string \<Rightarrow> string" where
  "quoted s = [CHR 0x27] @ s @ [CHR 0x27]"

text \<open>
  The function keeps two local variables, the reasons and the flag \<^verbatim>\<open>ok\<close>. Each check is a function
  on both; the flag is cleared where the source clears it, apart from the reason that goes with it.
\<close>

type_synonym compat_locals = "CompatReason list \<times> bool"

fun tokenizer_check :: "ModelIdentity \<Rightarrow> ModelIdentity \<Rightarrow> compat_locals \<Rightarrow> compat_locals" where
  "tokenizer_check p v (reasons, ok) =
     (if mi_tokenizer p \<noteq> mi_tokenizer v then
        (add_reason ''tokenizer_mismatch''
          (''proposer tokenizer '' @ quoted (tok_name (mi_tokenizer p)) @ '' (id '' @ id_str (tok_id (mi_tokenizer p)) @
           '') differs from verifier tokenizer '' @ quoted (tok_name (mi_tokenizer v)) @
           '' (id '' @ id_str (tok_id (mi_tokenizer v)) @ '')'') True reasons, False)
      else if is_null (tok_id (mi_tokenizer p)) then
        (add_reason ''missing_tokenizer_identity'' ''proposer/vocabulary identity is unset'' True reasons, False)
      else (reasons, ok))"

fun vocabulary_check :: "ModelIdentity \<Rightarrow> ModelIdentity \<Rightarrow> compat_locals \<Rightarrow> compat_locals" where
  "vocabulary_check p v (reasons, ok) =
     (if tok_vocab_size (mi_tokenizer p) \<noteq> tok_vocab_size (mi_tokenizer v) then
        (add_reason ''vocabulary_size_mismatch''
          (word_string (tok_vocab_size (mi_tokenizer p)) @ '' != '' @
           word_string (tok_vocab_size (mi_tokenizer v)) @ '' vocab entries'') True reasons, False)
      else (reasons, ok))"

fun adapter_check :: "ModelIdentity \<Rightarrow> ModelIdentity \<Rightarrow> compat_locals \<Rightarrow> compat_locals" where
  "adapter_check p v (reasons, ok) =
     (case (mi_adapter p, mi_adapter v) of
        (Some a, Some b) \<Rightarrow>
          if a \<noteq> b then
            (add_reason ''adapter_mismatch''
              (''adapter '' @ quoted (ada_name a) @ '' differs from '' @ quoted (ada_name b)) True reasons, False)
          else (reasons, ok)
      | (None, None) \<Rightarrow> (reasons, ok)
      | _ \<Rightarrow> (add_reason ''adapter_stack_mismatch''
               ''one model has an adapter stack and the other does not'' True reasons, False))"

fun executor_check :: "ModelIdentity \<Rightarrow> ModelIdentity \<Rightarrow> compat_locals \<Rightarrow> compat_locals" where
  "executor_check p v (reasons, ok) =
     (if \<not> same_executor_kind (exe_kind (mi_executor p)) (exe_kind (mi_executor v)) then
        (add_reason ''executor_kind_mismatch'' ''executors run on different device kinds'' True reasons, False)
      else (reasons, ok))"

fun protocol_check :: "ModelIdentity \<Rightarrow> ModelIdentity \<Rightarrow> compat_locals \<Rightarrow> compat_locals" where
  "protocol_check p v (reasons, ok) =
     (let a = exe_protocol_version (mi_executor p); b = exe_protocol_version (mi_executor v)
      in if a \<noteq> 0 \<and> b \<noteq> 0 \<and> a \<noteq> b then
           (add_reason ''candidate_protocol_mismatch''
             (''proposer protocol '' @ word_string a @ '' != verifier protocol '' @ word_string b) True reasons, False)
         else (reasons, ok))"

fun key_version_check :: "u32 \<Rightarrow> compat_locals \<Rightarrow> compat_locals" where
  "key_version_check n (reasons, ok) =
     (if n = 0 then (add_reason ''missing_protocol_version'' ''key protocol version must be >= 1'' True reasons, False)
      else (reasons, ok))"

fun revision_note :: "ModelIdentity \<Rightarrow> ModelIdentity \<Rightarrow> compat_locals \<Rightarrow> compat_locals" where
  "revision_note p v (reasons, ok) =
     (if mi_model p = mi_model v \<and> mi_revision p \<noteq> mi_revision v then
        (add_reason ''revision_mismatch''
          (''same model id at different revisions ('' @ id_str (mi_revision p) @ '' vs '' @
            id_str (mi_revision v) @ ''): tokens remain interpretable only if the vocabulary is unchanged (it is)'')
          False reasons, ok)
      else (reasons, ok))"

definition fatal_checks :: "ModelPairCompatibilityKey \<Rightarrow> compat_locals" where
  "fatal_checks k =
     (let p = key_proposer k; v = key_verifier k;
          l1 = tokenizer_check p v ([], True);
          l2 = vocabulary_check p v l1;
          l3 = adapter_check p v l2;
          l4 = executor_check p v l3;
          l5 = protocol_check p v l4
      in key_version_check (key_protocol_version k) l5)"

definition evaluate_compatibility :: "ModelPairCompatibilityKey \<Rightarrow> ModelPairCompatibilityDecision" where
  "evaluate_compatibility k =
     (let (reasons, ok) = revision_note (key_proposer k) (key_verifier k) (fatal_checks k)
      in \<lparr>dec_compatible = ok, dec_cache_hit = False, dec_reasons = reasons, dec_canonical_key = key_canonical k\<rparr>)"

section \<open>Characterisation\<close>

text \<open>What the checks add up to: agreement of both identities in everything that gives tokens meaning.\<close>

definition pair_agrees :: "ModelIdentity \<Rightarrow> ModelIdentity \<Rightarrow> bool" where
  "pair_agrees p v \<longleftrightarrow>
     mi_tokenizer p = mi_tokenizer v \<and> tok_id (mi_tokenizer p) \<noteq> null_id \<and> mi_adapter p = mi_adapter v \<and>
     same_executor_kind (exe_kind (mi_executor p)) (exe_kind (mi_executor v)) \<and>
     (exe_protocol_version (mi_executor p) = 0 \<or> exe_protocol_version (mi_executor v) = 0 \<or>
      exe_protocol_version (mi_executor p) = exe_protocol_version (mi_executor v))"

text \<open>Each check clears the flag exactly where its part of the agreement fails, and otherwise keeps it.\<close>

lemma tokenizer_ok: "snd (tokenizer_check p v l) \<longleftrightarrow> snd l \<and> mi_tokenizer p = mi_tokenizer v \<and> tok_id (mi_tokenizer p) \<noteq> null_id"
  by (cases l) simp

lemma vocabulary_ok: "snd (vocabulary_check p v l) \<longleftrightarrow> snd l \<and> tok_vocab_size (mi_tokenizer p) = tok_vocab_size (mi_tokenizer v)"
  by (cases l) simp

lemma adapter_ok: "snd (adapter_check p v l) \<longleftrightarrow> snd l \<and> mi_adapter p = mi_adapter v"
  by (cases l) (auto split: option.splits)

lemma executor_ok: "snd (executor_check p v l) \<longleftrightarrow>
    snd l \<and> same_executor_kind (exe_kind (mi_executor p)) (exe_kind (mi_executor v))"
  by (cases l) simp

lemma protocol_ok: "snd (protocol_check p v l) \<longleftrightarrow>
    snd l \<and> (exe_protocol_version (mi_executor p) = 0 \<or> exe_protocol_version (mi_executor v) = 0 \<or>
      exe_protocol_version (mi_executor p) = exe_protocol_version (mi_executor v))"
  by (cases l) (auto simp: Let_def)

lemma key_version_ok: "snd (key_version_check n l) \<longleftrightarrow> snd l \<and> n \<noteq> 0"
  by (cases l) simp

lemmas check_ok = tokenizer_ok vocabulary_ok adapter_ok executor_ok protocol_ok key_version_ok

lemma dec_fields: "dec_compatible (evaluate_compatibility k) = snd (fatal_checks k)"
  by (cases "fatal_checks k") (simp add: evaluate_compatibility_def)

lemma compatible_iff:
  "dec_compatible (evaluate_compatibility k) \<longleftrightarrow>
     pair_agrees (key_proposer k) (key_verifier k) \<and> key_protocol_version k \<noteq> 0"
  by (auto simp: dec_fields fatal_checks_def Let_def check_ok pair_agrees_def)

text \<open>The flag and the reasons are kept in step: up to the last check every reason is fatal.\<close>

fun in_step :: "compat_locals \<Rightarrow> bool" where
  "in_step (reasons, ok) \<longleftrightarrow> list_all cmp_fatal reasons \<and> (ok \<longleftrightarrow> reasons = [])"

lemma check_in_step:
  "in_step l \<Longrightarrow> in_step (tokenizer_check p v l)" "in_step l \<Longrightarrow> in_step (vocabulary_check p v l)"
  "in_step l \<Longrightarrow> in_step (adapter_check p v l)" "in_step l \<Longrightarrow> in_step (executor_check p v l)"
  "in_step l \<Longrightarrow> in_step (protocol_check p v l)" "in_step l \<Longrightarrow> in_step (key_version_check n l)"
  by (cases l; auto simp: add_reason_def Let_def split: option.splits)+

lemma fatal_checks_in_step: "in_step (fatal_checks k)"
  unfolding fatal_checks_def Let_def by (intro check_in_step) simp

lemma reasons_decide:
  "dec_compatible (evaluate_compatibility k) \<longleftrightarrow> \<not> list_ex cmp_fatal (dec_reasons (evaluate_compatibility k))"
  "\<not> dec_compatible (evaluate_compatibility k) \<longleftrightarrow>
     (\<exists>r rs. dec_reasons (evaluate_compatibility k) = r # rs \<and> cmp_fatal r)"
  using fatal_checks_in_step [of k]
  by (cases "fatal_checks k"; cases "fst (fatal_checks k)"; simp add: evaluate_compatibility_def add_reason_def)+

lemma pair_agrees_sym: "pair_agrees p v \<longleftrightarrow> pair_agrees v p"
  by (auto simp: pair_agrees_def same_executor_kind_def)

section \<open>Properties\<close>

text \<open>
  C40 (compatibility_decision): the decision, which the code keeps in a flag beside the reasons, is
  positive exactly when the two identities have the same tokenizer (name, vocabulary and a non-null
  identifier) and the same adapter, their executor kinds are equal or one is Unknown, their executor
  protocol versions are equal or one is zero, and the key's version is not zero. Flag and reasons agree:
  it is negative exactly when some reason is fatal, and then the first reason, the one a cycle reports,
  is a fatal one. The decision does not depend on which of the two models drafts, nor on the revisions.
\<close>

theorem compatibility_decision:
  "dec_compatible (evaluate_compatibility k) =
     (pair_agrees (key_proposer k) (key_verifier k) \<and> key_protocol_version k \<noteq> 0) \<and>
   (\<not> dec_compatible (evaluate_compatibility k)) = list_ex cmp_fatal (dec_reasons (evaluate_compatibility k)) \<and>
   (\<not> dec_compatible (evaluate_compatibility k)) =
     (\<exists>r rs. dec_reasons (evaluate_compatibility k) = r # rs \<and> cmp_fatal r) \<and>
   dec_compatible (evaluate_compatibility (k\<lparr>key_proposer := key_verifier k, key_verifier := key_proposer k\<rparr>)) =
     dec_compatible (evaluate_compatibility k) \<and>
   dec_compatible (evaluate_compatibility (k\<lparr>key_proposer := (key_proposer k)\<lparr>mi_revision := rev1\<rparr>,
       key_verifier := (key_verifier k)\<lparr>mi_revision := rev2\<rparr>\<rparr>)) = dec_compatible (evaluate_compatibility k)"
  using reasons_decide [of k] pair_agrees_sym [of "key_verifier k"]
  by (simp add: compatible_iff pair_agrees_def)

end
