(* ===== verification/SF_Proposal.thy ===== *)
theory SF_Proposal
  imports SF_Model SF_Compat
begin

text \<open>
  Candidates, proposals and branches (\<^verbatim>\<open>candidate.hpp\<close>, \<^verbatim>\<open>proposal.hpp\<close>), the verification
  input and the acceptance, commit and rollback results (\<^verbatim>\<open>verification.hpp\<close>), and the executor
  inputs and results (\<^verbatim>\<open>executor.hpp\<close>).
\<close>

section \<open>Candidates (candidate.hpp)\<close>

record Token =
  tk_id :: TokenId
  tk_text :: "string option"

record CandidateSequence =
  cs_tokens :: "Token list"

type_synonym CandidateDepth = u32

definition mk_token :: "TokenId \<Rightarrow> Token" where
  "mk_token t = \<lparr>tk_id = t, tk_text = None\<rparr>"

definition cs_size :: "CandidateSequence \<Rightarrow> nat" where
  "cs_size c = length (cs_tokens c)"

definition cs_empty :: "CandidateSequence \<Rightarrow> bool" where
  "cs_empty c \<longleftrightarrow> cs_tokens c = []"

definition cs_depth :: "CandidateSequence \<Rightarrow> CandidateDepth" where
  "cs_depth c = of_nat (cs_size c)"

definition cs_ids :: "CandidateSequence \<Rightarrow> TokenId list" where
  "cs_ids c = map tk_id (cs_tokens c)"

definition content_hash :: "CandidateSequence \<Rightarrow> u64" where
  "content_hash c = foldl (\<lambda>h t. (h XOR ucast (tk_id t)) * 1099511628211) 1469598103934665603 (cs_tokens c)"

definition candidate_validate :: "CandidateSequence \<Rightarrow> CandidateDepth \<Rightarrow> CandidateDepth Result" where
  "candidate_validate c max_depth =
     (if cs_empty c then err (Validation EC_empty_candidate) ''candidate sequence is empty''
      else if unat max_depth < cs_size c then
        err (Validation EC_impossible_candidate_depth)
          (''candidate depth '' @ decimal (cs_size c) @ '' exceeds maximum '' @ word_string max_depth)
      else Ok (cs_depth c))"

record CandidateTokenIdentity =
  cti_tokenizer :: TokenizerId
  cti_vocab_size :: u32
  cti_format :: string

definition default_CandidateTokenIdentity :: CandidateTokenIdentity where
  "default_CandidateTokenIdentity = \<lparr>cti_tokenizer = null_id, cti_vocab_size = 0, cti_format = ''int32''\<rparr>"

section \<open>Proposals and branches (proposal.hpp)\<close>

record ProposalProvenance =
  pv_epoch :: CoordinatorEpoch
  pv_request :: RequestId
  pv_sequence :: SequenceId
  pv_attempt :: AttemptId
  pv_branch :: BranchId
  pv_cycle :: CycleId
  pv_proposer_worker :: WorkerId
  pv_proposer_boot :: WorkerBootId
  pv_proposer_model :: ModelIdentity
  pv_base_generation :: AuthGeneration
  pv_dispatch :: DispatchId

definition default_ProposalProvenance :: ProposalProvenance where
  "default_ProposalProvenance = \<lparr>pv_epoch = null_id, pv_request = null_id, pv_sequence = null_id,
     pv_attempt = null_id, pv_branch = null_id, pv_cycle = null_id, pv_proposer_worker = null_id,
     pv_proposer_boot = null_id, pv_proposer_model = default_ModelIdentity, pv_base_generation = null_id,
     pv_dispatch = null_id\<rparr>"

record Proposal =
  prop_id :: ProposalId
  prop_generation :: ProposalGeneration
  prop_provenance :: ProposalProvenance
  prop_candidate :: CandidateSequence
  prop_token_identity :: CandidateTokenIdentity
  prop_base_state :: StateRef
  prop_base_state_generation :: StateGeneration
  prop_speculative_state :: StateRef
  prop_speculative_state_desc :: StateDescriptor
  prop_compute_spent :: u64
  prop_memory_held :: u64
  prop_finalized :: bool
  prop_eligible_for_verification :: bool
  prop_committed :: bool

definition default_Proposal :: Proposal where
  "default_Proposal = \<lparr>prop_id = null_id, prop_generation = null_id,
     prop_provenance = default_ProposalProvenance, prop_candidate = \<lparr>cs_tokens = []\<rparr>,
     prop_token_identity = default_CandidateTokenIdentity, prop_base_state = default_StateRef,
     prop_base_state_generation = null_id, prop_speculative_state = default_StateRef,
     prop_speculative_state_desc = default_StateDescriptor, prop_compute_spent = 0, prop_memory_held = 0,
     prop_finalized = False, prop_eligible_for_verification = False, prop_committed = False\<rparr>"

record Branch =
  br_id :: BranchId
  br_request :: RequestId
  br_sequence :: SequenceId
  br_attempt :: AttemptId
  br_cycle :: CycleId
  br_base_generation :: AuthGeneration
  br_base_state :: StateRef
  br_proposer :: ModelIdentity
  br_speculative_state :: StateDescriptor
  br_latest_proposal :: "ProposalId option"
  br_proposal_count :: nat
  br_retired :: bool
  br_selected :: bool

definition default_Branch :: Branch where
  "default_Branch = \<lparr>br_id = null_id, br_request = null_id, br_sequence = null_id, br_attempt = null_id,
     br_cycle = null_id, br_base_generation = null_id, br_base_state = default_StateRef,
     br_proposer = default_ModelIdentity, br_speculative_state = default_StateDescriptor,
     br_latest_proposal = None, br_proposal_count = 0, br_retired = False, br_selected = False\<rparr>"

section \<open>Verification input and results (verification.hpp)\<close>

record VerificationInput =
  vin_request :: RequestId
  vin_sequence :: SequenceId
  vin_attempt :: AttemptId
  vin_branch :: BranchId
  vin_proposal :: ProposalId
  vin_proposal_generation :: ProposalGeneration
  vin_authoritative_generation :: AuthGeneration
  vin_authoritative_state :: StateRef
  vin_authoritative_state_generation :: StateGeneration
  vin_candidate :: CandidateSequence
  vin_candidate_identity :: CandidateTokenIdentity
  vin_proposer :: ModelIdentity
  vin_verifier :: ModelIdentity
  vin_compatibility :: ModelPairCompatibilityKey
  vin_verification_state :: StateRef
  vin_dispatch :: DispatchId
  vin_epoch :: CoordinatorEpoch
  vin_verifier_worker :: WorkerId
  vin_verifier_boot :: WorkerBootId

definition default_VerificationInput :: VerificationInput where
  "default_VerificationInput = \<lparr>vin_request = null_id, vin_sequence = null_id, vin_attempt = null_id,
     vin_branch = null_id, vin_proposal = null_id, vin_proposal_generation = null_id,
     vin_authoritative_generation = null_id, vin_authoritative_state = default_StateRef,
     vin_authoritative_state_generation = null_id, vin_candidate = \<lparr>cs_tokens = []\<rparr>,
     vin_candidate_identity = default_CandidateTokenIdentity, vin_proposer = default_ModelIdentity,
     vin_verifier = default_ModelIdentity, vin_compatibility = default_CompatibilityKey,
     vin_verification_state = default_StateRef, vin_dispatch = null_id, vin_epoch = null_id,
     vin_verifier_worker = null_id, vin_verifier_boot = null_id\<rparr>"

datatype AcceptanceOutcome = AO_FullAccept | AO_PartialAccept | AO_RejectAll | AO_VerifierFailure

record AcceptanceResult =
  acc_outcome :: AcceptanceOutcome
  acc_candidate_length :: u32
  acc_accepted_prefix :: u32
  acc_first_rejection_index :: u32
  acc_per_position :: "u8 list"
  acc_retryable :: bool
  acc_terminal :: bool
  acc_next_generation :: AuthGeneration
  acc_next_state :: StateRef
  acc_next_state_generation :: StateGeneration
  acc_execution_measured_ns :: u64
  acc_verifier_note :: string

definition default_AcceptanceResult :: AcceptanceResult where
  "default_AcceptanceResult = \<lparr>acc_outcome = AO_RejectAll, acc_candidate_length = 0,
     acc_accepted_prefix = 0, acc_first_rejection_index = 0, acc_per_position = [], acc_retryable = False,
     acc_terminal = False, acc_next_generation = null_id, acc_next_state = default_StateRef,
     acc_next_state_generation = null_id, acc_execution_measured_ns = 0, acc_verifier_note = []\<rparr>"

definition acc_rejected_count :: "AcceptanceResult \<Rightarrow> u32" where
  "acc_rejected_count a = acc_candidate_length a - acc_accepted_prefix a"

definition acc_fully_accepted :: "AcceptanceResult \<Rightarrow> bool" where
  "acc_fully_accepted a \<longleftrightarrow> acc_outcome a = AO_FullAccept"

definition acc_fully_rejected :: "AcceptanceResult \<Rightarrow> bool" where
  "acc_fully_rejected a \<longleftrightarrow> acc_outcome a = AO_RejectAll"

definition acc_is_failure :: "AcceptanceResult \<Rightarrow> bool" where
  "acc_is_failure a \<longleftrightarrow> acc_outcome a = AO_VerifierFailure"

record RejectionResult =
  rej_rejected_all :: bool
  rej_accepted_prefix :: u32
  rej_rejected_from_index :: u32
  rej_rejected_tokens :: u32
  rej_reason :: string

definition default_RejectionResult :: RejectionResult where
  "default_RejectionResult = \<lparr>rej_rejected_all = True, rej_accepted_prefix = 0, rej_rejected_from_index = 0,
     rej_rejected_tokens = 0, rej_reason = []\<rparr>"

record CommitResult =
  com_committed_tokens :: u32
  com_accepted_prefix :: u32
  com_rejected_tokens :: u32
  com_new_generation :: AuthGeneration
  com_new_state :: StateRef
  com_new_state_generation :: StateGeneration
  com_success :: bool
  com_detail :: string

definition default_CommitResult :: CommitResult where
  "default_CommitResult = \<lparr>com_committed_tokens = 0, com_accepted_prefix = 0, com_rejected_tokens = 0,
     com_new_generation = null_id, com_new_state = default_StateRef, com_new_state_generation = null_id,
     com_success = False, com_detail = []\<rparr>"

record RollbackResult =
  rbk_rejected_tokens :: u32
  rbk_accepted_prefix :: u32
  rbk_restored_generation :: AuthGeneration
  rbk_restored_state :: StateRef
  rbk_restored_state_generation :: StateGeneration
  rbk_retired_branches :: u32
  rbk_released_reservations :: u32
  rbk_success :: bool
  rbk_detail :: string

definition default_RollbackResult :: RollbackResult where
  "default_RollbackResult = \<lparr>rbk_rejected_tokens = 0, rbk_accepted_prefix = 0,
     rbk_restored_generation = null_id, rbk_restored_state = default_StateRef,
     rbk_restored_state_generation = null_id, rbk_retired_branches = 0, rbk_released_reservations = 0,
     rbk_success = False, rbk_detail = []\<rparr>"

record ProposalPlan =
  plan_request :: RequestId
  plan_sequence :: SequenceId
  plan_attempt :: AttemptId
  plan_cycle :: CycleId
  plan_branch :: BranchId
  plan_proposal :: ProposalId
  plan_depth :: CandidateDepth
  plan_branch_count :: u32
  plan_proposer :: ModelIdentity
  plan_proposer_worker :: WorkerId
  plan_dispatch :: DispatchId
  plan_rationale :: string

definition default_ProposalPlan :: ProposalPlan where
  "default_ProposalPlan = \<lparr>plan_request = null_id, plan_sequence = null_id, plan_attempt = null_id,
     plan_cycle = null_id, plan_branch = null_id, plan_proposal = null_id, plan_depth = 0,
     plan_branch_count = 1, plan_proposer = default_ModelIdentity, plan_proposer_worker = null_id,
     plan_dispatch = null_id, plan_rationale = []\<rparr>"

record VerificationPlan =
  vpl_request :: RequestId
  vpl_sequence :: SequenceId
  vpl_attempt :: AttemptId
  vpl_branch :: BranchId
  vpl_proposal :: ProposalId
  vpl_proposal_generation :: ProposalGeneration
  vpl_verifier :: ModelIdentity
  vpl_verifier_worker :: WorkerId
  vpl_dispatch :: DispatchId
  vpl_rationale :: string

definition default_VerificationPlan :: VerificationPlan where
  "default_VerificationPlan = \<lparr>vpl_request = null_id, vpl_sequence = null_id, vpl_attempt = null_id,
     vpl_branch = null_id, vpl_proposal = null_id, vpl_proposal_generation = null_id,
     vpl_verifier = default_ModelIdentity, vpl_verifier_worker = null_id, vpl_dispatch = null_id,
     vpl_rationale = []\<rparr>"

record ProposalDispatch =
  pdi_plan :: ProposalPlan
  pdi_base_state :: StateRef
  pdi_base_generation :: AuthGeneration
  pdi_depth :: CandidateDepth
  pdi_branch_count :: u32

definition default_ProposalDispatch :: ProposalDispatch where
  "default_ProposalDispatch = \<lparr>pdi_plan = default_ProposalPlan, pdi_base_state = default_StateRef,
     pdi_base_generation = null_id, pdi_depth = 0, pdi_branch_count = 1\<rparr>"

record VerificationDispatch =
  vdi_plan :: VerificationPlan
  vdi_input :: VerificationInput

definition default_VerificationDispatch :: VerificationDispatch where
  "default_VerificationDispatch = \<lparr>vdi_plan = default_VerificationPlan, vdi_input = default_VerificationInput\<rparr>"

section \<open>Executor inputs and results (executor.hpp)\<close>

datatype ProposalOutcome = PO_Success | PO_RetryableFailure | PO_NonRetryableFailure | PO_Cancelled
  | PO_Expired | PO_StaleAuthorityRejected

record ProposalResult =
  pres_outcome :: ProposalOutcome
  pres_candidate :: "CandidateSequence option"
  pres_speculative_state :: "StateDescriptor option"
  pres_compute_spent :: u64
  pres_memory_held :: u64
  pres_execution_measured_ns :: u64
  pres_error :: ErrorCode
  pres_detail :: string

definition default_ProposalResult :: ProposalResult where
  "default_ProposalResult = \<lparr>pres_outcome = PO_NonRetryableFailure, pres_candidate = None,
     pres_speculative_state = None, pres_compute_spent = 0, pres_memory_held = 0,
     pres_execution_measured_ns = 0, pres_error = EC_ok, pres_detail = []\<rparr>"

definition pres_success :: "ProposalResult \<Rightarrow> bool" where
  "pres_success r \<longleftrightarrow> pres_outcome r = PO_Success"

definition pres_retryable :: "ProposalResult \<Rightarrow> bool" where
  "pres_retryable r \<longleftrightarrow> pres_outcome r = PO_RetryableFailure"

record ProposalInput =
  pin_provenance :: ProposalProvenance
  pin_base_state :: StateRef
  pin_base_generation :: AuthGeneration
  pin_depth :: CandidateDepth
  pin_branch_index :: u32
  pin_branch_count :: u32
  pin_deterministic_seed :: u64
  pin_compute_budget :: u64
  pin_memory_budget :: u64

definition default_ProposalInput :: ProposalInput where
  "default_ProposalInput = \<lparr>pin_provenance = default_ProposalProvenance, pin_base_state = default_StateRef,
     pin_base_generation = null_id, pin_depth = 0, pin_branch_index = 0, pin_branch_count = 1,
     pin_deterministic_seed = 0, pin_compute_budget = 0, pin_memory_budget = 0\<rparr>"

text \<open>The two executor interfaces; both are documented to be deterministic, so a function each.\<close>

type_synonym proposer = "ProposalInput \<Rightarrow> ProposalResult Result"
type_synonym verifier = "VerificationInput \<Rightarrow> AcceptanceResult Result"

section \<open>Facts\<close>

lemma cs_simps [simp]:
  "cs_size \<lparr>cs_tokens = ts\<rparr> = length ts" "cs_empty \<lparr>cs_tokens = ts\<rparr> \<longleftrightarrow> ts = []"
  "cs_ids \<lparr>cs_tokens = map mk_token ids\<rparr> = ids"
  by (simp_all add: cs_size_def cs_empty_def cs_ids_def mk_token_def o_def)

lemma length_cs_ids [simp]: "length (cs_ids c) = cs_size c"
  by (simp add: cs_ids_def cs_size_def)

lemma candidate_validate_Ok:
  "candidate_validate c m = Ok d \<longleftrightarrow> 0 < cs_size c \<and> cs_size c \<le> unat m \<and> d = cs_depth c"
  by (auto simp: candidate_validate_def cs_empty_def cs_size_def)

lemma candidate_validate_depth:
  assumes "candidate_validate c m = Ok d" shows "unat d = cs_size c"
proof -
  from assms have "cs_size c < 2 ^ LENGTH(32)"
    using unsigned_less [of m, where ?'a = nat] by (simp add: candidate_validate_Ok)
  with assms show ?thesis by (simp add: candidate_validate_Ok cs_depth_def unat_of_nat)
qed

end
