(* ===== verification/SF_Scheduler.thy ===== *)
theory SF_Scheduler
  imports SF_Lifecycle SF_Policy SF_Proposal
begin

text \<open>
  Speculation requests and cycle outcomes (\<^verbatim>\<open>request.hpp\<close>) and the scheduler
  (\<^verbatim>\<open>SpeculationScheduler\<close> in \<^verbatim>\<open>fabric.hpp\<close> and \<^verbatim>\<open>fabric.cpp\<close>): the depth and branch plan of a
  cycle and the backpressure decision. \<open>plan_proposal\<close> is undefined where the adaptive depth is.
\<close>

section \<open>Requests and outcomes (request.hpp)\<close>

record SpeculationRequest =
  rq_id :: RequestId
  rq_sequence :: SequenceId
  rq_tenant :: TenantId
  rq_client :: ClientId
  rq_target_model :: ModelIdentity
  rq_draft_model :: ModelIdentity
  rq_pair_key :: ModelPairCompatibilityKey
  rq_prefix :: "u32 list"
  rq_max_attempts :: u32
  rq_deadline_ns :: "u64 option"
  rq_policy :: ProposalPolicy
  rq_prompt_label :: string

definition default_SpeculationRequest :: SpeculationRequest where
  "default_SpeculationRequest = \<lparr>rq_id = null_id, rq_sequence = null_id, rq_tenant = null_id,
     rq_client = null_id, rq_target_model = default_ModelIdentity, rq_draft_model = default_ModelIdentity,
     rq_pair_key = default_CompatibilityKey, rq_prefix = [], rq_max_attempts = 3, rq_deadline_ns = None,
     rq_policy = default_ProposalPolicy, rq_prompt_label = []\<rparr>"

datatype CycleOutcomeKind = CK_ProposalSuccess | CK_ProposalRetryableFailure | CK_ProposalNonRetryableFailure
  | CK_VerificationSuccessFullAccept | CK_VerificationSuccessPartialAccept | CK_VerificationRejectAll
  | CK_VerificationRetryableFailure | CK_VerificationNonRetryableFailure | CK_Cancelled | CK_Expired
  | CK_StaleAuthorityRejected | CK_Superseded

record CycleOutcome =
  co_outcome :: CycleOutcomeKind
  co_phase :: SpeculativePhase
  co_acceptance :: AcceptanceOutcome
  co_commit :: CommitResult
  co_rollback :: RollbackResult
  co_proposal :: ProposalId
  co_branch :: BranchId
  co_proposed_tokens :: u32
  co_accepted_tokens :: u32
  co_rejected_tokens :: u32
  co_depth :: u32
  co_summary :: string
  co_error :: ErrorCode

definition default_CycleOutcome :: CycleOutcome where
  "default_CycleOutcome = \<lparr>co_outcome = CK_ProposalSuccess, co_phase = Ph_Ready, co_acceptance = AO_RejectAll,
     co_commit = default_CommitResult, co_rollback = default_RollbackResult, co_proposal = null_id,
     co_branch = null_id, co_proposed_tokens = 0, co_accepted_tokens = 0, co_rejected_tokens = 0,
     co_depth = 0, co_summary = [], co_error = EC_ok\<rparr>"

definition co_committed :: "CycleOutcome \<Rightarrow> bool" where
  "co_committed o1 \<longleftrightarrow> com_success (co_commit o1)"

definition co_rolled_back :: "CycleOutcome \<Rightarrow> bool" where
  "co_rolled_back o1 \<longleftrightarrow> rbk_success (co_rollback o1)"

definition make_outcome :: "CycleOutcomeKind \<Rightarrow> CycleOutcome" where
  "make_outcome k = default_CycleOutcome\<lparr>co_outcome := k\<rparr>"

section \<open>SpeculationScheduler\<close>

record SpeculationScheduler =
  sch_policy :: ProposalPolicy
  sch_adaptive :: AdaptiveDepth

definition new_scheduler :: "ProposalPolicy \<Rightarrow> SpeculationScheduler" where
  "new_scheduler p = \<lparr>sch_policy = p, sch_adaptive = default_AdaptiveDepth\<rparr>"

definition set_policy :: "ProposalPolicy \<Rightarrow> SpeculationScheduler \<Rightarrow> SpeculationScheduler" where
  "set_policy p s = s\<lparr>sch_policy := p\<rparr>"

definition plan_rationale_of :: "SpeculationScheduler \<Rightarrow> SpeculationRequest \<Rightarrow> u32 \<Rightarrow> u32 \<Rightarrow> ProposalRationale" where
  "plan_rationale_of s req depth branches =
     \<lparr>rat_depth = depth, rat_branch_count = branches,
      rat_depth_reason =
        (if pol_adaptive_depth_enabled (sch_policy s)
         then ''adaptive depth '' @ word_string depth @ '' from acceptance history''
         else ''fixed policy depth '' @ word_string depth),
      rat_branch_reason = ''branch count '' @ word_string branches @ '' from policy'',
      rat_proposer_reason = ''draft model '' @ mi_name (rq_draft_model req),
      rat_verifier_reason = ''target model '' @ mi_name (rq_target_model req)\<rparr>"

text \<open>The depth of the plan: the fixed caps first, then the adaptive choice in their place.\<close>

definition planned_depth :: "SpeculationScheduler \<Rightarrow> u32 \<Rightarrow> u32 \<Rightarrow> double \<Rightarrow> u32 cpp" where
  "planned_depth s depth_headroom memory_headroom saturation =
     (let pol = sch_policy s;
          d0 = pol_max_depth pol;
          d1 = (if pol_latency_class pol = LC_Interactive then min 2 (pol_max_depth pol) else d0);
          d2 = (if depth_headroom \<noteq> 0 then min d1 depth_headroom else d1)
      in map_option (max 1)
           (if pol_adaptive_depth_enabled pol then choose_depth (sch_adaptive s) pol memory_headroom saturation
            else Some d2))"

definition plan_proposal :: "SpeculationScheduler \<Rightarrow> SpeculationRequest \<Rightarrow> AuthGeneration \<Rightarrow> u32 \<Rightarrow> u32 \<Rightarrow>
    double \<Rightarrow> (ProposalPlan \<times> ProposalRationale) cpp" where
  "plan_proposal s req auth_generation depth_headroom memory_headroom saturation =
     do {
        depth \<leftarrow> planned_depth s depth_headroom memory_headroom saturation;
        let branches = max 1 (pol_max_branches (sch_policy s));
        let rationale = plan_rationale_of s req depth branches;
        Some (default_ProposalPlan\<lparr>plan_request := rq_id req, plan_sequence := rq_sequence req,
                plan_attempt := null_id, plan_depth := depth, plan_branch_count := branches,
                plan_proposer := rq_draft_model req,
                plan_dispatch := StrongId ((id_get (rq_id req) * 0x100000001B3) XOR
                                           (id_get auth_generation * 0x9E3779B97F4A7C15)),
                plan_rationale := rat_depth_reason rationale @ ''; '' @ rat_proposer_reason rationale\<rparr>,
              rationale)
     }"

definition check_backpressure :: "SpeculationScheduler \<Rightarrow> SpeculationRequest \<Rightarrow> u32 \<Rightarrow> u32 \<Rightarrow> u64 \<Rightarrow> double \<Rightarrow>
    BackpressureDecision" where
  "check_backpressure s req active_branches outstanding memory_headroom ratio =
     (let pol = sch_policy s in
      if \<not> pol_speculating_enabled pol then bp_deny BP_None ''speculation disabled by policy''
      else if pol_max_outstanding_speculative_work pol \<le> outstanding \<and> pol_max_outstanding_speculative_work pol \<noteq> 0
      then bp_deny BP_OutstandingLimit ''outstanding speculative work limit''
      else if memory_headroom = 0 then bp_deny BP_MemoryHeadroom ''no memory headroom''
      else if 0 < pol_min_economic_acceptance_ratio pol \<and> ratio < pol_min_economic_acceptance_ratio pol
      then bp_deny BP_EconomicsBelowThreshold ''acceptance economics below threshold''
      else bp_allow)"

section \<open>Facts\<close>

text \<open>When the depth choice is defined: a positive bound that fits \<^verbatim>\<open>int\<close>, or no history to adapt to.\<close>

definition depth_defined :: "SpeculationScheduler \<Rightarrow> bool" where
  "depth_defined s \<longleftrightarrow> pol_adaptive_depth_enabled (sch_policy s) \<longrightarrow> ad_history (sch_adaptive s) \<noteq> [] \<longrightarrow>
     0 < unat (pol_max_depth (sch_policy s)) \<and> unat (pol_max_depth (sch_policy s)) < 2 ^ 31"

lemma choose_depth_defined:
  "(\<exists>d. choose_depth a p h t = Some d) \<longleftrightarrow>
     (pol_adaptive_depth_enabled p \<longrightarrow> ad_history a \<noteq> [] \<longrightarrow>
      0 < unat (pol_max_depth p) \<and> unat (pol_max_depth p) < 2 ^ 31)"
proof -
  have "1 \<le> sint (pol_max_depth p) \<longleftrightarrow> 0 < unat (pol_max_depth p) \<and> unat (pol_max_depth p) < 2 ^ 31"
  proof (cases "unat (pol_max_depth p) < 2 ^ 31")
    case True
    then show ?thesis using sint_small [of "pol_max_depth p"] by (auto simp del: of_nat_unat)
  next
    case False
    have "sint (pol_max_depth p) < 0"
    proof -
      let ?u = "uint (pol_max_depth p)"
      have "?u < 2 ^ 32" using unsigned_less [of "pol_max_depth p", where ?'a = int] by simp
      moreover have "2 ^ 31 \<le> ?u" using False by (simp add: unat_eq_nat_uint del: nat_uint_eq)
      ultimately have "?u div 2147483648 = 1" by (intro int_div_pos_eq [of _ _ _ "?u - 2147483648"]) simp_all
      then have "bit ?u 31" by (simp add: bit_iff_odd)
      then show ?thesis by (simp add: sint_uint signed_take_bit_negative_iff)
    qed
    with False show ?thesis by auto
  qed
  then show ?thesis by (auto simp: choose_depth_def clamp_int_def Let_def)
qed

lemma plan_proposal_defined: "(\<exists>r. plan_proposal s req g dh mh t = Some r) \<longleftrightarrow> depth_defined s"
  using choose_depth_defined [of "sch_adaptive s" "sch_policy s" mh t]
  by (auto simp: plan_proposal_def planned_depth_def depth_defined_def Let_def split: bind_splits)

lemma plan_proposal_fields:
  assumes "plan_proposal s req g dh mh t = Some (plan, rat)"
  shows "1 \<le> plan_depth plan" "1 \<le> plan_branch_count plan"
    "plan_branch_count plan = max 1 (pol_max_branches (sch_policy s))"
    "rat_depth rat = plan_depth plan"
  using assms by (auto simp: plan_proposal_def planned_depth_def Let_def plan_rationale_of_def split: bind_splits)

lemma plan_depth_planned:
  "map_option (plan_depth \<circ> fst) (plan_proposal s req g dh mh t) = planned_depth s dh mh t"
  by (cases "planned_depth s dh mh t") (simp_all add: plan_proposal_def Let_def)

lemma backpressure_blocked_iff:
  "bp_blocked (check_backpressure s req a n m r) \<longleftrightarrow>
     \<not> pol_speculating_enabled (sch_policy s) \<or>
     (pol_max_outstanding_speculative_work (sch_policy s) \<noteq> 0 \<and> pol_max_outstanding_speculative_work (sch_policy s) \<le> n) \<or>
     m = 0 \<or> (0 < pol_min_economic_acceptance_ratio (sch_policy s) \<and> r < pol_min_economic_acceptance_ratio (sch_policy s))"
  by (auto simp: check_backpressure_def Let_def bp_deny_def bp_allow_def)

section \<open>Properties\<close>

definition history_ok :: "AdaptiveDepth \<Rightarrow> bool" where
  "history_ok a \<longleftrightarrow> list_all (\<lambda>v. 0 \<le> v \<and> v \<le> 1) (ad_history a) \<and> length (ad_history a) \<le> unat (ad_window a)"

lemma history_bound: "history_ok a \<Longrightarrow> length (ad_history a) \<le> 2 ^ 53"
  using unsigned_less [of "ad_window a", where ?'a = nat] by (simp add: history_ok_def)

text \<open>
  With a history of ratios in the unit interval and a depth bound between 1 and
  \<open>2^31 - 1\<close>, a plan always exists; its depth lies between 1 and the bound, its branch count is the
  policy's (at least 1), and the rationale reports the planned depth.
\<close>

lemma plan_in_range:
  assumes "history_ok (sch_adaptive s)" and "0 < unat (pol_max_depth (sch_policy s))"
    and "unat (pol_max_depth (sch_policy s)) < 2 ^ 31"
  shows "\<exists>plan rat. plan_proposal s req g dh mh t = Some (plan, rat) \<and> 1 \<le> unat (plan_depth plan) \<and>
    unat (plan_depth plan) \<le> unat (pol_max_depth (sch_policy s)) \<and>
    plan_branch_count plan = max 1 (pol_max_branches (sch_policy s)) \<and> rat_depth rat = plan_depth plan"
proof -
  let ?m = "pol_max_depth (sch_policy s)"
  have h: "\<forall>v\<in>set (ad_history (sch_adaptive s)). 0 \<le> v \<and> v \<le> 1" using assms(1) by (simp add: history_ok_def list_all_iff)
  obtain c where c: "choose_depth (sch_adaptive s) (sch_policy s) mh t = Some c" "unat c \<le> unat ?m"
    using choose_depth_in_range [OF h history_bound [OF assms(1)] assms(2,3)] by blast
  have one: "(1::u32) \<le> ?m" using assms(2) by (simp add: word_le_nat_alt)
  have "\<exists>d. planned_depth s dh mh t = Some d \<and> d \<le> ?m"
    using c one by (auto simp: planned_depth_def Let_def word_le_nat_alt min_def max_def)
  then obtain d where d: "planned_depth s dh mh t = Some d" "d \<le> ?m" by blast
  with plan_depth_planned [of s req g dh mh t] obtain plan rat where
    p: "plan_proposal s req g dh mh t = Some (plan, rat)" "plan_depth plan = d" by auto
  with d(2) plan_proposal_fields [OF p(1)] show ?thesis by (auto simp: word_le_nat_alt)
qed

lemma plan_in_range_example:
  "\<exists>plan rat. plan_proposal (new_scheduler default_ProposalPolicy) default_SpeculationRequest null_id 0 0 0 = Some (plan, rat) \<and>
     unat (plan_depth plan) \<le> 4"
  using plan_in_range [of "new_scheduler default_ProposalPolicy" default_SpeculationRequest null_id 0 0 0]
  by (auto simp: new_scheduler_def default_AdaptiveDepth_def default_ProposalPolicy_def history_ok_def)

text \<open>
  While adaptive depth is enabled, the planned depth does not depend on the
  latency class nor on the depth headroom: the cap of two tokens for interactive requests and the
  cap by the available headroom are computed and then overwritten. An interactive policy with
  bound 8 and no history yet plans all 8 tokens, with a headroom of one.
\<close>

lemma latency_cap_ignored:
  "(pol_adaptive_depth_enabled (sch_policy s) \<longrightarrow>
      map_option (plan_depth \<circ> fst) (plan_proposal (s\<lparr>sch_policy := (sch_policy s)\<lparr>pol_latency_class := c\<rparr>\<rparr>) req g dh mh t) =
      map_option (plan_depth \<circ> fst) (plan_proposal s req g 0 mh t)) \<and>
   map_option (plan_depth \<circ> fst) (plan_proposal
      (new_scheduler (default_ProposalPolicy\<lparr>pol_max_depth := 8, pol_latency_class := LC_Interactive\<rparr>)) req g 1 mh t) = Some 8"
proof -
  have choose: "choose_depth a (p\<lparr>pol_latency_class := c\<rparr>) mh t = choose_depth a p mh t" for a p
    by (simp add: choose_depth_def)
  show ?thesis
    unfolding plan_depth_planned
    by (simp add: planned_depth_def Let_def choose new_scheduler_def default_AdaptiveDepth_def
        default_ProposalPolicy_def choose_depth_def [of "\<lparr>ad_history = [], ad_window = 32\<rparr>"])
qed

lemma latency_cap_ignored_example:
  "map_option (plan_depth \<circ> fst) (plan_proposal
     (new_scheduler (default_ProposalPolicy\<lparr>pol_latency_class := LC_Interactive\<rparr>)) default_SpeculationRequest null_id 1 0 0) =
   map_option (plan_depth \<circ> fst) (plan_proposal (new_scheduler default_ProposalPolicy) default_SpeculationRequest null_id 0 0 0)"
  using latency_cap_ignored [of "new_scheduler default_ProposalPolicy" LC_Interactive default_SpeculationRequest null_id 1 0 0]
  by (simp add: new_scheduler_def default_ProposalPolicy_def)

end
