(* ===== verification/SF_Fabric.thy ===== *)
theory SF_Fabric
  imports SF_Scheduler
begin

text \<open>
  The runtime (\<^verbatim>\<open>SpeculationFabric\<close> in \<^verbatim>\<open>fabric.hpp\<close> and \<^verbatim>\<open>fabric.cpp\<close>): its state and every
  operation except \<^verbatim>\<open>run_cycle\<close>. The members of \<^verbatim>\<open>SpeculationFabric\<close> and of its \<^verbatim>\<open>Impl\<close> are one
  record; the outer scheduler object and the persistence pointer are never used by the code and
  are left out. The pluggable clock is the sequence of values that successive calls of
  \<^verbatim>\<open>monotonic_ns\<close> return, with a counter of the calls made. Every operation holds the mutex from
  start to end, so it is one function from state to result and state.
\<close>

section \<open>Data\<close>

record Event =
  evt_id :: EventId
  evt_timestamp_ns :: u64
  evt_request :: RequestId
  evt_type :: string
  evt_detail :: string
  evt_json :: string

record Stats =
  st_requests_eligible_for_speculation :: u64
  st_speculative_cycles_started :: u64
  st_speculation_bypasses :: u64
  st_proposals_produced :: u64
  st_proposals_rejected_stale :: u64
  st_verifications_run :: u64
  st_tokens_proposed :: u64
  st_tokens_accepted :: u64
  st_tokens_rejected :: u64
  st_full_accept_count :: u64
  st_partial_accept_count :: u64
  st_full_reject_count :: u64
  st_rollback_count :: u64
  st_retry_count :: u64
  st_cancel_count :: u64
  st_stale_rejections_by_epoch :: u64
  st_stale_rejections_by_boot :: u64
  st_stale_rejections_by_attempt :: u64
  st_stale_rejections_by_generation :: u64
  st_acceptance_ratio :: double
  st_speculative_reservations_current :: u64
  st_slots_outstanding :: u64

definition default_Stats :: Stats where
  "default_Stats = \<lparr>st_requests_eligible_for_speculation = 0, st_speculative_cycles_started = 0,
     st_speculation_bypasses = 0, st_proposals_produced = 0, st_proposals_rejected_stale = 0,
     st_verifications_run = 0, st_tokens_proposed = 0, st_tokens_accepted = 0, st_tokens_rejected = 0,
     st_full_accept_count = 0, st_partial_accept_count = 0, st_full_reject_count = 0, st_rollback_count = 0,
     st_retry_count = 0, st_cancel_count = 0, st_stale_rejections_by_epoch = 0,
     st_stale_rejections_by_boot = 0, st_stale_rejections_by_attempt = 0,
     st_stale_rejections_by_generation = 0, st_acceptance_ratio = 0,
     st_speculative_reservations_current = 0, st_slots_outstanding = 0\<rparr>"

record Snapshot =
  snap_taken_at :: string
  snap_monotonic_ns :: u64
  snap_epoch :: CoordinatorEpoch
  snap_active_requests :: nat
  snap_active_branches :: nat
  snap_active_reservations :: nat
  snap_active_proposals :: nat
  snap_summaries :: "string list"

record Explain =
  ex_question :: string
  ex_answer_text :: string
  ex_answer_json :: string
  ex_reasons :: "string list"

record Config =
  cfg_proposer :: "proposer option"
  cfg_verifier :: "verifier option"
  cfg_clock :: "nat \<Rightarrow> u64"
  cfg_policy :: ProposalPolicy
  cfg_epoch :: CoordinatorEpoch

record RequestState =
  rs_req :: SpeculationRequest
  rs_attempt :: AttemptId
  rs_epoch :: CoordinatorEpoch
  rs_auth_gen :: AuthGeneration
  rs_auth_state :: StateRef
  rs_auth_state_gen :: StateGeneration
  rs_committed :: "u32 list"
  rs_branches :: "Branch list"
  rs_proposals :: "Proposal list"
  rs_reservations :: "Reservation list"
  rs_cycle :: SpeculativeStateMachine
  rs_cancelled :: bool
  rs_terminal :: bool
  rs_completed_cycles :: u32
  rs_retry_count :: u32
  rs_events :: "Event list"

definition default_RequestState :: RequestState where
  "default_RequestState = \<lparr>rs_req = default_SpeculationRequest, rs_attempt = null_id, rs_epoch = null_id,
     rs_auth_gen = null_id, rs_auth_state = default_StateRef, rs_auth_state_gen = null_id, rs_committed = [],
     rs_branches = [], rs_proposals = [], rs_reservations = [], rs_cycle = machine_at Ph_Ready,
     rs_cancelled = False, rs_terminal = False, rs_completed_cycles = 0, rs_retry_count = 0, rs_events = []\<rparr>"

record Fabric =
  fb_cfg :: Config
  im_cfg :: Config
  im_scheduler :: SpeculationScheduler
  im_requests :: "(RequestId \<times> RequestState) list"
  im_stats :: Stats
  im_global_events :: "Event list"
  im_reads :: nat

definition new_fabric :: "Config \<Rightarrow> Fabric" where
  "new_fabric cfg = \<lparr>fb_cfg = cfg, im_cfg = cfg, im_scheduler = new_scheduler (cfg_policy cfg),
     im_requests = [], im_stats = default_Stats, im_global_events = [], im_reads = 0\<rparr>"

abbreviation lookup :: "Fabric \<Rightarrow> RequestId \<Rightarrow> RequestState option" where
  "lookup f rid \<equiv> map_of (im_requests f) rid"

definition set_request :: "RequestId \<Rightarrow> RequestState \<Rightarrow> Fabric \<Rightarrow> Fabric" where
  "set_request rid rs f = f\<lparr>im_requests := map_put rid rs (im_requests f)\<rparr>"

definition map_stats :: "(Stats \<Rightarrow> Stats) \<Rightarrow> Fabric \<Rightarrow> Fabric" where
  "map_stats g f = f\<lparr>im_stats := g (im_stats f)\<rparr>"

section \<open>Helpers of the implementation\<close>

definition json_escape_char :: "char \<Rightarrow> string" where
  "json_escape_char c =
     (if c = CHR 0x22 then [CHR 0x5C, CHR 0x22]
      else if c = CHR 0x5C then [CHR 0x5C, CHR 0x5C]
      else if c = CHR 0x0A then [CHR 0x5C, CHR 0x6E]
      else if c = CHR 0x09 then [CHR 0x5C, CHR 0x74]
      else [c])"

definition json_escape :: "string \<Rightarrow> string" where
  "json_escape s = concat (map json_escape_char s)"

definition read_clock :: "Fabric \<Rightarrow> u64 \<times> Fabric" where
  "read_clock f = (cfg_clock (im_cfg f) (im_reads f), f\<lparr>im_reads := Suc (im_reads f)\<rparr>)"

definition push_event :: "RequestId \<Rightarrow> string \<Rightarrow> string \<Rightarrow> string \<Rightarrow> Fabric \<Rightarrow> Fabric" where
  "push_event rid ty detail json f =
     (let (now, f1) = read_clock f;
          e = \<lparr>evt_id = StrongId (of_nat (length (im_global_events f1) + 1)), evt_timestamp_ns = now,
               evt_request = rid, evt_type = ty, evt_detail = detail, evt_json = json\<rparr>;
          f2 = f1\<lparr>im_global_events := push_bounded 2000 e (im_global_events f1)\<rparr>
      in case lookup f2 rid of
           None \<Rightarrow> f2
         | Some rs \<Rightarrow> set_request rid (rs\<lparr>rs_events := push_bounded 512 e (rs_events rs)\<rparr>) f2)"

text \<open>The authority fence; the second component counts a stale rejection.\<close>

definition check_authority :: "RequestState \<Rightarrow> CoordinatorEpoch \<Rightarrow> AttemptId \<Rightarrow> AuthGeneration \<Rightarrow> u64 \<Rightarrow>
    Stats \<Rightarrow> unit Result \<times> Stats" where
  "check_authority rs epoch attempt base_gen prop_gen st =
     (if rs_terminal rs then (err (Authority EC_completion_after_terminal) ''request is terminal'', st)
      else if rs_cancelled rs then (err (Authority EC_completion_after_cancellation) ''request was cancelled'', st)
      else if \<not> is_null epoch \<and> id_get epoch < id_get (rs_epoch rs) then
        (err (Authority EC_stale_epoch) ''message epoch is stale'',
         st\<lparr>st_stale_rejections_by_epoch := st_stale_rejections_by_epoch st + 1\<rparr>)
      else if attempt \<noteq> rs_attempt rs then
        (err (Authority EC_stale_attempt) ''message belongs to an obsolete attempt'',
         st\<lparr>st_stale_rejections_by_attempt := st_stale_rejections_by_attempt st + 1\<rparr>)
      else if base_gen \<noteq> rs_auth_gen rs then
        (err (Authority EC_wrong_base_generation) ''message targets a different authoritative base'',
         st\<lparr>st_stale_rejections_by_generation := st_stale_rejections_by_generation st + 1\<rparr>)
      else if prop_gen \<noteq> 0 then
        (if list_ex (\<lambda>p. id_get (prop_generation p) = prop_gen) (rs_proposals rs) then (Ok (), st)
         else (err (Authority EC_stale_proposal_generation) ''proposal generation is stale'',
               st\<lparr>st_stale_rejections_by_generation := st_stale_rejections_by_generation st + 1\<rparr>))
      else (Ok (), st))"

definition active_reservation_bytes :: "RequestState \<Rightarrow> u32" where
  "active_reservation_bytes rs =
     foldl (\<lambda>total r. if reservation_is_active r then total + ucast (res_bytes r) else total) 0 (rs_reservations rs)"

section \<open>Operations\<close>

definition submit :: "SpeculationRequest \<Rightarrow> Fabric \<Rightarrow> unit Result \<times> Fabric" where
  "submit req f =
     (let rs = (case lookup f (rq_id req) of Some rs \<Rightarrow> rs | None \<Rightarrow> default_RequestState) in
      if \<not> is_null (rq_id (rs_req rs)) then
        (err (General EC_already_exists) ''request id already registered'', f)
      else
        let rs' = rs\<lparr>rs_req := req, rs_attempt := StrongId 1, rs_epoch := cfg_epoch (fb_cfg f),
                     rs_auth_gen := StrongId 0,
                     rs_auth_state := \<lparr>sr_id = StrongId (id_get (rq_sequence req) * 0x9E3779B97F4A7C15),
                                       sr_generation = StrongId 0\<rparr>,
                     rs_auth_state_gen := StrongId 0, rs_committed := rq_prefix req, rs_terminal := False,
                     rs_cancelled := False, rs_completed_cycles := 0, rs_cycle := machine_at Ph_Ready\<rparr>;
            f1 = set_request (rq_id req) rs' f;
            f2 = map_stats (\<lambda>s. s\<lparr>st_requests_eligible_for_speculation := st_requests_eligible_for_speculation s + 1\<rparr>) f1
        in (Ok (), push_event (rq_id req) ''request.submit'' ''request admitted'' ''{}'' f2))"

definition cancel :: "RequestId \<Rightarrow> string \<Rightarrow> Fabric \<Rightarrow> unit Result \<times> Fabric" where
  "cancel rid why f =
     (case lookup f rid of
        None \<Rightarrow> (err (General EC_not_found) ''unknown request'', f)
      | Some rs \<Rightarrow>
          if rs_cancelled rs then (Ok (), f)
          else if rs_terminal rs then (err (TerminalOutcome EC_already_terminal) ''request already terminal'', f)
          else
            let rs' = rs\<lparr>rs_cycle := snd (machine_apply Ev_Cancel (rs_cycle rs)),
                         rs_reservations := map (\<lambda>r. r\<lparr>res_state := RS_Released\<rparr>) (rs_reservations rs),
                         rs_branches := map (\<lambda>b. b\<lparr>br_retired := True\<rparr>) (rs_branches rs),
                         rs_cancelled := True\<rparr>;
                f1 = map_stats (\<lambda>s. s\<lparr>st_cancel_count := st_cancel_count s + 1\<rparr>) (set_request rid rs' f)
            in (Ok (), push_event rid ''request.cancel'' why ''{}'' f1))"

definition complete :: "RequestId \<Rightarrow> Fabric \<Rightarrow> unit Result \<times> Fabric" where
  "complete rid f =
     (case lookup f rid of
        None \<Rightarrow> (err (General EC_not_found) ''unknown request'', f)
      | Some rs \<Rightarrow>
          let rs' = rs\<lparr>rs_terminal := True, rs_cycle := snd (machine_apply Ev_EnterTerminal (rs_cycle rs))\<rparr>
          in (Ok (), push_event rid ''request.complete'' ''request terminal'' ''{}'' (set_request rid rs' f)))"

definition authoritative_length :: "RequestId \<Rightarrow> Fabric \<Rightarrow> u64 Result" where
  "authoritative_length rid f =
     (case lookup f rid of None \<Rightarrow> err (General EC_not_found) ''unknown request''
      | Some rs \<Rightarrow> Ok (of_nat (length (rs_committed rs))))"

definition proposals :: "RequestId \<Rightarrow> Fabric \<Rightarrow> Proposal list Result" where
  "proposals rid f =
     (case lookup f rid of None \<Rightarrow> err (General EC_not_found) ''unknown request'' | Some rs \<Rightarrow> Ok (rs_proposals rs))"

definition branches :: "RequestId \<Rightarrow> Fabric \<Rightarrow> Branch list Result" where
  "branches rid f =
     (case lookup f rid of None \<Rightarrow> err (General EC_not_found) ''unknown request'' | Some rs \<Rightarrow> Ok (rs_branches rs))"

text \<open>A quotient of two 64-bit counters in double arithmetic.\<close>

definition counter_ratio :: "u64 \<Rightarrow> u64 \<Rightarrow> double" where
  "counter_ratio a b = fl (fl (of_nat (unat a)) / fl (of_nat (unat b)))"

definition active_count :: "RequestState \<Rightarrow> nat" where
  "active_count rs = length (filter reservation_is_active (rs_reservations rs))"

definition stats :: "Fabric \<Rightarrow> Stats" where
  "stats f =
     (let s = im_stats f in
      s\<lparr>st_acceptance_ratio := (if st_tokens_proposed s = 0 then 0
                               else counter_ratio (st_tokens_accepted s) (st_tokens_proposed s)),
        st_speculative_reservations_current := of_nat (sum_list (map (active_count \<circ> snd) (im_requests f))),
        st_slots_outstanding := 0\<rparr>)"

definition snapshot :: "Fabric \<Rightarrow> Snapshot \<times> Fabric" where
  "snapshot f =
     (let (now, f1) = read_clock f; rss = map snd (im_requests f) in
      (\<lparr>snap_taken_at = [], snap_monotonic_ns = now, snap_epoch = cfg_epoch (fb_cfg f),
        snap_active_requests = length rss,
        snap_active_branches = sum_list (map (length \<circ> rs_branches) rss),
        snap_active_reservations = sum_list (map active_count rss),
        snap_active_proposals = sum_list (map (length \<circ> rs_proposals) rss),
        snap_summaries = map (\<lambda>rs. ''seq='' @ id_str (rq_sequence (rs_req rs)) @ '' len='' @
                                    decimal (length (rs_committed rs))) rss\<rparr>, f1))"

definition events :: "RequestId \<Rightarrow> Fabric \<Rightarrow> Event list" where
  "events rid f = (case lookup f rid of None \<Rightarrow> [] | Some rs \<Rightarrow> rs_events rs)"

definition emit_event :: "RequestId \<Rightarrow> string \<Rightarrow> string \<Rightarrow> string \<Rightarrow> Fabric \<Rightarrow> Fabric" where
  "emit_event rid ty detail json f = push_event rid ty detail json f"

definition explain :: "RequestId \<Rightarrow> string \<Rightarrow> Fabric \<Rightarrow> Explain" where
  "explain rid question f =
     (case lookup f rid of
        None \<Rightarrow> \<lparr>ex_question = question, ex_answer_text = ''unknown request '' @ id_str rid,
                 ex_answer_json = ''{\"request\":\"unknown\"}'', ex_reasons = []\<rparr>
      | Some rs \<Rightarrow>
          let text = ''sequence '' @ id_str (rq_sequence (rs_req rs)) @ '' (request '' @ id_str rid @
                     ''): authoritative generation '' @ id_str (rs_auth_gen rs) @
                     '', committed '' @ decimal (length (rs_committed rs)) @ '' tokens, attempt '' @
                     id_str (rs_attempt rs) @ '', epoch '' @ id_str (rs_epoch rs) @
                     '', cycle phase '' @ phase_to_string (ssm_phase (rs_cycle rs)) @
                     '', branches '' @ decimal (length (rs_branches rs)) @ '', proposals '' @
                     decimal (length (rs_proposals rs)) @ '', active reservations '' @
                     word_string (active_reservation_bytes rs)
          in \<lparr>ex_question = question, ex_answer_text = text,
              ex_answer_json = ''{\"request\":\"'' @ id_str rid @ ''\",\"gen\":'' @ id_str (rs_auth_gen rs) @
                '',\"len\":'' @ decimal (length (rs_committed rs)) @
                '',\"phase\":\"'' @ phase_to_string (ssm_phase (rs_cycle rs)) @ ''\"}'',
              ex_reasons = [text]\<rparr>)"

definition release_active :: "Reservation \<Rightarrow> Reservation" where
  "release_active r = (if reservation_is_active r then r\<lparr>res_state := RS_Released\<rparr> else r)"

definition rollback :: "RequestId \<Rightarrow> string \<Rightarrow> Fabric \<Rightarrow> RollbackResult Result \<times> Fabric" where
  "rollback rid why f =
     (case lookup f rid of
        None \<Rightarrow> (err (General EC_not_found) ''unknown request'', f)
      | Some rs \<Rightarrow>
          let rb = \<lparr>rbk_rejected_tokens =
                      foldl (\<lambda>n p. if prop_finalized p \<and> \<not> prop_committed p then n + of_nat (cs_size (prop_candidate p)) else n)
                        0 (rs_proposals rs),
                    rbk_accepted_prefix = of_nat (length (rs_committed rs)),
                    rbk_restored_generation = rs_auth_gen rs, rbk_restored_state = rs_auth_state rs,
                    rbk_restored_state_generation = rs_auth_state_gen rs,
                    rbk_retired_branches = of_nat (length (filter (\<lambda>b. \<not> br_retired b) (rs_branches rs))),
                    rbk_released_reservations = of_nat (active_count rs),
                    rbk_success = True, rbk_detail = why\<rparr>;
              rs' = rs\<lparr>rs_branches := map (\<lambda>b. b\<lparr>br_retired := True\<rparr>) (rs_branches rs),
                       rs_reservations := map release_active (rs_reservations rs)\<rparr>;
              f1 = map_stats (\<lambda>s. s\<lparr>st_rollback_count := st_rollback_count s + 1\<rparr>) (set_request rid rs' f)
          in (Ok rb, push_event rid ''request.rollback'' why ''{}'' f1))"

definition retry :: "RequestId \<Rightarrow> Fabric \<Rightarrow> AttemptId Result \<times> Fabric" where
  "retry rid f =
     (case lookup f rid of
        None \<Rightarrow> (err (General EC_not_found) ''unknown request'', f)
      | Some rs \<Rightarrow>
          if rq_max_attempts (rs_req rs) \<noteq> 0 \<and> rq_max_attempts (rs_req rs) \<le> rs_retry_count rs then
            (err (TerminalOutcome EC_retryable_failure) ''retry limit reached'', f)
          else if rs_terminal rs \<or> rs_cancelled rs then
            (err (General EC_invalid_state) ''cannot retry a terminal request'', f)
          else
            let attempt = StrongId (id_get (rs_attempt rs) + 1);
                rs' = rs\<lparr>rs_attempt := attempt, rs_retry_count := rs_retry_count rs + 1,
                         rs_cycle := machine_at Ph_Ready\<rparr>;
                f1 = map_stats (\<lambda>s. s\<lparr>st_retry_count := st_retry_count s + 1\<rparr>) (set_request rid rs' f)
            in (Ok attempt, push_event rid ''request.retry'' (''new attempt '' @ id_str attempt) ''{}'' f1))"

definition fabric_epoch :: "Fabric \<Rightarrow> CoordinatorEpoch" where
  "fabric_epoch f = cfg_epoch (fb_cfg f)"

definition roll_epoch :: "Fabric \<Rightarrow> Fabric" where
  "roll_epoch f = f\<lparr>fb_cfg := (fb_cfg f)\<lparr>cfg_epoch := StrongId (id_get (cfg_epoch (fb_cfg f)) + 1)\<rparr>\<rparr>"

section \<open>Well-formed runtime states\<close>

text \<open>
  What every operation keeps of a request: it is filed under its own identifier, the committed
  sequence extends the submitted prefix, the authoritative generation counts the tokens committed
  since submission, both generations advance together, the state reference is the one derived from
  the sequence, no reservation is ever recorded, the event log is bounded, and the attempt number
  follows the retry count, which stays within the configured limit. The last clause is for requests
  with a non-null identifier: identifier 0 may be submitted again, and then the attempt starts over
  while the retry count does not.
\<close>

definition request_wf :: "RequestId \<Rightarrow> RequestState \<Rightarrow> bool" where
  "request_wf r rs \<longleftrightarrow>
     rq_id (rs_req rs) = r \<and>
     prefix (rq_prefix (rs_req rs)) (rs_committed rs) \<and>
     id_get (rs_auth_gen rs) = of_nat (length (rs_committed rs) - length (rq_prefix (rs_req rs))) \<and>
     rs_auth_state_gen rs = StrongId (id_get (rs_auth_gen rs)) \<and>
     rs_auth_state rs = \<lparr>sr_id = StrongId (id_get (rq_sequence (rs_req rs)) * 0x9E3779B97F4A7C15),
                         sr_generation = rs_auth_state_gen rs\<rparr> \<and>
     rs_reservations rs = [] \<and> length (rs_events rs) \<le> 512 \<and>
     (r \<noteq> null_id \<longrightarrow>
        ucast (id_get (rs_attempt rs)) = rs_retry_count rs + 1 \<and>
        (rq_max_attempts (rs_req rs) \<noteq> 0 \<longrightarrow> rs_retry_count rs \<le> rq_max_attempts (rs_req rs)))"

definition fabric_wf :: "Fabric \<Rightarrow> bool" where
  "fabric_wf f \<longleftrightarrow> map_ordered (im_requests f) \<and> length (im_global_events f) \<le> 2000 \<and>
     list_all (\<lambda>(r, rs). request_wf r rs) (im_requests f)"

section \<open>Facts about the helpers\<close>

lemma set_map_put: "set (map_put k v ps) \<subseteq> insert (k, v) (set ps)"
  by (induction ps) auto

declare map_of_map_put [simp]

lemma lookup_set_request: "lookup (set_request r rs f) r' = (if r' = r then Some rs else lookup f r')"
  by (simp add: set_request_def)

lemma set_request_simps [simp]:
  "fb_cfg (set_request r rs f) = fb_cfg f" "im_cfg (set_request r rs f) = im_cfg f"
  "im_scheduler (set_request r rs f) = im_scheduler f" "im_stats (set_request r rs f) = im_stats f"
  "im_global_events (set_request r rs f) = im_global_events f" "im_reads (set_request r rs f) = im_reads f"
  "im_requests (set_request r rs f) = map_put r rs (im_requests f)"
  by (simp_all add: set_request_def)

lemma map_stats_simps [simp]:
  "fb_cfg (map_stats g f) = fb_cfg f" "im_cfg (map_stats g f) = im_cfg f"
  "im_scheduler (map_stats g f) = im_scheduler f" "im_stats (map_stats g f) = g (im_stats f)"
  "im_global_events (map_stats g f) = im_global_events f" "im_reads (map_stats g f) = im_reads f"
  "im_requests (map_stats g f) = im_requests f"
  by (simp_all add: map_stats_def)

lemma push_event_simps [simp]:
  "fb_cfg (push_event r t d j f) = fb_cfg f" "im_cfg (push_event r t d j f) = im_cfg f"
  "im_scheduler (push_event r t d j f) = im_scheduler f" "im_stats (push_event r t d j f) = im_stats f"
  "im_reads (push_event r t d j f) = Suc (im_reads f)"
  by (simp_all add: push_event_def read_clock_def Let_def split: option.splits)

text \<open>An event changes nothing of a request but its event log.\<close>

definition with_event :: "Event \<Rightarrow> RequestState \<Rightarrow> RequestState" where
  "with_event e rs = rs\<lparr>rs_events := push_bounded 512 e (rs_events rs)\<rparr>"

lemma with_event_simps [simp]:
  "rs_req (with_event e rs) = rs_req rs" "rs_attempt (with_event e rs) = rs_attempt rs"
  "rs_epoch (with_event e rs) = rs_epoch rs" "rs_auth_gen (with_event e rs) = rs_auth_gen rs"
  "rs_auth_state (with_event e rs) = rs_auth_state rs" "rs_auth_state_gen (with_event e rs) = rs_auth_state_gen rs"
  "rs_committed (with_event e rs) = rs_committed rs" "rs_branches (with_event e rs) = rs_branches rs"
  "rs_proposals (with_event e rs) = rs_proposals rs" "rs_reservations (with_event e rs) = rs_reservations rs"
  "rs_cycle (with_event e rs) = rs_cycle rs" "rs_cancelled (with_event e rs) = rs_cancelled rs"
  "rs_terminal (with_event e rs) = rs_terminal rs" "rs_completed_cycles (with_event e rs) = rs_completed_cycles rs"
  "rs_retry_count (with_event e rs) = rs_retry_count rs"
  "rs_events (with_event e rs) = push_bounded 512 e (rs_events rs)"
  by (simp_all add: with_event_def)

definition event_of :: "RequestId \<Rightarrow> string \<Rightarrow> string \<Rightarrow> string \<Rightarrow> Fabric \<Rightarrow> Event" where
  "event_of r t d j f = \<lparr>evt_id = StrongId (of_nat (length (im_global_events f) + 1)),
     evt_timestamp_ns = cfg_clock (im_cfg f) (im_reads f), evt_request = r, evt_type = t, evt_detail = d, evt_json = j\<rparr>"

lemma lookup_push_event [simp]:
  "lookup (push_event r t d j f) r' =
     (if r' = r then map_option (with_event (event_of r t d j f)) (lookup f r) else lookup f r')"
  by (auto simp: push_event_def read_clock_def Let_def with_event_def event_of_def split: option.splits)

lemma push_event_present:
  "lookup f r = Some rs \<Longrightarrow> im_requests (push_event r t d j f) = map_put r (with_event (event_of r t d j f) rs) (im_requests f)"
  "lookup f r = None \<Longrightarrow> im_requests (push_event r t d j f) = im_requests f"
  by (simp_all add: push_event_def read_clock_def Let_def with_event_def event_of_def)

lemma global_events_push_event:
  "im_global_events (push_event r t d j f) = push_bounded 2000 (event_of r t d j f) (im_global_events f)"
  by (auto simp: push_event_def read_clock_def Let_def event_of_def split: option.splits)

lemma request_wf_event: "request_wf r rs \<Longrightarrow> request_wf r (with_event e rs)"
  by (simp add: request_wf_def length_push_bounded)

lemma wf_lookup: "fabric_wf f \<Longrightarrow> lookup f r = Some rs \<Longrightarrow> request_wf r rs"
  by (auto simp: fabric_wf_def list_all_iff dest!: map_of_SomeD)

lemma wf_set_request: "fabric_wf f \<Longrightarrow> request_wf r rs \<Longrightarrow> fabric_wf (set_request r rs f)"
  using set_map_put [of r rs "im_requests f"]
  by (auto simp: fabric_wf_def list_all_iff map_ordered_put)

lemma wf_map_stats [simp]: "fabric_wf (map_stats g f) = fabric_wf f"
  by (simp add: fabric_wf_def)

lemma wf_push_event: "fabric_wf f \<Longrightarrow> fabric_wf (push_event r t d j f)"
proof (cases "lookup f r")
  case (Some rs)
  assume wf: "fabric_wf f"
  have "request_wf r (with_event (event_of r t d j f) rs)" using wf_lookup [OF wf Some] by (rule request_wf_event)
  with wf Some set_map_put [of r "with_event (event_of r t d j f) rs" "im_requests f"] show ?thesis
    by (auto simp: fabric_wf_def list_all_iff push_event_present map_ordered_put global_events_push_event length_push_bounded)
qed (auto simp: fabric_wf_def push_event_present global_events_push_event length_push_bounded)

lemma wf_new_fabric: "fabric_wf (new_fabric cfg)"
  by (simp add: fabric_wf_def new_fabric_def map_ordered_def)

text \<open>A state change of one request followed by an event.\<close>

lemma wf_request_change:
  assumes "fabric_wf f" and "request_wf r rs'"
  shows "fabric_wf (push_event r t d j (map_stats g (set_request r rs' f)))"
    and "fabric_wf (push_event r t d j (set_request r rs' f))"
  using assms by (auto intro!: wf_push_event wf_set_request)

section \<open>Every operation keeps the state well formed\<close>

lemma default_RequestState_simps [simp]:
  "rs_req default_RequestState = default_SpeculationRequest" "rs_reservations default_RequestState = []"
  "rs_events default_RequestState = []" "rs_retry_count default_RequestState = 0"
  "rs_proposals default_RequestState = []" "rs_branches default_RequestState = []"
  by (simp_all add: default_RequestState_def)

lemma default_request_id [simp]: "rq_id default_SpeculationRequest = null_id"
  by (simp add: default_SpeculationRequest_def)

lemma submit_wf [sf_inv]: "fabric_wf f \<Longrightarrow> fabric_wf (snd (submit req f))"
proof -
  assume wf: "fabric_wf f"
  define rs where "rs = (case lookup f (rq_id req) of Some rs \<Rightarrow> rs | None \<Rightarrow> default_RequestState)"
  have old: "rs_reservations rs = []" "length (rs_events rs) \<le> 512"
    using wf_lookup [OF wf, of "rq_id req"] by (auto simp: rs_def request_wf_def split: option.splits)
  have "is_null (rq_id (rs_req rs)) \<Longrightarrow> rq_id req \<noteq> null_id \<Longrightarrow> rs_retry_count rs = 0"
    using wf_lookup [OF wf, of "rq_id req"] by (auto simp: rs_def request_wf_def split: option.splits)
  with old show ?thesis
    unfolding submit_def Let_def rs_def [symmetric]
    by (auto intro!: wf_request_change [OF wf] wf simp: request_wf_def)
qed

lemma cancel_wf [sf_inv]: "fabric_wf f \<Longrightarrow> fabric_wf (snd (cancel r why f))"
  by (auto simp: cancel_def Let_def intro!: wf_request_change dest: wf_lookup simp: request_wf_def split: option.splits)

lemma complete_wf [sf_inv]: "fabric_wf f \<Longrightarrow> fabric_wf (snd (complete r f))"
  by (auto simp: complete_def Let_def intro!: wf_request_change dest: wf_lookup simp: request_wf_def split: option.splits)

lemma rollback_wf [sf_inv]: "fabric_wf f \<Longrightarrow> fabric_wf (snd (rollback r why f))"
  by (auto simp: rollback_def Let_def intro!: wf_request_change dest: wf_lookup simp: request_wf_def split: option.splits)

lemma take_bit_down_add: "m \<le> n \<Longrightarrow> take_bit m (take_bit n x + y) = take_bit m ((x::int) + y)"
  using take_bit_add [of m "take_bit n x" y] take_bit_add [of m x y] by (simp add: take_bit_take_bit min_def)

lemma ucast_down_Suc: "(ucast ((x::u64) + 1) :: u32) = ucast x + 1"
  by transfer (simp add: take_bit_down_add take_bit_take_bit)

lemma retry_request_wf:
  assumes "request_wf r rs" and "rq_max_attempts (rs_req rs) = 0 \<or> rs_retry_count rs < rq_max_attempts (rs_req rs)"
  shows "request_wf r (rs\<lparr>rs_attempt := StrongId (id_get (rs_attempt rs) + 1),
    rs_retry_count := rs_retry_count rs + 1, rs_cycle := m\<rparr>)"
  using assms by (auto simp: request_wf_def inc_le ucast_down_Suc)

lemma retry_wf [sf_inv]: "fabric_wf f \<Longrightarrow> fabric_wf (snd (retry r f))"
  by (auto simp: retry_def Let_def not_le intro!: wf_request_change retry_request_wf dest: wf_lookup split: option.splits)

lemma emit_event_wf [sf_inv]: "fabric_wf f \<Longrightarrow> fabric_wf (emit_event r t d j f)"
  by (simp add: emit_event_def wf_push_event)

lemma read_clock_wf: "fabric_wf f \<Longrightarrow> fabric_wf (snd (read_clock f))"
  by (simp add: fabric_wf_def read_clock_def)

lemma snapshot_wf [sf_inv]: "fabric_wf f \<Longrightarrow> fabric_wf (snd (snapshot f))"
  using read_clock_wf [of f] by (simp add: snapshot_def Let_def case_prod_beta)

lemma roll_epoch_wf [sf_inv]: "fabric_wf f \<Longrightarrow> fabric_wf (roll_epoch f)"
  by (simp add: fabric_wf_def roll_epoch_def)

section \<open>Properties of the operations\<close>

text \<open>
  C37 (submit_behaviour): submitting a request whose identifier is not null either registers it (when
  the identifier is new: committed tokens are the prefix, attempt 1, generation 0, live) or, when the
  identifier is known, returns the already-exists error and changes nothing. Other requests are
  untouched.
\<close>

theorem submit_behaviour:
  assumes "fabric_wf f" and "rq_id req \<noteq> null_id"
  shows "case lookup f (rq_id req) of
      Some rs \<Rightarrow> submit req f = (err (General EC_already_exists) ''request id already registered'', f)
    | None \<Rightarrow> fst (submit req f) = Ok () \<and>
        (\<exists>rs. lookup (snd (submit req f)) (rq_id req) = Some rs \<and> rs_req rs = req \<and> rs_committed rs = rq_prefix req \<and>
           rs_attempt rs = StrongId 1 \<and> rs_auth_gen rs = StrongId 0 \<and> \<not> rs_terminal rs \<and> \<not> rs_cancelled rs \<and>
           rs_proposals rs = [] \<and> rs_cycle rs = machine_at Ph_Ready \<and> rs_epoch rs = cfg_epoch (fb_cfg f)) \<and>
        (\<forall>r. r \<noteq> rq_id req \<longrightarrow> lookup (snd (submit req f)) r = lookup f r)"
proof (cases "lookup f (rq_id req)")
  case None
  then show ?thesis by (simp add: submit_def Let_def)
next
  case (Some rs)
  have "rq_id (rs_req rs) = rq_id req" using wf_lookup [OF assms(1) Some] by (simp add: request_wf_def)
  then show ?thesis using assms(2) by (simp add: submit_def Some Let_def)
qed

definition idle_config :: Config where
  "idle_config = \<lparr>cfg_proposer = None, cfg_verifier = None, cfg_clock = (\<lambda>_. 0), cfg_policy = default_ProposalPolicy,
     cfg_epoch = StrongId 1\<rparr>"

theorem submit_behaviour_witness:
  "fst (submit (default_SpeculationRequest\<lparr>rq_id := StrongId 3, rq_prefix := [9]\<rparr>) (new_fabric idle_config)) = Ok ()"
  using submit_behaviour [OF wf_new_fabric, of "default_SpeculationRequest\<lparr>rq_id := StrongId 3, rq_prefix := [9]\<rparr>" idle_config]
  by (simp add: new_fabric_def null_id_def)

text \<open>
  C33 (null_request_overwritten): the duplicate check of \<^verbatim>\<open>submit\<close> looks at the stored identifier, so
  it never fires for the null identifier 0. Submitting such a request always succeeds; when one is
  registered already, its committed tokens are replaced by the new prefix, the generation and the
  attempt start over, and a cancelled or terminal request is live again, while the retry count, the
  branches and the proposals of the earlier request stay. Other requests are untouched.
\<close>

theorem null_request_overwritten:
  assumes "fabric_wf f" and "rq_id req = null_id"
  shows "fst (submit req f) = Ok () \<and>
    (\<exists>rs'. lookup (snd (submit req f)) null_id = Some rs' \<and> rs_req rs' = req \<and> rs_committed rs' = rq_prefix req \<and>
       rs_attempt rs' = StrongId 1 \<and> rs_auth_gen rs' = StrongId 0 \<and> \<not> rs_terminal rs' \<and> \<not> rs_cancelled rs' \<and>
       (case lookup f null_id of
          None \<Rightarrow> rs_retry_count rs' = 0 \<and> rs_branches rs' = [] \<and> rs_proposals rs' = []
        | Some rs \<Rightarrow> rs_retry_count rs' = rs_retry_count rs \<and> rs_branches rs' = rs_branches rs \<and>
            rs_proposals rs' = rs_proposals rs)) \<and>
    (\<forall>r. r \<noteq> null_id \<longrightarrow> lookup (snd (submit req f)) r = lookup f r)"
proof (cases "lookup f null_id")
  case None
  with assms(2) show ?thesis by (simp add: submit_def Let_def)
next
  case (Some rs)
  have "rq_id (rs_req rs) = null_id" using wf_lookup [OF assms(1) Some] by (simp add: request_wf_def)
  with Some assms(2) show ?thesis by (simp add: submit_def Let_def)
qed

text \<open>A request with identifier 0 that has been retried and cancelled.\<close>

definition sample_null :: Fabric where
  "sample_null = snd (cancel null_id [] (snd (retry null_id (snd (submit (default_SpeculationRequest\<lparr>rq_prefix := [7, 8]\<rparr>)
     (new_fabric idle_config))))))"

lemma sample_null_lookup: "\<exists>rs. lookup sample_null null_id = Some rs \<and> rs_committed rs = [7, 8] \<and>
    rs_attempt rs = StrongId 2 \<and> rs_retry_count rs = 1 \<and> rs_cancelled rs"
  by (simp add: sample_null_def submit_def retry_def cancel_def new_fabric_def idle_config_def Let_def
      default_SpeculationRequest_def is_null_def null_id_def)

lemma sample_null_wf: "fabric_wf sample_null"
  unfolding sample_null_def by (intro sf_inv wf_new_fabric)

theorem null_request_overwritten_witness:
  "\<exists>rs rs'. lookup sample_null null_id = Some rs \<and> rs_committed rs = [7, 8] \<and> rs_cancelled rs \<and>
     fst (submit (default_SpeculationRequest\<lparr>rq_prefix := [9]\<rparr>) sample_null) = Ok () \<and>
     lookup (snd (submit (default_SpeculationRequest\<lparr>rq_prefix := [9]\<rparr>) sample_null)) null_id = Some rs' \<and>
     rs_committed rs' = [9] \<and> \<not> rs_cancelled rs' \<and> rs_attempt rs' = StrongId 1 \<and> rs_retry_count rs' = 1"
proof -
  obtain rs where "lookup sample_null null_id = Some rs" "rs_committed rs = [7, 8]" "rs_retry_count rs = 1" "rs_cancelled rs"
    using sample_null_lookup by blast
  with null_request_overwritten [OF sample_null_wf, of "default_SpeculationRequest\<lparr>rq_prefix := [9]\<rparr>"] show ?thesis by auto
qed

text \<open>
  C38 (cancel_behaviour): cancelling a live request succeeds, marks it cancelled, retires every branch
  and leaves its committed tokens and authoritative state as they were; a second cancellation
  changes nothing at all, and a request that is terminal (and not cancelled) is refused.
\<close>

theorem cancel_behaviour:
  assumes "lookup f r = Some rs"
  shows "if rs_cancelled rs then cancel r why f = (Ok (), f)
    else if rs_terminal rs then cancel r why f = (err (TerminalOutcome EC_already_terminal) ''request already terminal'', f)
    else fst (cancel r why f) = Ok () \<and>
      (\<exists>rs'. lookup (snd (cancel r why f)) r = Some rs' \<and> rs_cancelled rs' \<and> list_all br_retired (rs_branches rs') \<and>
         \<not> list_ex reservation_is_active (rs_reservations rs') \<and>
         rs_committed rs' = rs_committed rs \<and> rs_auth_gen rs' = rs_auth_gen rs \<and> rs_auth_state rs' = rs_auth_state rs) \<and>
      cancel r why' (snd (cancel r why f)) = (Ok (), snd (cancel r why f))"
proof -
  have live: "fst (cancel r why f) = Ok () \<and>
      (\<exists>rs'. lookup (snd (cancel r why f)) r = Some rs' \<and> rs_cancelled rs' \<and> list_all br_retired (rs_branches rs') \<and>
         \<not> list_ex reservation_is_active (rs_reservations rs') \<and>
         rs_committed rs' = rs_committed rs \<and> rs_auth_gen rs' = rs_auth_gen rs \<and> rs_auth_state rs' = rs_auth_state rs)"
    if "\<not> rs_cancelled rs" "\<not> rs_terminal rs"
    using that assms by (simp add: cancel_def Let_def list_all_iff list_ex_iff reservation_is_active_def active_state_def)
  then have "\<not> rs_cancelled rs \<Longrightarrow> \<not> rs_terminal rs \<Longrightarrow>
      cancel r why' (snd (cancel r why f)) = (Ok (), snd (cancel r why f))"
    by (auto simp: cancel_def [of r why'])
  with live assms show ?thesis by (simp add: cancel_def)
qed

definition sample_live :: Fabric where
  "sample_live = snd (submit (default_SpeculationRequest\<lparr>rq_id := StrongId 3, rq_prefix := [9]\<rparr>)
     (new_fabric idle_config))"

lemma sample_live_lookup: "\<exists>rs. lookup sample_live (StrongId 3) = Some rs \<and> \<not> rs_cancelled rs \<and> \<not> rs_terminal rs \<and>
    rs_committed rs = [9] \<and> rs_attempt rs = StrongId 1 \<and> rs_retry_count rs = 0 \<and> rq_max_attempts (rs_req rs) = 3 \<and>
    rs_epoch rs = StrongId 1 \<and> rs_auth_gen rs = StrongId 0"
  by (simp add: sample_live_def submit_def new_fabric_def idle_config_def Let_def default_SpeculationRequest_def null_id_def is_null_def)

theorem cancel_behaviour_witness:
  "\<exists>rs'. lookup (snd (cancel (StrongId 3) ''stop'' sample_live)) (StrongId 3) = Some rs' \<and> rs_cancelled rs' \<and> rs_committed rs' = [9]"
proof -
  obtain rs where "lookup sample_live (StrongId 3) = Some rs" "\<not> rs_cancelled rs" "\<not> rs_terminal rs" "rs_committed rs = [9]"
    using sample_live_lookup by blast
  with cancel_behaviour [of sample_live "StrongId 3" rs "''stop''" "[]"] show ?thesis by auto
qed

text \<open>
  C39 (retry_behaviour): a retry is granted exactly when the request is live and fewer retries than
  \<^verbatim>\<open>max_attempts\<close> were made (or the limit is 0, unlimited); it then gets the next attempt number,
  and the committed tokens, generation and proposals are kept. Otherwise nothing changes.
\<close>

theorem retry_behaviour:
  assumes "lookup f r = Some rs"
  shows "if (rq_max_attempts (rs_req rs) = 0 \<or> rs_retry_count rs < rq_max_attempts (rs_req rs)) \<and> \<not> rs_terminal rs \<and> \<not> rs_cancelled rs
    then fst (retry r f) = Ok (StrongId (id_get (rs_attempt rs) + 1)) \<and>
      (\<exists>rs'. lookup (snd (retry r f)) r = Some rs' \<and> rs_attempt rs' = StrongId (id_get (rs_attempt rs) + 1) \<and>
         rs_attempt rs' \<noteq> rs_attempt rs \<and> rs_retry_count rs' = rs_retry_count rs + 1 \<and>
         rs_committed rs' = rs_committed rs \<and> rs_auth_gen rs' = rs_auth_gen rs \<and> rs_proposals rs' = rs_proposals rs \<and>
         rs_cycle rs' = machine_at Ph_Ready)
    else is_error (fst (retry r f)) \<and> snd (retry r f) = f"
  using assms by (cases "rs_attempt rs") (auto simp: retry_def Let_def is_error_def not_le not_less)

theorem retry_behaviour_witness: "fst (retry (StrongId 3) sample_live) = Ok (StrongId 2)"
proof -
  obtain rs where "lookup sample_live (StrongId 3) = Some rs" "\<not> rs_cancelled rs" "\<not> rs_terminal rs"
    "rs_attempt rs = StrongId 1" "rs_retry_count rs = 0" "rq_max_attempts (rs_req rs) = 3"
    using sample_live_lookup by blast
  with retry_behaviour [of sample_live "StrongId 3" rs] show ?thesis by simp
qed

text \<open>
  The authority check accepts a message exactly when the request is live, the
  message's epoch is unset or not older than the request's, its attempt and base generation are the
  current ones, and the proposal generation it names, if any, is recorded.
\<close>

lemma authority_fence:
  "fst (check_authority rs ep att bg pg st) = Ok () \<longleftrightarrow>
     \<not> rs_terminal rs \<and> \<not> rs_cancelled rs \<and> (ep = null_id \<or> rs_epoch rs \<le> ep) \<and> att = rs_attempt rs \<and>
     bg = rs_auth_gen rs \<and> (pg = 0 \<or> pg \<in> (id_get \<circ> prop_generation) ` set (rs_proposals rs))"
  by (auto simp: check_authority_def list_ex_iff less_eq_StrongId_def not_le not_less)

lemma release_active_inactive: "\<not> reservation_is_active (release_active r)"
  by (simp add: release_active_def reservation_is_active_def active_state_def)

text \<open>
  A rollback reports the authoritative point it keeps, retires every branch
  that was active and reports how many, releases every reservation, and never removes a committed
  token or moves a generation.
\<close>

lemma rollback_behaviour:
  assumes "lookup f r = Some rs"
  shows "\<exists>rb rs'. fst (rollback r why f) = Ok rb \<and> lookup (snd (rollback r why f)) r = Some rs' \<and>
    rbk_restored_generation rb = rs_auth_gen rs \<and> rbk_restored_state rb = rs_auth_state rs \<and>
    rbk_retired_branches rb = of_nat (length (filter (\<lambda>b. \<not> br_retired b) (rs_branches rs))) \<and>
    list_all br_retired (rs_branches rs') \<and> \<not> list_ex reservation_is_active (rs_reservations rs') \<and>
    rs_committed rs' = rs_committed rs \<and> rs_auth_gen rs' = rs_auth_gen rs \<and> rs_auth_state rs' = rs_auth_state rs \<and>
    map br_id (rs_branches rs') = map br_id (rs_branches rs)"
  using assms by (simp add: rollback_def Let_def list_all_iff list_ex_iff release_active_inactive)

lemma rollback_behaviour_example:
  "\<exists>rb rs'. fst (rollback (StrongId 3) ''undo'' sample_live) = Ok rb \<and>
     lookup (snd (rollback (StrongId 3) ''undo'' sample_live)) (StrongId 3) = Some rs' \<and> rs_committed rs' = [9]"
proof -
  obtain rs where "lookup sample_live (StrongId 3) = Some rs" "rs_committed rs = [9]" using sample_live_lookup by blast
  with rollback_behaviour [of sample_live "StrongId 3" rs "''undo''"] show ?thesis by auto
qed

end
