(* ===== verification/SF_Synthetic.thy ===== *)
theory SF_Synthetic
  imports SF_Prelude
begin

text \<open>
  The deterministic synthetic model shared by the CPU executors (\<^verbatim>\<open>SyntheticModel\<close> in
  \<^verbatim>\<open>cpu_proposer.hpp\<close>, the model builders and \<^verbatim>\<open>mix64\<close> in \<^verbatim>\<open>cpu_proposer.cpp\<close> and
  \<^verbatim>\<open>cpu_verifier.cpp\<close>). All arithmetic is modular on 32- and 64-bit words. Hidden states are lists
  of 16 words; the in-place update of a generator variable is returned as a second component.
\<close>

section \<open>Generator and model\<close>

definition kTargetModelSeed :: u32 where "kTargetModelSeed = 0x5A17B0C"

definition kStateWords :: nat where "kStateWords = 16"

definition kSyntheticVocab :: u32 where "kSyntheticVocab = 4096"

definition splitmix64_update :: "u64 \<Rightarrow> u32 \<times> u64" where
  "splitmix64_update x =
     (let x = x + 0x9E3779B97F4A7C15;
          z = (x XOR drop_bit 30 x) * 0xBF58476D1CE4E5B9;
          z = (z XOR drop_bit 27 z) * 0x94D049BB133111EB;
          z = z XOR drop_bit 31 z
      in (ucast z, x))"

definition mix64 :: "u64 \<Rightarrow> u64 \<Rightarrow> u64 \<Rightarrow> u64 \<Rightarrow> u64" where
  "mix64 a b c d =
     (let x = (a * 0x9E3779B97F4A7C15) XOR b;
          x = (x XOR drop_bit 27 x) * 0xBF58476D1CE4E5B9;
          x = (x XOR drop_bit 31 x) * 0x94D049BB133111EB;
          x = (x XOR drop_bit 27 x) + c * 0x9E3779B97F4A7C15;
          x = x XOR d;
          x = (x XOR drop_bit 30 x) * 0xBF58476D1CE4E5B9;
          x = (x XOR drop_bit 29 x) * 0x94D049BB133111EB
      in x XOR drop_bit 32 x)"

record SyntheticModel =
  sm_weights :: "u32 list list"
  sm_bias :: "u32 list"
  sm_mix_a :: u32
  sm_mix_b :: u32

text \<open>\<open>n\<close> successive draws, in order.\<close>

fun draws :: "nat \<Rightarrow> u64 \<Rightarrow> u32 list \<times> u64" where
  "draws 0 x = ([], x)"
| "draws (Suc n) x = (let (v, x1) = splitmix64_update x; (vs, x2) = draws n x1 in (v # vs, x2))"

text \<open>One row of sixteen masked weights followed by its bias, for each of \<open>n\<close> rows.\<close>

fun model_rows :: "nat \<Rightarrow> u64 \<Rightarrow> (u32 list \<times> u32) list" where
  "model_rows 0 x = []"
| "model_rows (Suc n) x =
     (let (ws, x1) = draws kStateWords x; (b, x2) = splitmix64_update x1
      in (map (\<lambda>w. w AND 0xFFFF) ws, b AND 0xFFFF) # model_rows n x2)"

definition make_model :: "u32 \<Rightarrow> SyntheticModel" where
  "make_model weight_seed =
     (let rows = model_rows kStateWords (ucast weight_seed OR push_bit 32 1)
      in \<lparr>sm_weights = map fst rows, sm_bias = map snd rows, sm_mix_a = 0x9E3779B9, sm_mix_b = 0x85EBCA6B\<rparr>)"

definition make_target_model :: SyntheticModel where
  "make_target_model =
     (let rows = model_rows kStateWords (ucast kTargetModelSeed OR push_bit 32 1)
      in \<lparr>sm_weights = map fst rows, sm_bias = map snd rows, sm_mix_a = 0x9E3779B9, sm_mix_b = 0x85EBCA6B\<rparr>)"

section \<open>State operations\<close>

definition seed_state :: "u64 \<Rightarrow> u32 list" where
  "seed_state seed = fst (draws kStateWords seed)"

definition step_word :: "u32 \<Rightarrow> u32 list \<Rightarrow> u32 \<Rightarrow> u32 list \<Rightarrow> u32" where
  "step_word mix_b state acc ws = foldl (\<lambda>acc (s, w). (acc * mix_b) XOR (s * w)) acc (zip state ws)"

definition model_step :: "SyntheticModel \<Rightarrow> u32 list \<Rightarrow> u32 \<Rightarrow> u32 list" where
  "model_step m state prev =
     map2 (\<lambda>b ws. step_word (sm_mix_b m) state (b XOR (sm_mix_a m * prev)) ws) (sm_bias m) (sm_weights m)"

definition model_token :: "SyntheticModel \<Rightarrow> u32 list \<Rightarrow> u32 \<Rightarrow> u32 \<Rightarrow> u32 \<Rightarrow> u32" where
  "model_token m state index prev vocab =
     (let raw = state ! 0 XOR state ! 7 XOR state ! 13 XOR (sm_mix_a m * (index + 1)) XOR sm_mix_b m XOR prev
      in if vocab = 0 then 0 else raw mod vocab)"

section \<open>Facts\<close>

lemma make_target_model: "make_target_model = make_model kTargetModelSeed"
  by (simp add: make_target_model_def make_model_def)

lemma length_draws [simp]: "length (fst (draws n x)) = n"
  by (induction n arbitrary: x) (auto simp: Let_def case_prod_beta)

lemma length_model_rows [simp]: "length (model_rows n x) = n"
  by (induction n arbitrary: x) (auto simp: Let_def split: prod.splits)

lemma length_seed_state [simp]: "length (seed_state s) = 16"
  by (simp add: seed_state_def kStateWords_def)

lemma length_model_step [simp]: "length (model_step (make_model s) st prev) = 16"
  by (simp add: model_step_def make_model_def Let_def kStateWords_def)

lemma word_mod_4096: "(x :: u32) mod 4096 = take_bit 12 x"
  by (simp add: take_bit_eq_mod)

lemma word_mod_4096_less: "(x :: u32) mod 4096 < 4096"
  by (simp add: word_less_nat_alt unat_mod)

lemma model_token_bound: "model_token m st i prev 4096 < 4096"
  by (simp only: model_token_def Let_def word_mod_4096_less split: if_split) simp

text \<open>A nonzero shift below the vocabulary size always changes a token.\<close>

lemma unat_add_mod_4096: "unat (((e :: u32) + c) mod 4096) = (unat e + unat c) mod 4096"
proof -
  have "(4096 :: nat) dvd 2 ^ 32" by simp
  then have "(unat e + unat c) mod 2 ^ 32 mod 4096 = (unat e + unat c) mod 4096" by (rule mod_mod_cancel)
  then show ?thesis by (simp add: unat_mod unat_word_ariths)
qed

lemma shifted_token:
  fixes e c :: u32
  assumes "e < 4096"
  shows "(e + c) mod 4096 = e \<longleftrightarrow> c mod 4096 = 0"
proof -
  have e: "unat e < 4096" using assms by (simp add: word_less_nat_alt)
  have "(e + c) mod 4096 = e \<longleftrightarrow> (unat e + unat c) mod 4096 = unat e"
    by (simp add: word_unat_eq_iff unat_add_mod_4096)
  also have "\<dots> \<longleftrightarrow> unat c mod 4096 = 0"
    using e mod_eq_dvd_iff_nat [of "unat e" "unat e + unat c" 4096] by (simp add: mod_eq_0_iff_dvd)
  also have "\<dots> \<longleftrightarrow> c mod 4096 = 0" by (simp add: word_unat_eq_iff unat_mod)
  finally show ?thesis .
qed

end
