(* ===== verification/SF_Executors.thy ===== *)
theory SF_Executors
  imports SF_Proposal SF_Synthetic
begin

text \<open>
  The deterministic CPU executors (\<^verbatim>\<open>src/core/cpu_proposer.cpp\<close>, \<^verbatim>\<open>src/core/cpu_verifier.cpp\<close>).
  The proposer drafts along its own path and leaves the target path after the configured number
  of aligned tokens; the verifier recomputes the target path and compares position by position.
  Each loop is a recursion over the same loop variables as the source. The facts relate both
  loops to the target sequence \<open>target_tokens\<close>, and two locales state what the fabric relies on.
\<close>

section \<open>Proposer\<close>

record CpuProposerConfig =
  ppc_state_seed :: u32
  ppc_weight_seed :: u32
  ppc_aligned_tokens :: u32
  ppc_divergence_seed :: u32
  ppc_monotonic_tokens :: bool

definition default_CpuProposerConfig :: CpuProposerConfig where
  "default_CpuProposerConfig = \<lparr>ppc_state_seed = 0xC0FFEE, ppc_weight_seed = 0xF00D, ppc_aligned_tokens = 0,
     ppc_divergence_seed = 0xDEADBEEF, ppc_monotonic_tokens = True\<rparr>"

definition cpu_proposer_identity :: ExecutorIdentity where
  "cpu_proposer_identity = \<lparr>exe_id = StrongId 0x50524F50, exe_name = ''cpu-proposer'', exe_kind = EK_CPU,
     exe_protocol_version = 1\<rparr>"

definition proposal_seed :: "ProposalInput \<Rightarrow> u64" where
  "proposal_seed inp =
     mix64 ((id_get (sr_id (pin_base_state inp)) * 0x9E3779B97F4A7C15) XOR
            (id_get (sr_generation (pin_base_state inp)) * 0x94D049BB133111EB))
       (id_get (pin_base_generation inp))
       (id_get (mi_revision (pv_proposer_model (pin_provenance inp))))
       (ucast (pin_depth inp) * 0x100000001B3)"

text \<open>The drafting loop; the first argument counts the iterations left, \<open>i\<close> is the loop variable.\<close>

fun propose_loop :: "nat \<Rightarrow> SyntheticModel \<Rightarrow> u32 \<Rightarrow> u32 \<Rightarrow> u32 \<Rightarrow> u32 list \<Rightarrow> u32 \<Rightarrow> TokenId list" where
  "propose_loop 0 tgt aligned branch i state prev = []"
| "propose_loop (Suc n) tgt aligned branch i state prev =
     (let expected = model_token tgt state i prev kSyntheticVocab;
          tok = (if i < aligned then expected else (expected + 1 + branch) mod kSyntheticVocab)
      in tok # propose_loop n tgt aligned branch (i + 1) (model_step tgt state tok) tok)"

definition proposal_failure :: "ProposalOutcome \<Rightarrow> ErrorCode \<Rightarrow> string \<Rightarrow> ProposalResult" where
  "proposal_failure out e d = default_ProposalResult\<lparr>pres_outcome := out, pres_error := e, pres_detail := d\<rparr>"

definition cpu_propose :: "CpuProposerConfig \<Rightarrow> proposer" where
  "cpu_propose cfg inp =
     (let depth = pin_depth inp in
      if depth = 0 then
        Ok (proposal_failure PO_NonRetryableFailure (Validation EC_invalid_zero_depth) ''proposal depth must be positive'')
      else if 256 < depth then
        Ok (proposal_failure PO_NonRetryableFailure (Validation EC_invalid_depth) ''proposal depth exceeds synthetic model bound'')
      else if pin_compute_budget inp \<noteq> 0 \<and> pin_compute_budget inp < ucast depth then
        Ok (proposal_failure PO_RetryableFailure (Resource EC_budget_exceeded) ''proposal would exceed compute budget'')
      else
        let tgt = make_model kTargetModelSeed;
            tokens = propose_loop (unat depth) tgt (ppc_aligned_tokens cfg) (pin_branch_index inp) 0
                       (seed_state (proposal_seed inp)) 0;
            base = pin_base_state inp;
            held = ucast depth * 64;
            ss = default_StateDescriptor\<lparr>
                   sd_ref := base\<lparr>sr_generation := StrongId (id_get (sr_generation base) + 1)\<rparr>,
                   sd_role := Role_Speculative, sd_reservation := RS_Used, sd_owner := SO_Proposal,
                   sd_bytes_held := held\<rparr>
        in Ok (default_ProposalResult\<lparr>
                 pres_outcome := PO_Success, pres_candidate := Some \<lparr>cs_tokens = map mk_token tokens\<rparr>,
                 pres_speculative_state := Some ss, pres_compute_spent := ucast depth * 8,
                 pres_memory_held := held, pres_execution_measured_ns := ucast depth * 1,
                 pres_detail := ''proposer produced '' @ word_string depth @ '' tokens''\<rparr>))"

section \<open>Verifier\<close>

record CpuVerifierConfig =
  pvc_state_seed :: u32
  pvc_weight_seed :: u32
  pvc_verify_from_candidate_identity :: bool

definition default_CpuVerifierConfig :: CpuVerifierConfig where
  "default_CpuVerifierConfig = \<lparr>pvc_state_seed = 0xBEEF, pvc_weight_seed = 0xBADA55,
     pvc_verify_from_candidate_identity = True\<rparr>"

definition cpu_verifier_identity :: ExecutorIdentity where
  "cpu_verifier_identity = \<lparr>exe_id = StrongId 0x56455249, exe_name = ''cpu-verifier'', exe_kind = EK_CPU,
     exe_protocol_version = 1\<rparr>"

text \<open>The verifier has its own copy of the mixing function.\<close>

definition verifier_mix64 :: "u64 \<Rightarrow> u64 \<Rightarrow> u64 \<Rightarrow> u64 \<Rightarrow> u64" where
  "verifier_mix64 a b c d =
     (let x = (a * 0x9E3779B97F4A7C15) XOR b;
          x = (x XOR drop_bit 27 x) * 0xBF58476D1CE4E5B9;
          x = (x XOR drop_bit 31 x) * 0x94D049BB133111EB;
          x = (x XOR drop_bit 27 x) + c * 0x9E3779B97F4A7C15;
          x = x XOR d;
          x = (x XOR drop_bit 30 x) * 0xBF58476D1CE4E5B9;
          x = (x XOR drop_bit 29 x) * 0x94D049BB133111EB
      in x XOR drop_bit 32 x)"

definition verification_seed :: "VerificationInput \<Rightarrow> u64" where
  "verification_seed inp =
     verifier_mix64 ((id_get (sr_id (vin_authoritative_state inp)) * 0x9E3779B97F4A7C15) XOR
            (id_get (sr_generation (vin_authoritative_state inp)) * 0x94D049BB133111EB))
       (id_get (vin_authoritative_generation inp))
       (id_get (mi_revision (vin_proposer inp)))
       (of_nat (cs_size (vin_candidate inp)) * 0x100000001B3)"

text \<open>
  The comparison loop over the remaining candidate tokens; the triple holds the per-position
  marks written so far, \<^verbatim>\<open>accepted_prefix\<close> and \<^verbatim>\<open>first_rejection_index\<close>.
\<close>

fun verify_loop :: "SyntheticModel \<Rightarrow> u32 \<Rightarrow> u32 \<Rightarrow> u32 list \<Rightarrow> u32 \<Rightarrow> TokenId list \<Rightarrow>
    u8 list \<times> u32 \<times> u32 \<Rightarrow> u8 list \<times> u32 \<times> u32" where
  "verify_loop tgt n i state prev [] r = r"
| "verify_loop tgt n i state prev (t # ts) (marks, accepted_prefix, first_rejection) =
     (let expected = model_token tgt state i prev kSyntheticVocab;
          accepted = (expected = t)
      in verify_loop tgt n (i + 1) (model_step tgt state expected) expected ts
           (marks @ [if accepted then 1 else 0],
            if accepted then accepted_prefix + 1 else accepted_prefix,
            if \<not> accepted \<and> first_rejection = n then i else first_rejection))"

definition verifier_failure :: "VerificationInput \<Rightarrow> bool \<Rightarrow> string \<Rightarrow> AcceptanceResult" where
  "verifier_failure inp retryable note = default_AcceptanceResult\<lparr>acc_outcome := AO_VerifierFailure,
     acc_retryable := retryable, acc_candidate_length := cs_depth (vin_candidate inp),
     acc_verifier_note := note\<rparr>"

text \<open>The result assembled after the loop.\<close>

definition acceptance_of :: "VerificationInput \<Rightarrow> u8 list \<times> u32 \<times> u32 \<Rightarrow> AcceptanceResult" where
  "acceptance_of inp = (\<lambda>(marks, accepted, first_rejection).
     let n = of_nat (cs_size (vin_candidate inp));
         st = vin_authoritative_state inp;
         next_sgen = StrongId (id_get (sr_generation st) + ucast accepted)
     in default_AcceptanceResult\<lparr>
          acc_outcome := (if accepted = n then AO_FullAccept
                          else if accepted = 0 then AO_RejectAll else AO_PartialAccept),
          acc_candidate_length := n, acc_accepted_prefix := accepted,
          acc_first_rejection_index := first_rejection, acc_per_position := marks,
          acc_next_generation := StrongId (id_get (vin_authoritative_generation inp) + ucast accepted),
          acc_next_state := st\<lparr>sr_generation := next_sgen\<rparr>, acc_next_state_generation := next_sgen,
          acc_execution_measured_ns := ucast n * 1,
          acc_verifier_note := ''deterministic verifier accepted '' @ word_string accepted @ ''/'' @ word_string n\<rparr>)"

definition cpu_verify :: verifier where
  "cpu_verify inp =
     (let cand = vin_candidate inp in
      if cs_empty cand then Ok (verifier_failure inp True ''candidate is empty'')
      else if is_null (cti_tokenizer (vin_candidate_identity inp)) then
        Ok (verifier_failure inp True ''tokenizer identity missing'')
      else if cti_vocab_size (vin_candidate_identity inp) \<noteq> kSyntheticVocab then
        Ok (verifier_failure inp False ''vocabulary size incompatible'')
      else
        let n = of_nat (cs_size cand)
        in Ok (acceptance_of inp
                 (verify_loop make_target_model n 0 (seed_state (verification_seed inp)) 0
                    (take (unat n) (cs_ids cand)) ([], 0, n))))"

section \<open>The target sequence\<close>

text \<open>The tokens of the target model along its own path, from loop index \<open>i\<close> on.\<close>

fun target_tokens :: "nat \<Rightarrow> SyntheticModel \<Rightarrow> u32 \<Rightarrow> u32 list \<Rightarrow> u32 \<Rightarrow> TokenId list" where
  "target_tokens 0 tgt i state prev = []"
| "target_tokens (Suc n) tgt i state prev =
     (let e = model_token tgt state i prev kSyntheticVocab
      in e # target_tokens n tgt (i + 1) (model_step tgt state e) e)"

text \<open>Number of agreeing positions and length of the agreeing prefix of two sequences.\<close>

fun agreements :: "'a list \<Rightarrow> 'a list \<Rightarrow> nat" where
  "agreements (x # xs) (y # ys) = (if x = y then 1 else 0) + agreements xs ys"
| "agreements _ _ = 0"

fun agree_prefix :: "'a list \<Rightarrow> 'a list \<Rightarrow> nat" where
  "agree_prefix (x # xs) (y # ys) = (if x = y then Suc (agree_prefix xs ys) else 0)"
| "agree_prefix _ _ = 0"

definition target_sequence :: "u64 \<Rightarrow> nat \<Rightarrow> TokenId list" where
  "target_sequence seed n = target_tokens n make_target_model 0 (seed_state seed) 0"

lemma length_target_tokens [simp]: "length (target_tokens n tgt i st prev) = n"
  by (induction n arbitrary: i st prev) (simp_all add: Let_def)

lemma length_target_sequence [simp]: "length (target_sequence s n) = n"
  by (simp add: target_sequence_def)

lemma verifier_mix64 [simp]: "verifier_mix64 = mix64"
  by (intro ext) (simp only: verifier_mix64_def mix64_def)

lemma length_propose_loop [simp]: "length (propose_loop n tgt k b i st prev) = n"
  by (induction n arbitrary: i st prev) (simp_all add: Let_def)

lemma agreements_le: "agreements xs ys \<le> length ys"
  by (induction xs ys rule: agreements.induct) auto

lemma agree_prefix_le: "agree_prefix xs ys \<le> length ys"
  by (induction xs ys rule: agree_prefix.induct) auto

lemma agree_prefix_le_agreements: "agree_prefix xs ys \<le> agreements xs ys"
  by (induction xs ys rule: agreements.induct) auto

lemma take_agree_prefix: "take (agree_prefix xs ys) xs = take (agree_prefix xs ys) ys"
  by (induction xs ys rule: agree_prefix.induct) auto

lemma agreements_full: "length xs = length ys \<Longrightarrow> agreements xs ys = length ys \<longleftrightarrow> xs = ys"
proof (induction xs ys rule: agreements.induct)
  case (1 x xs y ys)
  with agreements_le [of xs ys] show ?case by auto
qed auto

lemma agree_prefix_full: "length xs = length ys \<Longrightarrow> agree_prefix xs ys = length ys \<longleftrightarrow> xs = ys"
  by (induction xs ys rule: agree_prefix.induct) auto

lemma agree_prefix_mismatch:
  "length xs = length ys \<Longrightarrow> agree_prefix xs ys < length ys \<Longrightarrow>
     xs ! agree_prefix xs ys \<noteq> ys ! agree_prefix xs ys"
  by (induction xs ys rule: agree_prefix.induct) auto

lemma agree_prefix_eqI:
  assumes "take k xs = take k ys" and "k < length xs" and "k < length ys" and "xs ! k \<noteq> ys ! k"
  shows "agree_prefix xs ys = k"
  using assms
proof (induction xs ys arbitrary: k rule: agree_prefix.induct)
  case (1 x xs y ys)
  then show ?case by (cases k) auto
qed auto

lemma agree_prefix_ge:
  "take k xs = take k ys \<Longrightarrow> k \<le> length xs \<Longrightarrow> k \<le> length ys \<Longrightarrow> k \<le> agree_prefix xs ys"
proof (induction xs ys arbitrary: k rule: agree_prefix.induct)
  case (1 x xs y ys)
  then show ?case by (cases k) auto
qed auto

section \<open>Both loops against the target sequence\<close>

lemma vocab_simps [simp]: "kSyntheticVocab = 4096"
  by (simp add: kSyntheticVocab_def)

lemma of_nat_less_u32: "a < b \<Longrightarrow> b < 2 ^ 32 \<Longrightarrow> (of_nat a :: u32) < of_nat b"
  by (simp add: word_less_nat_alt unat_of_nat)

lemma of_nat_neq_u32: "a < b \<Longrightarrow> b < 2 ^ 32 \<Longrightarrow> (of_nat a :: u32) \<noteq> of_nat b"
  using of_nat_less_u32 [of a b] by auto

text \<open>
  What the comparison loop computes when it starts at index \<open>j\<close> of \<open>n\<close>: the marks, the number
  of agreeing positions, and the first disagreeing position unless one was found before.
\<close>

lemma verify_loop_eq:
  assumes "j + length ts = n" and "n < 2 ^ 32" and "fr = of_nat n \<or> unat fr < j"
  shows "verify_loop tgt (of_nat n) (of_nat j) st prev ts (ms, ap, fr) =
    (let es = target_tokens (length ts) tgt (of_nat j) st prev in
     (ms @ map2 (\<lambda>e t. if e = t then 1 else 0) es ts, ap + of_nat (agreements es ts),
      if fr = of_nat n then of_nat (j + agree_prefix es ts) else fr))"
  using assms
proof (induction ts arbitrary: j st prev ms ap fr)
  case Nil
  then show ?case by simp
next
  case (Cons t ts)
  let ?e = "model_token tgt st (of_nat j) prev kSyntheticVocab"
  have j: "j < n" using Cons.prems by simp
  have jn: "(of_nat j :: u32) \<noteq> of_nat n" using of_nat_neq_u32 [OF j] Cons.prems by simp
  have uj: "unat (of_nat j :: u32) = j" using j Cons.prems by (simp add: unat_of_nat)
  have suc: "(of_nat j :: u32) + 1 = of_nat (Suc j)" by simp
  have "unat fr < j \<Longrightarrow> unat fr < Suc j" by simp
  then have fr: "fr = of_nat n \<or> unat fr < Suc j" using Cons.prems by blast
  show ?case
  proof (cases "?e = t")
    case True
    with Cons.prems fr Cons.IH [of "Suc j" fr "model_step tgt st ?e" ?e "ms @ [1]" "ap + 1"] suc
    show ?thesis by (simp add: Let_def ac_simps)
  next
    case False
    have "(of_nat j :: u32) = of_nat n \<or> unat (of_nat j :: u32) < Suc j" using uj by simp
    from Cons.IH [OF _ _ this, of "model_step tgt st ?e" ?e "ms @ [0]" ap]
      Cons.IH [OF _ _ fr, of "model_step tgt st ?e" ?e "ms @ [0]" ap]
    show ?thesis using False Cons.prems jn suc by (simp add: Let_def ac_simps)
  qed
qed

lemma propose_loop_aligned:
  assumes "j + n < 2 ^ 32" and "k \<le> n"
    and "\<forall>l<k. (of_nat (j + l) :: u32) < al"
  shows "take k (propose_loop n tgt al b (of_nat j) st prev) = take k (target_tokens n tgt (of_nat j) st prev)"
  using assms
proof (induction n arbitrary: j k st prev)
  case (Suc n)
  show ?case
  proof (cases k)
    case (Suc k')
    with Suc.prems(3) have al: "(of_nat j :: u32) < al" by force
    have "\<forall>l<k'. (of_nat (Suc j + l) :: u32) < al"
      using Suc.prems(3) Suc by (metis Suc_less_eq add_Suc_right add_Suc)
    with Suc.IH [of "Suc j" k'] Suc.prems Suc al show ?thesis by (simp add: Let_def add.commute)
  qed simp
qed simp

lemma propose_loop_diverges:
  assumes "j + n < 2 ^ 32" and "k < n" and "\<forall>l<k. (of_nat (j + l) :: u32) < al"
    and "al \<le> (of_nat (j + k) :: u32)" and "(1 + b) mod 4096 \<noteq> 0"
  shows "propose_loop n tgt al b (of_nat j) st prev ! k \<noteq> target_tokens n tgt (of_nat j) st prev ! k"
  using assms
proof (induction n arbitrary: j k st prev)
  case (Suc n)
  show ?case
  proof (cases k)
    case 0
    let ?e = "model_token tgt st (of_nat j) prev 4096"
    from 0 Suc.prems have "\<not> (of_nat j :: u32) < al" by simp
    moreover have "(?e + (1 + b)) mod 4096 \<noteq> ?e"
      using shifted_token [OF model_token_bound, of tgt st "of_nat j" prev "1 + b"] Suc.prems(5) by blast
    then have "(?e + 1 + b) mod 4096 \<noteq> ?e" by (metis add.assoc)
    ultimately show ?thesis using 0 by (simp add: Let_def)
  next
    case (Suc k')
    with Suc.prems(3) have al: "(of_nat j :: u32) < al" by force
    have "\<forall>l<k'. (of_nat (Suc j + l) :: u32) < al"
      using Suc.prems(3) Suc by (metis Suc_less_eq add_Suc_right add_Suc)
    with Suc.IH [of "Suc j" k'] Suc.prems Suc al show ?thesis by (simp add: Let_def add.commute)
  qed
qed simp

lemma propose_loop_vocab: "t \<in> set (propose_loop n tgt al b i st prev) \<Longrightarrow> t < 4096"
  by (induction n arbitrary: i st prev)
    (auto simp: Let_def model_token_bound word_mod_4096_less split: if_splits)

section \<open>Drafts against the target\<close>

text \<open>The tokens a CPU draft of a branch consists of.\<close>

definition cpu_draft :: "u64 \<Rightarrow> u32 \<Rightarrow> u32 \<Rightarrow> u32 \<Rightarrow> u32 list" where
  "cpu_draft seed depth aligned branch = propose_loop (unat depth) make_target_model aligned branch 0 (seed_state seed) 0"

text \<open>How many tokens of a draft agree with the target sequence, on the best of the branches.\<close>

definition branch_agreement :: "u64 \<Rightarrow> u32 \<Rightarrow> u32 \<Rightarrow> u32 \<Rightarrow> nat" where
  "branch_agreement seed depth aligned b = agreements (target_sequence seed (unat depth)) (cpu_draft seed depth aligned b)"

definition best_agreement :: "u64 \<Rightarrow> u32 \<Rightarrow> u32 \<Rightarrow> u32 \<Rightarrow> nat" where
  "best_agreement seed depth branches aligned = Max ((\<lambda>i. branch_agreement seed depth aligned (of_nat i)) ` {..<unat branches})"

lemma best_agreement_eq:
  assumes "w < unat branches" and "\<And>i. i < unat branches \<Longrightarrow> branch_agreement seed depth aligned (of_nat i) \<le> branch_agreement seed depth aligned (of_nat w)"
  shows "best_agreement seed depth branches aligned = branch_agreement seed depth aligned (of_nat w)"
  unfolding best_agreement_def using assms by (intro Max_eqI) auto

lemma cpu_draft_aligned:
  assumes "m \<le> unat depth" and "m \<le> unat aligned"
  shows "take m (cpu_draft seed depth aligned b) = take m (target_sequence seed (unat depth))"
proof -
  have d: "0 + unat depth < 2 ^ 32" using unsigned_less [of depth, where ?'a = nat] by simp
  have "\<forall>l<m. (of_nat (0 + l) :: u32) < aligned"
    using assms d by (auto simp: word_less_nat_alt unat_of_nat take_bit_eq_mod)
  from propose_loop_aligned [OF d assms(1) this] show ?thesis
    unfolding cpu_draft_def target_sequence_def by simp
qed

lemma length_cpu_draft [simp]: "length (cpu_draft seed depth aligned b) = unat depth"
  by (simp add: cpu_draft_def length_propose_loop)

lemma branch_agreement_bounds:
  shows "min (unat aligned) (unat depth) \<le> branch_agreement seed depth aligned b" and "branch_agreement seed depth aligned b \<le> unat depth"
proof -
  let ?m = "min (unat aligned) (unat depth)" and ?es = "target_sequence seed (unat depth)" and ?ts = "cpu_draft seed depth aligned b"
  have "?m \<le> agree_prefix ?es ?ts"
    using cpu_draft_aligned [of ?m depth aligned seed b] by (intro agree_prefix_ge) (auto simp: length_target_sequence)
  then show "?m \<le> branch_agreement seed depth aligned b"
    unfolding branch_agreement_def using agree_prefix_le_agreements order_trans by blast
  show "branch_agreement seed depth aligned b \<le> unat depth"
    unfolding branch_agreement_def using agreements_le [of ?es ?ts] by simp
qed

section \<open>Interfaces of the executors\<close>

text \<open>What the fabric relies on: a successful proposal carries a candidate of the requested depth.\<close>

locale proposal_contract =
  fixes propose :: proposer
  assumes success_candidate: "propose inp = Ok r \<Longrightarrow> pres_success r \<Longrightarrow>
      \<exists>c. pres_candidate r = Some c \<and> cs_size c = unat (pin_depth inp) \<and> 0 < cs_size c"

text \<open>The accepted count never exceeds the candidate and determines the outcome.\<close>

locale verification_contract =
  fixes verify :: verifier
  assumes accepted_le: "verify inp = Ok a \<Longrightarrow> unat (acc_accepted_prefix a) \<le> cs_size (vin_candidate inp)"
    and full_accept: "verify inp = Ok a \<Longrightarrow> acc_outcome a = AO_FullAccept \<Longrightarrow>
      acc_accepted_prefix a = cs_depth (vin_candidate inp)"
    and partial_accept: "verify inp = Ok a \<Longrightarrow> acc_outcome a = AO_PartialAccept \<Longrightarrow>
      acc_accepted_prefix a \<noteq> 0 \<and> acc_accepted_prefix a \<noteq> cs_depth (vin_candidate inp)"
    and none_accept: "verify inp = Ok a \<Longrightarrow> acc_outcome a \<in> {AO_RejectAll, AO_VerifierFailure} \<Longrightarrow>
      acc_accepted_prefix a = 0"
begin

lemma partial_bounds:
  assumes "verify inp = Ok a" and "acc_outcome a = AO_PartialAccept" and "cs_size (vin_candidate inp) < 2 ^ 32"
  shows "0 < unat (acc_accepted_prefix a)" and "unat (acc_accepted_prefix a) < cs_size (vin_candidate inp)"
proof -
  show "0 < unat (acc_accepted_prefix a)"
    using partial_accept [OF assms(1,2)] by (simp add: unat_gt_0)
  have "unat (cs_depth (vin_candidate inp)) = cs_size (vin_candidate inp)"
    using assms(3) by (simp add: cs_depth_def unat_of_nat)
  then show "unat (acc_accepted_prefix a) < cs_size (vin_candidate inp)"
    using accepted_le [OF assms(1)] partial_accept [OF assms(1,2)] by (metis nat_less_le word_unat_eq_iff)
qed

end

definition ready_to_verify :: "VerificationInput \<Rightarrow> bool" where
  "ready_to_verify inp \<longleftrightarrow> \<not> cs_empty (vin_candidate inp) \<and>
     \<not> is_null (cti_tokenizer (vin_candidate_identity inp)) \<and>
     cti_vocab_size (vin_candidate_identity inp) = kSyntheticVocab"

lemma truncated_ids:
  fixes c :: CandidateSequence
  defines "n \<equiv> unat (of_nat (cs_size c) :: u32)"
  shows "n < 2 ^ 32" and "length (take n (cs_ids c)) = n" and "(of_nat n :: u32) = of_nat (cs_size c)"
proof -
  show "n < 2 ^ 32" using unsigned_less [of "of_nat (cs_size c) :: u32", where ?'a = nat] by (simp add: n_def)
  have "n \<le> cs_size c" by (simp add: n_def unat_of_nat)
  then show "length (take n (cs_ids c)) = n" by simp
  show "(of_nat n :: u32) = of_nat (cs_size c)" by (simp add: n_def)
qed

lemma cpu_verify_loop:
  fixes inp
  defines "c \<equiv> vin_candidate inp"
  defines "n \<equiv> unat (of_nat (cs_size c) :: u32)"
  defines "es \<equiv> target_sequence (verification_seed inp) n" and "ts \<equiv> take n (cs_ids c)"
  shows "verify_loop make_target_model (of_nat (cs_size c)) 0 (seed_state (verification_seed inp)) 0
      (take n (cs_ids c)) ([], 0, of_nat (cs_size c)) =
    (map2 (\<lambda>e t. if e = t then 1 else 0) es ts, of_nat (agreements es ts), of_nat (agree_prefix es ts))"
  using verify_loop_eq [of 0 ts n "of_nat n" make_target_model "seed_state (verification_seed inp)" 0 "[]" 0]
    truncated_ids [of c] by (simp add: n_def es_def ts_def c_def target_sequence_def Let_def)

text \<open>The verifier's result on an input it is ready to verify, in terms of the target sequence.\<close>

lemma cpu_verify_ready:
  fixes inp
  defines "n \<equiv> unat (of_nat (cs_size (vin_candidate inp)) :: u32)"
  defines "es \<equiv> target_sequence (verification_seed inp) n" and "ts \<equiv> take n (cs_ids (vin_candidate inp))"
  assumes "ready_to_verify inp"
  obtains a where "cpu_verify inp = Ok a" "acc_candidate_length a = of_nat n"
    "acc_per_position a = map2 (\<lambda>e t. if e = t then 1 else 0) es ts"
    "acc_accepted_prefix a = of_nat (agreements es ts)" "unat (acc_accepted_prefix a) = agreements es ts"
    "unat (acc_first_rejection_index a) = agree_prefix es ts"
    "acc_outcome a = (if es = ts then AO_FullAccept else if agreements es ts = 0 then AO_RejectAll else AO_PartialAccept)"
proof -
  let ?n = "of_nat (cs_size (vin_candidate inp)) :: u32"
  have n: "n < 2 ^ 32" "length ts = n" "of_nat n = ?n"
    using truncated_ids [of "vin_candidate inp"] by (simp_all add: n_def ts_def)
  then have ag: "agreements es ts < 2 ^ 32" "agree_prefix es ts < 2 ^ 32" "agreements es ts \<le> n"
    using agreements_le [of es ts] agree_prefix_le [of es ts] by auto
  have full: "(of_nat (agreements es ts) :: u32) = ?n \<longleftrightarrow> es = ts"
    using agreements_full [of es ts] n ag of_nat_neq_u32 [of "agreements es ts" n] 
    by (metis es_def le_neq_implies_less length_target_sequence)
  have zero: "(of_nat (agreements es ts) :: u32) = 0 \<longleftrightarrow> agreements es ts = 0"
    using ag of_nat_neq_u32 [of 0 "agreements es ts"] by auto
  have loop: "verify_loop make_target_model ?n 0 (seed_state (verification_seed inp)) 0
      (take (unat ?n) (cs_ids (vin_candidate inp))) ([], 0, ?n) =
      (map2 (\<lambda>e t. if e = t then 1 else 0) es ts, of_nat (agreements es ts), of_nat (agree_prefix es ts))"
    using cpu_verify_loop [of inp] by (simp add: n_def es_def ts_def)
  let ?a = "acceptance_of inp (map2 (\<lambda>e t. if e = t then 1 else 0) es ts,
      of_nat (agreements es ts), of_nat (agree_prefix es ts))"
  have "cpu_verify inp = Ok ?a"
    using assms(4) by (simp add: cpu_verify_def ready_to_verify_def Let_def loop)
  then show thesis
  proof (rule that)
    show "acc_outcome ?a = (if es = ts then AO_FullAccept else if agreements es ts = 0 then AO_RejectAll else AO_PartialAccept)"
      by (simp add: acceptance_of_def Let_def full zero)
  qed (use n ag in \<open>simp_all add: acceptance_of_def Let_def unat_of_nat\<close>)
qed

lemma cpu_verify_not_ready:
  "\<not> ready_to_verify inp \<Longrightarrow> \<exists>r note. cpu_verify inp = Ok (verifier_failure inp r note)"
  by (auto simp: ready_to_verify_def cpu_verify_def Let_def)

interpretation cpu_prop: proposal_contract "cpu_propose cfg"
proof
  fix inp r assume r: "cpu_propose cfg inp = Ok r" "pres_success r"
  let ?ts = "propose_loop (unat (pin_depth inp)) (make_model kTargetModelSeed) (ppc_aligned_tokens cfg)
      (pin_branch_index inp) 0 (seed_state (proposal_seed inp)) 0"
  have "pin_depth inp \<noteq> 0" and "pres_candidate r = Some \<lparr>cs_tokens = map mk_token ?ts\<rparr>"
    using r by (auto simp: cpu_propose_def Let_def proposal_failure_def pres_success_def split: if_splits)
  then show "\<exists>c. pres_candidate r = Some c \<and> cs_size c = unat (pin_depth inp) \<and> 0 < cs_size c"
    by (simp add: unat_gt_0)
qed

interpretation cpu_ver: verification_contract cpu_verify
proof -
  have facts: "unat (acc_accepted_prefix a) \<le> cs_size (vin_candidate inp) \<and>
      (acc_outcome a = AO_FullAccept \<longrightarrow> acc_accepted_prefix a = cs_depth (vin_candidate inp)) \<and>
      (acc_outcome a = AO_PartialAccept \<longrightarrow>
         acc_accepted_prefix a \<noteq> 0 \<and> acc_accepted_prefix a \<noteq> cs_depth (vin_candidate inp)) \<and>
      (acc_outcome a \<in> {AO_RejectAll, AO_VerifierFailure} \<longrightarrow> acc_accepted_prefix a = 0)"
    if v: "cpu_verify inp = Ok a" for inp a
  proof (cases "ready_to_verify inp")
    case True
    let ?l = "verify_loop make_target_model (of_nat (cs_size (vin_candidate inp))) 0
      (seed_state (verification_seed inp)) 0
      (take (unat (of_nat (cs_size (vin_candidate inp)) :: u32)) (cs_ids (vin_candidate inp)))
      ([], 0, of_nat (cs_size (vin_candidate inp)))"
    from True v have a: "a = acceptance_of inp ?l"
      by (auto simp: cpu_verify_def ready_to_verify_def Let_def)
    from cpu_verify_ready [OF True] obtain b where "cpu_verify inp = Ok b"
      "unat (acc_accepted_prefix b) \<le> unat (of_nat (cs_size (vin_candidate inp)) :: u32)"
      using agreements_le truncated_ids(2) by metis
    with v have "unat (acc_accepted_prefix a) \<le> cs_size (vin_candidate inp)"
      by (auto simp: unat_of_nat intro: order_trans)
    then show ?thesis
      unfolding a acceptance_of_def by (auto simp: Let_def cs_depth_def split: prod.splits)
  next
    case False
    from cpu_verify_not_ready [OF this] v show ?thesis
      by (auto simp: verifier_failure_def default_AcceptanceResult_def)
  qed
  show "verification_contract cpu_verify"
    by unfold_locales (use facts in blast)+
qed

section \<open>Properties of the executors\<close>

text \<open>
  The input the fabric builds for the verifier carries the proposal's envelope: the same base
  state and generation and the same proposer revision.
\<close>

definition same_envelope :: "ProposalInput \<Rightarrow> VerificationInput \<Rightarrow> bool" where
  "same_envelope p v \<longleftrightarrow> vin_authoritative_state v = pin_base_state p \<and>
     vin_authoritative_generation v = pin_base_generation p \<and>
     mi_revision (vin_proposer v) = mi_revision (pv_proposer_model (pin_provenance p))"

lemma same_seed:
  assumes "same_envelope p v" and "cs_size (vin_candidate v) = unat (pin_depth p)"
  shows "verification_seed v = proposal_seed p"
  using assms by (simp add: same_envelope_def verification_seed_def proposal_seed_def)

lemma cpu_propose_success:
  assumes "cpu_propose cfg p = Ok r" and "pres_candidate r = Some c"
  shows "cs_ids c = propose_loop (unat (pin_depth p)) make_target_model (ppc_aligned_tokens cfg)
      (pin_branch_index p) 0 (seed_state (proposal_seed p)) 0"
    and "0 < unat (pin_depth p)" and "unat (pin_depth p) \<le> 256"
  using assms by (auto simp: cpu_propose_def Let_def proposal_failure_def default_ProposalResult_def
      make_target_model unat_gt_0 word_le_nat_alt word_less_nat_alt not_less split: if_splits)

text \<open>Up to the alignment boundary the draft follows the target sequence.\<close>

lemma draft_aligned:
  assumes "cpu_propose cfg p = Ok r" and "pres_candidate r = Some c"
  defines "m \<equiv> min (unat (ppc_aligned_tokens cfg)) (unat (pin_depth p))"
  shows "take m (cs_ids c) = take m (target_sequence (proposal_seed p) (unat (pin_depth p)))"
  using cpu_draft_aligned [of m "pin_depth p" "ppc_aligned_tokens cfg" "proposal_seed p" "pin_branch_index p"]
    cpu_propose_success(1) [OF assms(1,2)] by (simp add: m_def cpu_draft_def)

lemma draft_agree_prefix:
  assumes "cpu_propose cfg p = Ok r" and "pres_candidate r = Some c" and "(1 + pin_branch_index p) mod 4096 \<noteq> 0"
  shows "agree_prefix (target_sequence (proposal_seed p) (unat (pin_depth p))) (cs_ids c) =
    min (unat (ppc_aligned_tokens cfg)) (unat (pin_depth p))"
proof -
  let ?d = "unat (pin_depth p)" and ?al = "ppc_aligned_tokens cfg"
  let ?es = "target_sequence (proposal_seed p) ?d"
  note c = cpu_propose_success [OF assms(1,2)]
  note aligned = draft_aligned [OF assms(1,2)]
  have d: "0 + ?d < 2 ^ 32" using c(3) by simp
  show ?thesis
  proof (cases "?d \<le> unat ?al")
    case True
    then have "take ?d (cs_ids c) = take ?d ?es" using aligned by (simp add: min_absorb2)
    then have "cs_ids c = ?es" using c(1) by simp
    then have "agree_prefix ?es (cs_ids c) = length (cs_ids c)"
      using agree_prefix_full [of ?es "cs_ids c"] by simp
    then show ?thesis using True c(1) by simp
  next
    case False
    let ?k = "unat ?al"
    from False have k: "?k < ?d" by simp
    have al: "\<forall>l<?k. (of_nat (0 + l) :: u32) < ?al"
      using k c(3) by (simp add: word_less_nat_alt unat_of_nat)
    have nal: "?al \<le> (of_nat (0 + ?k) :: u32)" by simp
    have "take ?k (cs_ids c) = take ?k ?es" using aligned False by (simp add: min_absorb1)
    moreover have "cs_ids c ! ?k \<noteq> ?es ! ?k"
      unfolding c(1) target_sequence_def
      using propose_loop_diverges [OF d k al nal assms(3), of make_target_model] by simp
    ultimately have "agree_prefix ?es (cs_ids c) = ?k"
      using k c(1) by (intro agree_prefix_eqI) (auto simp del: length_cs_ids)
    with False show ?thesis by simp
  qed
qed

text \<open>
  C19 (verify_against_target): on every input that names a tokenizer, the right vocabulary and a
  non-empty candidate (shorter than \<open>2^32\<close>), the verifier returns a result whose marks are the
  comparison with the target sequence, whose \<^verbatim>\<open>accepted_prefix\<close> is the number of agreeing
  positions, whose \<^verbatim>\<open>first_rejection_index\<close> is the length of the agreeing prefix, and
  whose outcome is full acceptance exactly for the target sequence itself.
\<close>

theorem verify_against_target:
  assumes "ready_to_verify inp" and "cs_size (vin_candidate inp) = n" and "n < 2 ^ 32"
    and "es = target_sequence (verification_seed inp) n" and "ts = cs_ids (vin_candidate inp)"
  shows "\<exists>a. cpu_verify inp = Ok a \<and> unat (acc_candidate_length a) = n \<and>
    acc_per_position a = map2 (\<lambda>e t. if e = t then 1 else 0) es ts \<and>
    unat (acc_accepted_prefix a) = agreements es ts \<and>
    unat (acc_first_rejection_index a) = agree_prefix es ts \<and>
    acc_outcome a = (if es = ts then AO_FullAccept else if agreements es ts = 0 then AO_RejectAll else AO_PartialAccept)"
proof -
  have n: "unat (of_nat (cs_size (vin_candidate inp)) :: u32) = n" using assms(2,3) by (simp add: unat_of_nat)
  have t: "take n (cs_ids (vin_candidate inp)) = ts" using assms(2,5) by simp
  from cpu_verify_ready [OF assms(1), unfolded n t, folded assms(4)] obtain a where
    "cpu_verify inp = Ok a" "acc_candidate_length a = of_nat n"
    "acc_per_position a = map2 (\<lambda>e t. if e = t then 1 else 0) es ts"
    "unat (acc_accepted_prefix a) = agreements es ts"
    "unat (acc_first_rejection_index a) = agree_prefix es ts"
    "acc_outcome a = (if es = ts then AO_FullAccept else if agreements es ts = 0 then AO_RejectAll else AO_PartialAccept)"
    by blast
  then show ?thesis using assms(3) by (intro exI [of _ a]) (simp add: unat_of_nat)
qed

definition sample_verification :: "TokenId list \<Rightarrow> VerificationInput" where
  "sample_verification ids = default_VerificationInput\<lparr>vin_candidate := \<lparr>cs_tokens = map mk_token ids\<rparr>,
     vin_candidate_identity := \<lparr>cti_tokenizer = StrongId 1, cti_vocab_size = 4096, cti_format = ''int32''\<rparr>\<rparr>"

lemma sample_ready: "ids \<noteq> [] \<Longrightarrow> ready_to_verify (sample_verification ids)"
  by (simp add: ready_to_verify_def sample_verification_def is_null_def null_id_def)

theorem verify_against_target_witness:
  "\<exists>a. cpu_verify (sample_verification [5, 7]) = Ok a \<and> unat (acc_candidate_length a) = 2"
  using verify_against_target [of "sample_verification [5, 7]" 2, OF sample_ready _ _ refl refl]
  by (auto simp: sample_verification_def)

text \<open>
  C18 (draft_first_rejection): a candidate drafted by the CPU proposer and verified by the CPU verifier
  under the same envelope is rejected first exactly at the alignment boundary: at
  \<^verbatim>\<open>aligned_tokens\<close>, or nowhere when that is at least the depth, and then the verdict is full
  acceptance of all of it (and only then). The shift that leaves the target path is nonzero unless
  the branch index is 4095 modulo the vocabulary size.
\<close>

theorem draft_first_rejection:
  assumes "cpu_propose cfg p = Ok r" and "pres_candidate r = Some c"
    and "(1 + pin_branch_index p) mod 4096 \<noteq> 0"
    and "same_envelope p v" and "vin_candidate v = c" and "ready_to_verify v"
  shows "\<exists>a. cpu_verify v = Ok a \<and>
    unat (acc_first_rejection_index a) = min (unat (ppc_aligned_tokens cfg)) (unat (pin_depth p)) \<and>
    (acc_outcome a = AO_FullAccept \<longleftrightarrow> unat (pin_depth p) \<le> unat (ppc_aligned_tokens cfg)) \<and>
    (acc_outcome a = AO_FullAccept \<longrightarrow> acc_accepted_prefix a = pin_depth p) \<and>
    unat (acc_first_rejection_index a) \<le> unat (acc_accepted_prefix a)"
proof -
  let ?d = "unat (pin_depth p)" and ?k = "unat (ppc_aligned_tokens cfg)"
  note c = cpu_propose_success [OF assms(1,2)]
  have size: "cs_size c = ?d" using c(1) by (metis length_cs_ids length_propose_loop)
  let ?es = "target_sequence (proposal_seed p) ?d"
  have es: "target_sequence (verification_seed v) (cs_size c) = ?es"
    using same_seed [OF assms(4)] assms(5) size by simp
  have n: "unat (of_nat (cs_size (vin_candidate v)) :: u32) = cs_size c" using assms(5) size by simp
  obtain a where a: "cpu_verify v = Ok a" "unat (acc_accepted_prefix a) = agreements ?es (cs_ids c)"
    "unat (acc_first_rejection_index a) = agree_prefix ?es (cs_ids c)"
    "acc_outcome a = (if ?es = cs_ids c then AO_FullAccept
       else if agreements ?es (cs_ids c) = 0 then AO_RejectAll else AO_PartialAccept)"
    using cpu_verify_ready [OF assms(6)] assms(5) n es by (metis length_cs_ids order.refl take_all)
  have ap: "agree_prefix ?es (cs_ids c) = min ?k ?d" using draft_agree_prefix [OF assms(1-3)] .
  have full: "?es = cs_ids c \<longleftrightarrow> ?d \<le> ?k"
    using agree_prefix_full [of ?es "cs_ids c"] size ap by auto
  have "?es = cs_ids c \<Longrightarrow> unat (acc_accepted_prefix a) = ?d"
    using agreements_full [of ?es "cs_ids c"] size a(2) by simp
  with a full ap agree_prefix_le_agreements [of ?es "cs_ids c"] show ?thesis
    by (auto simp: word_unat_eq_iff)
qed

definition sample_proposal :: "u32 \<Rightarrow> ProposalInput" where
  "sample_proposal depth = default_ProposalInput\<lparr>pin_depth := depth\<rparr>"

theorem draft_first_rejection_witness:
  "\<exists>r c a. cpu_propose (default_CpuProposerConfig\<lparr>ppc_aligned_tokens := 2\<rparr>) (sample_proposal 6) = Ok r \<and>
     pres_candidate r = Some c \<and> cpu_verify (sample_verification (cs_ids c)) = Ok a \<and>
     acc_first_rejection_index a = 2 \<and> acc_outcome a \<noteq> AO_FullAccept"
proof -
  let ?cfg = "default_CpuProposerConfig\<lparr>ppc_aligned_tokens := 2\<rparr>" and ?p = "sample_proposal 6"
  obtain r ids where r: "cpu_propose ?cfg ?p = Ok r"
    and c: "pres_candidate r = Some \<lparr>cs_tokens = map mk_token ids\<rparr>" and ids: "length ids = 6"
    by (auto simp: cpu_propose_def sample_proposal_def default_ProposalInput_def Let_def)
  have "same_envelope ?p (sample_verification ids)"
    by (simp add: same_envelope_def sample_proposal_def sample_verification_def default_ProposalInput_def
        default_VerificationInput_def default_ProposalProvenance_def)
  moreover have "vin_candidate (sample_verification ids) = \<lparr>cs_tokens = map mk_token ids\<rparr>"
    by (simp add: sample_verification_def)
  moreover have "ready_to_verify (sample_verification ids)" using ids by (intro sample_ready) auto
  moreover have "(1 + pin_branch_index ?p) mod 4096 \<noteq> 0"
    by (simp add: sample_proposal_def default_ProposalInput_def)
  ultimately obtain a where "cpu_verify (sample_verification ids) = Ok a"
    "unat (acc_first_rejection_index a) = min (unat (2 :: u32)) (unat (6 :: u32))"
    "acc_outcome a = AO_FullAccept \<longleftrightarrow> unat (6 :: u32) \<le> unat (2 :: u32)"
    using draft_first_rejection [OF r c] by (auto simp: sample_proposal_def)
  with r c show ?thesis by (auto simp: word_unat_eq_iff)
qed

text \<open>
  The verifier's \<^verbatim>\<open>accepted_prefix\<close> is not a prefix length. For every
  seedable envelope and every length above one there is a candidate whose first token is rejected
  (\<^verbatim>\<open>first_rejection_index\<close> is 0) and whose \<^verbatim>\<open>accepted_prefix\<close> nevertheless is
  the length minus one, with a partial acceptance as the verdict.
\<close>

lemma rejected_head_counted:
  assumes "1 < n" and "n < 2 ^ 32" and "\<not> is_null (cti_tokenizer (vin_candidate_identity inp))"
    and "cti_vocab_size (vin_candidate_identity inp) = kSyntheticVocab"
  shows "\<exists>ids a. length ids = n \<and> cpu_verify (inp\<lparr>vin_candidate := \<lparr>cs_tokens = map mk_token ids\<rparr>\<rparr>) = Ok a \<and>
    acc_first_rejection_index a = 0 \<and> unat (acc_accepted_prefix a) = n - 1 \<and> acc_outcome a = AO_PartialAccept"
proof -
  define inp' where "inp' ids = inp\<lparr>vin_candidate := \<lparr>cs_tokens = map mk_token ids\<rparr>\<rparr>" for ids
  define es where "es = target_sequence (verification_seed (inp' (replicate n 0))) n"
  obtain e es' where es': "es = e # es'" "length es' = n - 1"
    using assms(1) length_target_sequence [of _ n] by (cases es) (auto simp: es_def dest!: arg_cong [where f = length])
  let ?ids = "(e + 1) # es'"
  have seed: "verification_seed (inp' ?ids) = verification_seed (inp' (replicate n 0))"
    using es' assms(1) by (simp add: verification_seed_def inp'_def)
  have ready: "ready_to_verify (inp' ?ids)" using assms by (simp add: ready_to_verify_def inp'_def)
  have size: "cs_size (vin_candidate (inp' ?ids)) = n" using es' assms(1) by (simp add: inp'_def)
  have ids: "cs_ids (vin_candidate (inp' ?ids)) = ?ids" by (simp add: inp'_def cs_ids_def mk_token_def o_def)
  have "agreements es' es' = length es'" using agreements_full [of es' es'] by simp
  then have ag: "agreements es ?ids = n - 1" "agree_prefix es ?ids = 0" "es \<noteq> ?ids" using es' by simp_all
  have n: "unat (of_nat (cs_size (vin_candidate (inp' ?ids))) :: u32) = n"
    using assms(2) by (simp add: size unat_of_nat)
  have tk: "take n (cs_ids (vin_candidate (inp' ?ids))) = ?ids" using es' assms(1) by (simp add: ids)
  obtain a where "cpu_verify (inp' ?ids) = Ok a" "unat (acc_accepted_prefix a) = n - 1"
    "unat (acc_first_rejection_index a) = 0" "acc_outcome a = AO_PartialAccept"
    using cpu_verify_ready [OF ready, unfolded n tk seed, folded es_def] ag assms(1)
    by (metis diff_is_0_eq leD)
  then show ?thesis
    using es' assms(1) by (intro exI [of _ ?ids] exI [of _ a]) (auto simp: inp'_def unat_eq_0)
qed

lemma rejected_head_counted_example:
  "\<exists>ids a. length ids = 2 \<and>
     cpu_verify ((sample_verification [0, 0])\<lparr>vin_candidate := \<lparr>cs_tokens = map mk_token ids\<rparr>\<rparr>) = Ok a \<and>
     acc_first_rejection_index a = 0 \<and> unat (acc_accepted_prefix a) = 2 - 1 \<and> acc_outcome a = AO_PartialAccept"
  by (rule rejected_head_counted) (simp_all add: sample_verification_def is_null_def null_id_def)

end
