(* ===== verification/SF_Cycle.thy ===== *)
theory SF_Cycle
  imports SF_Fabric SF_Executors
begin

text \<open>
  \<^verbatim>\<open>SpeculationFabric::run_cycle\<close>. The function holds the mutex in four kinds of section and calls
  the executors between them, so it is split at exactly those points: \<open>cycle_prepare\<close> (phase 1),
  \<open>proposal_input\<close> (per branch), \<open>verification_input\<close> (per proposed branch) and \<open>cycle_commit\<close>
  (the final section). \<open>run_cycle\<close> composes them for a caller that runs alone; interleavings of
  the sections of several callers are the subject of a later theory. An empty optional that is
  dereferenced and a token index past the candidate are undefined behaviour: the result is \<open>None\<close>.
\<close>

section \<open>Phase 1: validate and prepare\<close>

record Prepared =
  pp_plan :: ProposalPlan
  pp_depth :: u32
  pp_branch_count :: u32
  pp_proposer :: proposer
  pp_verifier :: verifier

definition cycle_ratio :: "Fabric \<Rightarrow> double" where
  "cycle_ratio f =
     (if st_tokens_proposed (im_stats f) = 0 then 1
      else counter_ratio (st_tokens_accepted (im_stats f)) (st_tokens_proposed (im_stats f)))"

definition cycle_backpressure :: "RequestState \<Rightarrow> Fabric \<Rightarrow> BackpressureDecision" where
  "cycle_backpressure rs f =
     check_backpressure (im_scheduler f) (rs_req rs) (of_nat (length (rs_branches rs)))
       (of_nat (length (rs_proposals rs))) (if active_reservation_bytes rs \<noteq> 0 then 0 else 1) (cycle_ratio f)"

text \<open>The part after the deadline check, on a request that is neither terminal nor cancelled.\<close>

definition cycle_admit :: "RequestId \<Rightarrow> RequestState \<Rightarrow> Fabric \<Rightarrow> ((CycleOutcome Result + Prepared) \<times> Fabric) cpp" where
  "cycle_admit rid rs0 f0 =
     (let rs = (if is_terminal_phase (ssm_phase (rs_cycle rs0)) then rs0\<lparr>rs_cycle := machine_at Ph_Ready\<rparr> else rs0);
          f = set_request rid rs f0;
          compat = evaluate_compatibility \<lparr>key_proposer = rq_draft_model (rs_req rs),
                     key_verifier = rq_target_model (rs_req rs), key_protocol_version = 1\<rparr>;
          bp = cycle_backpressure rs f
      in if \<not> dec_compatible compat then
           let summary = ''incompatible pair: '' @
                 (case dec_reasons compat of [] \<Rightarrow> ''unspecified'' | r # _ \<Rightarrow> cmp_detail r)
           in Some (Inl (Ok ((make_outcome CK_ProposalNonRetryableFailure)
                      \<lparr>co_error := Compatibility EC_incompatible_model_pair, co_summary := summary\<rparr>)),
                    push_event rid ''cycle.incompatible'' summary ''{}'' f)
         else if bp_blocked bp then
           Some (Inl (Ok ((make_outcome CK_ProposalNonRetryableFailure)\<lparr>co_summary := ''bypassed: '' @ bp_detail bp\<rparr>)),
                 push_event rid ''cycle.bypass'' (bp_detail bp) ''{}''
                   (map_stats (\<lambda>s. s\<lparr>st_speculation_bypasses := st_speculation_bypasses s + 1\<rparr>) f))
         else do {
           (plan, rationale) \<leftarrow> plan_proposal (im_scheduler f) (rs_req rs) (rs_auth_gen rs) 0 0 0;
           (case (cfg_proposer (im_cfg f), cfg_verifier (im_cfg f)) of
              (Some proposer, Some verifier) \<Rightarrow>
                Some (Inr \<lparr>pp_plan = plan, pp_depth = max 1 (plan_depth plan),
                           pp_branch_count = max 1 (plan_branch_count plan),
                           pp_proposer = proposer, pp_verifier = verifier\<rparr>,
                      set_request rid (rs\<lparr>rs_cycle := machine_run [Ev_PlanProposal, Ev_ReserveProposal, Ev_DispatchProposal]
                                            (rs_cycle rs)\<rparr>) f)
            | _ \<Rightarrow>
                Some (Inl (Ok ((make_outcome CK_ProposalNonRetryableFailure)
                         \<lparr>co_error := General EC_not_implemented, co_summary := ''no proposer/verifier executor registered''\<rparr>)), f))
         })"

definition cycle_prepare :: "RequestId \<Rightarrow> Fabric \<Rightarrow> ((CycleOutcome Result + Prepared) \<times> Fabric) cpp" where
  "cycle_prepare rid f =
     (case lookup f rid of
        None \<Rightarrow> Some (Inl (err (General EC_not_found) ''unknown request''), f)
      | Some rs \<Rightarrow>
          if rs_terminal rs then Some (Inl (Ok ((make_outcome CK_Superseded)\<lparr>co_phase := Ph_Superseded\<rparr>)), f)
          else if rs_cancelled rs then Some (Inl (Ok ((make_outcome CK_Cancelled)\<lparr>co_phase := Ph_Cancelled\<rparr>)), f)
          else (case rq_deadline_ns (rs_req rs) of
                  None \<Rightarrow> cycle_admit rid rs f
                | Some deadline \<Rightarrow>
                    let (now, f1) = read_clock f in
                    if deadline < now then
                      Some (Inl (Ok ((make_outcome CK_Expired)\<lparr>co_phase := Ph_Expired\<rparr>)),
                            push_event rid ''cycle.expired'' ''deadline passed'' ''{}'' f1)
                    else cycle_admit rid rs f1))"

section \<open>Proposal and verification loops\<close>

record BranchResult =
  bres_pr :: ProposalResult
  bres_branch :: BranchId
  bres_proposer_model :: ModelIdentity

definition proposal_input :: "RequestId \<Rightarrow> Prepared \<Rightarrow> u32 \<Rightarrow> RequestState \<Rightarrow> ProposalInput" where
  "proposal_input rid pp b rs = default_ProposalInput\<lparr>
     pin_base_state := rs_auth_state rs, pin_base_generation := rs_auth_gen rs, pin_depth := pp_depth pp,
     pin_branch_index := b, pin_branch_count := pp_branch_count pp,
     pin_deterministic_seed := id_get (rq_id (rs_req rs)) XOR (id_get (rs_attempt rs) * 0x100000001B3),
     pin_provenance := default_ProposalProvenance\<lparr>
       pv_epoch := rs_epoch rs, pv_request := rid, pv_sequence := rq_sequence (rs_req rs),
       pv_attempt := rs_attempt rs, pv_branch := StrongId (ucast (b + 1)),
       pv_cycle := StrongId (ucast (rs_completed_cycles rs + 1)), pv_proposer_worker := null_id,
       pv_proposer_boot := null_id, pv_proposer_model := rq_draft_model (rs_req rs),
       pv_base_generation := rs_auth_gen rs, pv_dispatch := plan_dispatch (pp_plan pp)\<rparr>\<rparr>"

definition verification_input :: "RequestId \<Rightarrow> Prepared \<Rightarrow> BranchResult \<Rightarrow> CandidateSequence \<Rightarrow> RequestState \<Rightarrow>
    VerificationInput" where
  "verification_input rid pp br cand rs = default_VerificationInput\<lparr>
     vin_request := rid, vin_sequence := rq_sequence (rs_req rs), vin_attempt := rs_attempt rs,
     vin_branch := bres_branch br, vin_candidate := cand,
     vin_candidate_identity := default_CandidateTokenIdentity\<lparr>
       cti_tokenizer := tok_id (mi_tokenizer (rq_draft_model (rs_req rs))), cti_vocab_size := 4096\<rparr>,
     vin_proposer := bres_proposer_model br, vin_verifier := rq_target_model (rs_req rs),
     vin_compatibility := \<lparr>key_proposer = bres_proposer_model br, key_verifier = rq_target_model (rs_req rs),
                           key_protocol_version = 1\<rparr>,
     vin_authoritative_state := rs_auth_state rs, vin_authoritative_generation := rs_auth_gen rs,
     vin_authoritative_state_generation := rs_auth_state_gen rs, vin_dispatch := plan_dispatch (pp_plan pp),
     vin_epoch := rs_epoch rs\<rparr>"

text \<open>One iteration of each loop; \<open>rs\<close> is the request as that section of the mutex sees it.\<close>

definition propose_branch :: "RequestId \<Rightarrow> Prepared \<Rightarrow> u32 \<Rightarrow> RequestState \<Rightarrow> BranchResult Result" where
  "propose_branch rid pp b rs =
     (case pp_proposer pp (proposal_input rid pp b rs) of
        Err e \<Rightarrow> Err e
      | Ok pr \<Rightarrow> Ok \<lparr>bres_pr = pr, bres_branch = StrongId (ucast (b + 1)),
                    bres_proposer_model = rq_draft_model (rs_req rs)\<rparr>)"

definition verify_branch :: "RequestId \<Rightarrow> Prepared \<Rightarrow> BranchResult \<Rightarrow> RequestState \<Rightarrow> AcceptanceResult Result cpp" where
  "verify_branch rid pp br rs =
     map_option (\<lambda>cand. pp_verifier pp (verification_input rid pp br cand rs)) (pres_candidate (bres_pr br))"

text \<open>The loops for a caller that runs alone: every section sees the same request.\<close>

fun propose_branches :: "RequestId \<Rightarrow> Prepared \<Rightarrow> RequestState \<Rightarrow> nat \<Rightarrow> u32 \<Rightarrow> BranchResult list Result" where
  "propose_branches rid pp rs 0 b = Ok []"
| "propose_branches rid pp rs (Suc n) b =
     (case propose_branch rid pp b rs of
        Err e \<Rightarrow> Err e
      | Ok br \<Rightarrow> (case propose_branches rid pp rs n (b + 1) of Err e \<Rightarrow> Err e | Ok brs \<Rightarrow> Ok (br # brs)))"

fun verify_branches :: "RequestId \<Rightarrow> Prepared \<Rightarrow> RequestState \<Rightarrow> BranchResult list \<Rightarrow> AcceptanceResult list Result cpp" where
  "verify_branches rid pp rs [] = Some (Ok [])"
| "verify_branches rid pp rs (br # brs) =
     do {
       r \<leftarrow> verify_branch rid pp br rs;
       (case r of
          Err e \<Rightarrow> Some (Err e)
        | Ok a \<Rightarrow> do {
            rest \<leftarrow> verify_branches rid pp rs brs;
            Some (case rest of Err e \<Rightarrow> Err e | Ok as \<Rightarrow> Ok (a # as))
          })
     }"

section \<open>The final section\<close>

definition winner_step :: "BranchResult list \<Rightarrow> AcceptanceResult list \<Rightarrow> nat \<Rightarrow> nat \<Rightarrow> nat" where
  "winner_step proposed accepted winner i =
     (if acc_accepted_prefix (accepted ! winner) < acc_accepted_prefix (accepted ! i) then i
      else if acc_accepted_prefix (accepted ! i) = acc_accepted_prefix (accepted ! winner) \<and>
              id_get (bres_branch (proposed ! i)) < id_get (bres_branch (proposed ! winner)) then i
      else winner)"

definition pick_winner :: "BranchResult list \<Rightarrow> AcceptanceResult list \<Rightarrow> nat" where
  "pick_winner proposed accepted = foldl (winner_step proposed accepted) 0 [1..<length accepted]"

definition winning_proposal :: "RequestId \<Rightarrow> RequestState \<Rightarrow> BranchResult \<Rightarrow> CandidateSequence \<Rightarrow> u32 \<Rightarrow> Proposal" where
  "winning_proposal rid rs br cand accepted_prefix = default_Proposal\<lparr>
     prop_id := StrongId (of_nat (length (rs_proposals rs) + 1)),
     prop_generation := StrongId (ucast (rs_completed_cycles rs + 1)),
     prop_provenance := default_ProposalProvenance\<lparr>pv_epoch := rs_epoch rs, pv_request := rid,
       pv_sequence := rq_sequence (rs_req rs), pv_attempt := rs_attempt rs, pv_branch := bres_branch br\<rparr>,
     prop_candidate := cand,
     prop_token_identity := default_CandidateTokenIdentity\<lparr>
       cti_tokenizer := tok_id (mi_tokenizer (rq_draft_model (rs_req rs))), cti_vocab_size := 4096\<rparr>,
     prop_base_state := rs_auth_state rs, prop_base_state_generation := rs_auth_state_gen rs,
     prop_speculative_state := sd_ref (case pres_speculative_state (bres_pr br) of
        Some d \<Rightarrow> d | None \<Rightarrow> default_StateDescriptor),
     prop_compute_spent := pres_compute_spent (bres_pr br), prop_memory_held := pres_memory_held (bres_pr br),
     prop_finalized := True, prop_eligible_for_verification := True, prop_committed := 0 < accepted_prefix\<rparr>"

text \<open>
  \<^verbatim>\<open>retire_others\<close>: the first branch with the given identifier is retired; the flag tells
  whether one was found.
\<close>

fun retire_first :: "BranchId \<Rightarrow> Branch list \<Rightarrow> Branch list \<times> bool" where
  "retire_first b [] = ([], False)"
| "retire_first b (x # xs) =
     (if br_id x = b then (x\<lparr>br_retired := True\<rparr> # xs, True)
      else (let (ys, found) = retire_first b xs in (x # ys, found)))"

definition new_branch :: "RequestState \<Rightarrow> BranchId \<Rightarrow> bool \<Rightarrow> Branch" where
  "new_branch rs b retired = default_Branch\<lparr>br_id := b, br_request := rq_id (rs_req rs),
     br_sequence := rq_sequence (rs_req rs), br_attempt := rs_attempt rs,
     br_cycle := StrongId (ucast (rs_completed_cycles rs + 1)), br_base_generation := rs_auth_gen rs,
     br_proposer := rq_draft_model (rs_req rs), br_retired := retired\<rparr>"

definition retire_step :: "RequestState \<Rightarrow> BranchId \<Rightarrow> BranchId \<Rightarrow> Branch list \<times> u64 \<Rightarrow> Branch list \<times> u64" where
  "retire_step rs keep b = (\<lambda>(bs, losers).
     let found = list_ex (\<lambda>bb. br_id bb = b) bs;
         (bs1, losers1) = (if found then (bs, losers)
                           else (bs @ [new_branch rs b (b \<noteq> keep)], if b \<noteq> keep then losers + 1 else losers))
     in if b \<noteq> keep then
          let (bs2, already_retired) = retire_first b bs1
          in (bs2, if already_retired then losers1 + 1 else losers1)
        else (bs1, losers1))"

definition retire_others :: "BranchId \<Rightarrow> BranchResult list \<Rightarrow> u32 \<Rightarrow> u32 \<Rightarrow> RequestState \<Rightarrow> RollbackResult \<times> RequestState" where
  "retire_others keep proposed accepted_prefix rejected_tokens rs =
     (let (bs, losers) = foldl (\<lambda>acc br. retire_step rs keep (bres_branch br) acc) (rs_branches rs, 0) proposed
      in (default_RollbackResult\<lparr>rbk_accepted_prefix := accepted_prefix, rbk_rejected_tokens := rejected_tokens,
            rbk_restored_generation := rs_auth_gen rs, rbk_restored_state := rs_auth_state rs,
            rbk_restored_state_generation := rs_auth_state_gen rs, rbk_success := True,
            rbk_retired_branches := ucast losers, rbk_released_reservations := of_nat (active_count rs)\<rparr>,
          rs\<lparr>rs_branches := bs, rs_reservations := map release_active (rs_reservations rs)\<rparr>))"

text \<open>The authoritative state advances by the first \<open>n\<close> tokens of the candidate.\<close>

definition advance :: "u32 \<Rightarrow> CandidateSequence \<Rightarrow> RequestState \<Rightarrow> RequestState cpp" where
  "advance n cand rs =
     do {
       toks \<leftarrow> vec_prefix (unat n) (cs_ids cand);
       let sgen = StrongId (id_get (sr_generation (rs_auth_state rs)) + ucast n);
       Some (rs\<lparr>rs_committed := rs_committed rs @ toks,
                rs_auth_gen := StrongId (id_get (rs_auth_gen rs) + ucast n),
                rs_auth_state := (rs_auth_state rs)\<lparr>sr_generation := sgen\<rparr>,
                rs_auth_state_gen := sgen\<rparr>)
     }"

text \<open>The two machine events of a branch of the decision; the phase is reported only on success.\<close>

definition decide_phase :: "SpeculationEvent \<Rightarrow> SpeculationEvent \<Rightarrow> SpeculativeStateMachine \<Rightarrow> SpeculativePhase \<times> SpeculativeStateMachine" where
  "decide_phase e1 e2 m =
     (let (r2, m2) = machine_apply e2 (snd (machine_apply e1 m))
      in (case r2 of Ok p \<Rightarrow> p | Err _ \<Rightarrow> Ph_Ready, m2))"

definition commit_result :: "u32 \<Rightarrow> u32 \<Rightarrow> RequestState \<Rightarrow> CommitResult" where
  "commit_result accepted rejected rs = default_CommitResult\<lparr>com_success := True, com_committed_tokens := accepted,
     com_accepted_prefix := accepted, com_rejected_tokens := rejected, com_new_generation := rs_auth_gen rs,
     com_new_state := rs_auth_state rs, com_new_state_generation := rs_auth_state_gen rs\<rparr>"

text \<open>The full, partial and rejecting branches of the decision, from the request after the machine events.\<close>

definition decide :: "BranchResult list \<Rightarrow> BranchId \<Rightarrow> CandidateSequence \<Rightarrow> u32 \<Rightarrow> Proposal \<Rightarrow> CycleOutcome \<Rightarrow>
    RequestState \<Rightarrow> (CycleOutcome \<times> RequestState) cpp" where
  "decide proposed win_branch cand accepted_prefix winprop out rs =
     (let candidate_len = of_nat (cs_size cand);
          rejected = candidate_len - accepted_prefix
      in if accepted_prefix = candidate_len then do {
           rs1 \<leftarrow> advance accepted_prefix cand rs;
           let (ph, m) = decide_phase Ev_AcceptFull Ev_Commit (rs_cycle rs1);
           let (rb, rs2) = retire_others win_branch proposed accepted_prefix rejected
                             (rs1\<lparr>rs_proposals := rs_proposals rs1 @ [winprop], rs_cycle := m\<rparr>);
           Some (out\<lparr>co_phase := ph, co_rollback := rb, co_outcome := CK_VerificationSuccessFullAccept,
                     co_commit := commit_result accepted_prefix 0 rs2,
                     co_accepted_tokens := accepted_prefix, co_rejected_tokens := 0\<rparr>, rs2)
         }
         else if 0 < accepted_prefix then do {
           rs1 \<leftarrow> advance accepted_prefix cand rs;
           let (ph, m) = decide_phase Ev_AcceptPartial Ev_Commit (rs_cycle rs1);
           let (rb, rs2) = retire_others win_branch proposed accepted_prefix rejected
                             (rs1\<lparr>rs_proposals := rs_proposals rs1 @ [winprop], rs_cycle := m\<rparr>);
           Some (out\<lparr>co_phase := ph, co_rollback := rb, co_commit := commit_result accepted_prefix rejected rs2,
                     co_outcome := CK_VerificationSuccessPartialAccept,
                     co_accepted_tokens := accepted_prefix, co_rejected_tokens := rejected\<rparr>, rs2)
         }
         else do {
           let (ph, m) = decide_phase Ev_RejectAll Ev_Rollback (rs_cycle rs);
           let (rb, rs2) = retire_others win_branch proposed accepted_prefix rejected
                             (rs\<lparr>rs_proposals := rs_proposals rs @ [winprop], rs_cycle := m\<rparr>);
           Some (out\<lparr>co_phase := ph, co_rollback := rb, co_outcome := CK_VerificationRejectAll,
                     co_accepted_tokens := 0, co_rejected_tokens := candidate_len\<rparr>, rs2)
         })"

definition outcome_stats :: "CycleOutcomeKind \<Rightarrow> u32 \<Rightarrow> u32 \<Rightarrow> Stats \<Rightarrow> Stats" where
  "outcome_stats k candidate_len accepted_prefix s =
     (let s1 = (if k = CK_VerificationSuccessFullAccept then s\<lparr>st_full_accept_count := st_full_accept_count s + 1\<rparr>
                else if k = CK_VerificationSuccessPartialAccept then
                  s\<lparr>st_partial_accept_count := st_partial_accept_count s + 1, st_rollback_count := st_rollback_count s + 1\<rparr>
                else s\<lparr>st_full_reject_count := st_full_reject_count s + 1, st_rollback_count := st_rollback_count s + 1\<rparr>)
      in s1\<lparr>st_tokens_proposed := st_tokens_proposed s1 + ucast candidate_len,
            st_tokens_accepted := st_tokens_accepted s1 + ucast accepted_prefix,
            st_tokens_rejected := st_tokens_rejected s1 + ucast (candidate_len - accepted_prefix),
            st_speculative_cycles_started := st_speculative_cycles_started s1 + 1,
            st_proposals_produced := st_proposals_produced s1 + 1,
            st_verifications_run := st_verifications_run s1 + 1\<rparr>)"

definition acceptance_sample :: "u32 \<Rightarrow> u32 \<Rightarrow> double" where
  "acceptance_sample accepted_prefix candidate_len =
     (if candidate_len = 0 then 0
      else fl (of_nat (unat accepted_prefix) / of_nat (unat candidate_len)))"

definition outcome_label :: "CycleOutcomeKind \<Rightarrow> string" where
  "outcome_label k = (if k = CK_VerificationSuccessFullAccept then ''full accept''
     else if k = CK_VerificationSuccessPartialAccept then ''partial accept'' else ''reject all'')"

definition finish_events :: "SpeculationEvent list" where
  "finish_events = [Ev_ProposalFinished, Ev_PlanVerification, Ev_ReserveVerification, Ev_DispatchVerification,
     Ev_VerificationFinished]"

definition cycle_commit :: "RequestId \<Rightarrow> Prepared \<Rightarrow> BranchResult list \<Rightarrow> AcceptanceResult list \<Rightarrow> Fabric \<Rightarrow>
    (CycleOutcome Result \<times> Fabric) cpp" where
  "cycle_commit rid pp proposed accepted f =
     (case lookup f rid of
        None \<Rightarrow> Some (err (General EC_not_found) ''unknown request'', f)
      | Some rs \<Rightarrow>
          if rs_terminal rs \<or> rs_cancelled rs then
            let summary = ''authority changed while speculative work was in flight'' in
            Some (Ok ((make_outcome CK_StaleAuthorityRejected)\<lparr>
                    co_error := (if rs_terminal rs then Authority EC_completion_after_terminal
                                 else Authority EC_completion_after_cancellation),
                    co_summary := summary\<rparr>),
                  push_event rid ''cycle.stale'' summary ''{}''
                    (map_stats (\<lambda>s. s\<lparr>st_proposals_rejected_stale := st_proposals_rejected_stale s + 1\<rparr>) f))
          else
            let winner = pick_winner proposed accepted in do {
              win \<leftarrow> vec_at proposed winner;
              win_accept \<leftarrow> vec_at accepted winner;
              cand \<leftarrow> pres_candidate (bres_pr win);
              let accepted_prefix = acc_accepted_prefix win_accept;
              let candidate_len = of_nat (cs_size cand);
              let winprop = winning_proposal rid rs win cand accepted_prefix;
              let out0 = default_CycleOutcome\<lparr>co_proposal := prop_id winprop, co_branch := bres_branch win,
                           co_depth := pp_depth pp, co_proposed_tokens := candidate_len\<rparr>;
              (out, rs2) \<leftarrow> decide proposed (bres_branch win) cand accepted_prefix winprop out0
                             (rs\<lparr>rs_cycle := machine_run finish_events (rs_cycle rs)\<rparr>);
              let rs3 = rs2\<lparr>rs_cycle := machine_at Ph_Ready, rs_completed_cycles := rs_completed_cycles rs2 + 1\<rparr>;
              let f1 = map_stats (outcome_stats (co_outcome out) candidate_len accepted_prefix) (set_request rid rs3 f);
              let f2 = f1\<lparr>im_scheduler := (im_scheduler f1)\<lparr>sch_adaptive :=
                          ad_record (acceptance_sample accepted_prefix candidate_len) (sch_adaptive (im_scheduler f1))\<rparr>\<rparr>;
              Some (Ok out, push_event rid ''cycle.completed'' (outcome_label (co_outcome out)) ''{}'' f2)
            })"

section \<open>run_cycle\<close>

definition request_at :: "RequestId \<Rightarrow> Fabric \<Rightarrow> RequestState" where
  "request_at rid f = (case lookup f rid of Some rs \<Rightarrow> rs | None \<Rightarrow> default_RequestState)"

definition run_cycle :: "RequestId \<Rightarrow> Fabric \<Rightarrow> (CycleOutcome Result \<times> Fabric) cpp" where
  "run_cycle rid f =
     do {
       (p, f1) \<leftarrow> cycle_prepare rid f;
       (case p of
          Inl r \<Rightarrow> Some (r, f1)
        | Inr pp \<Rightarrow>
            (case propose_branches rid pp (request_at rid f1) (unat (pp_branch_count pp)) 0 of
               Err e \<Rightarrow> Some (Err e, f1)
             | Ok proposed \<Rightarrow> do {
                 v \<leftarrow> verify_branches rid pp (request_at rid f1) proposed;
                 (case v of
                    Err e \<Rightarrow> Some (Err e, f1)
                  | Ok accepted \<Rightarrow> cycle_commit rid pp proposed accepted f1)
               }))
     }"

section \<open>The winner\<close>

definition beats :: "BranchResult list \<Rightarrow> AcceptanceResult list \<Rightarrow> nat \<Rightarrow> nat \<Rightarrow> bool" where
  "beats proposed accepted w i \<longleftrightarrow>
     acc_accepted_prefix (accepted ! i) < acc_accepted_prefix (accepted ! w) \<or>
     acc_accepted_prefix (accepted ! i) = acc_accepted_prefix (accepted ! w) \<and>
     id_get (bres_branch (proposed ! w)) \<le> id_get (bres_branch (proposed ! i))"

interpretation winner: tournament "winner_step proposed accepted" "beats proposed accepted"
  by unfold_locales (auto simp: beats_def winner_step_def)

lemma pick_winner_less: "accepted \<noteq> [] \<Longrightarrow> pick_winner proposed accepted < length accepted"
  using winner.winner [of "length accepted" proposed accepted] by (simp add: pick_winner_def)

section \<open>Advancing the authoritative state\<close>

text \<open>The request after the first \<open>n\<close> tokens of a candidate are committed.\<close>

definition advanced :: "u32 \<Rightarrow> CandidateSequence \<Rightarrow> RequestState \<Rightarrow> RequestState" where
  "advanced n cand rs = rs\<lparr>rs_committed := rs_committed rs @ take (unat n) (cs_ids cand),
     rs_auth_gen := StrongId (id_get (rs_auth_gen rs) + ucast n),
     rs_auth_state := (rs_auth_state rs)\<lparr>sr_generation := StrongId (id_get (sr_generation (rs_auth_state rs)) + ucast n)\<rparr>,
     rs_auth_state_gen := StrongId (id_get (sr_generation (rs_auth_state rs)) + ucast n)\<rparr>"

lemma advance_eq: "advance n cand rs = (if unat n \<le> cs_size cand then Some (advanced n cand rs) else None)"
  by (simp add: advance_def advanced_def Let_def vec_prefix_def)

lemma wf_state_generation: "request_wf r rs \<Longrightarrow> rs_auth_state_gen rs = sr_generation (rs_auth_state rs)"
  by (simp add: request_wf_def)

lemma advanced_0: "request_wf r rs \<Longrightarrow> advanced 0 cand rs = rs"
  by (drule wf_state_generation) (cases rs, simp add: advanced_def)

lemma advanced_wf:
  assumes "request_wf r rs" and "unat n \<le> cs_size cand"
  shows "request_wf r (advanced n cand rs)"
proof -
  from assms(1) have "length (rq_prefix (rs_req rs)) \<le> length (rs_committed rs)"
    by (auto simp: request_wf_def dest: prefix_length_le)
  then have "length (rs_committed rs) + unat n - length (rq_prefix (rs_req rs)) =
      (length (rs_committed rs) - length (rq_prefix (rs_req rs))) + unat n" by simp
  moreover have "(of_nat (unat n) :: u64) = ucast n" by simp
  ultimately show ?thesis
    using assms by (auto simp: request_wf_def advanced_def prefix_append min_def simp del: of_nat_unat)
qed

definition settled :: "RequestState \<Rightarrow> Proposal \<Rightarrow> Branch list \<Rightarrow> RequestState" where
  "settled rs winprop bs = rs\<lparr>rs_proposals := rs_proposals rs @ [winprop], rs_cycle := machine_at Ph_Ready,
     rs_branches := bs, rs_completed_cycles := rs_completed_cycles rs + 1\<rparr>"

lemma settled_wf: "request_wf r rs \<Longrightarrow> request_wf r (settled rs winprop bs)"
  by (simp add: settled_def request_wf_def)

lemma retire_others_state:
  "snd (retire_others keep pr a rj rs) = rs\<lparr>rs_branches := rs_branches (snd (retire_others keep pr a rj rs)),
     rs_reservations := map release_active (rs_reservations rs)\<rparr>"
  by (simp add: retire_others_def Let_def case_prod_beta)

text \<open>Whatever the verdict, the request advances by the accepted tokens and records the proposal.\<close>

lemma decide_state:
  assumes "decide pr wb cand ap winprop out rs = Some (out', rs')" and "request_wf r rs"
  shows "unat ap \<le> cs_size cand"
    and "\<exists>bs m. rs' = (advanced ap cand rs)\<lparr>rs_proposals := rs_proposals rs @ [winprop], rs_cycle := m, rs_branches := bs\<rparr>"
    and "co_outcome out' = (if ap = of_nat (cs_size cand) then CK_VerificationSuccessFullAccept
           else if 0 < ap then CK_VerificationSuccessPartialAccept else CK_VerificationRejectAll)"
    and "co_accepted_tokens out' = ap"
    and "co_rejected_tokens out' = of_nat (cs_size cand) - ap"
proof -
  have res: "rs_reservations rs = []" using assms(2) by (simp add: request_wf_def)
  have adv: "advanced 0 cand rs = rs" using assms(2) by (rule advanced_0)
  consider (full) "ap = of_nat (cs_size cand)" | (partial) "ap \<noteq> of_nat (cs_size cand)" "0 < ap"
    | (reject) "ap \<noteq> of_nat (cs_size cand)" "ap = 0" using word_gt_0 by blast
  note cases = this
  show "unat ap \<le> cs_size cand" using cases
  proof cases
    case reject then show ?thesis by simp
  qed (use assms(1) in \<open>auto simp: decide_def Let_def advance_eq split: if_splits\<close>)
  show "co_outcome out' = (if ap = of_nat (cs_size cand) then CK_VerificationSuccessFullAccept
           else if 0 < ap then CK_VerificationSuccessPartialAccept else CK_VerificationRejectAll)"
    and "co_accepted_tokens out' = ap" and "co_rejected_tokens out' = of_nat (cs_size cand) - ap"
    using cases by (cases; use assms(1) in \<open>auto simp: decide_def Let_def advance_eq case_prod_beta split: if_splits\<close>)+
  let ?st = "\<lambda>m. (advanced ap cand rs)\<lparr>rs_proposals := rs_proposals rs @ [winprop], rs_cycle := m\<rparr>"
  have step: "snd (retire_others wb pr a j (?st m)) =
      (?st m)\<lparr>rs_branches := rs_branches (snd (retire_others wb pr a j (?st m)))\<rparr>" for a j m
    by (subst retire_others_state) (simp add: advanced_def res)
  have "\<exists>a j m. rs' = snd (retire_others wb pr a j (?st m))" using cases
  proof cases
    case full
    with assms(1) show ?thesis
      by (auto simp: decide_def Let_def advance_eq case_prod_beta advanced_def split: if_splits)
  next
    case partial
    with assms(1) show ?thesis
      by (auto simp: decide_def Let_def advance_eq case_prod_beta advanced_def split: if_splits)
  next
    case reject
    with assms(1) adv show ?thesis by (auto simp: decide_def Let_def case_prod_beta)
  qed
  with step show "\<exists>bs m. rs' = (advanced ap cand rs)\<lparr>rs_proposals := rs_proposals rs @ [winprop], rs_cycle := m, rs_branches := bs\<rparr>"
    by metis
qed

section \<open>The final section as a whole\<close>

lemma request_wf_cycle: "request_wf r rs \<Longrightarrow> request_wf r (rs\<lparr>rs_cycle := m\<rparr>)"
  by (simp add: request_wf_def)

lemma settled_eq:
  "((advanced n cand (rs\<lparr>rs_cycle := m\<rparr>))\<lparr>rs_proposals := rs_proposals (rs\<lparr>rs_cycle := m\<rparr>) @ [winprop],
      rs_cycle := m', rs_branches := bs\<rparr>)\<lparr>rs_cycle := machine_at Ph_Ready, rs_completed_cycles := c + 1\<rparr> =
   (settled (advanced n cand rs) winprop bs)\<lparr>rs_completed_cycles := c + 1\<rparr>"
  by (cases rs) (simp add: advanced_def settled_def)

text \<open>A commit section on a live request whose behaviour is defined.\<close>

lemma cycle_commit_live:
  assumes "cycle_commit rid pp proposed accepted f = Some (r, f')" and "fabric_wf f"
    and "lookup f rid = Some rs" and "\<not> rs_terminal rs" and "\<not> rs_cancelled rs"
  obtains win a cand out bs e where
    "pick_winner proposed accepted < length proposed" "win = proposed ! pick_winner proposed accepted"
    "pick_winner proposed accepted < length accepted" "a = accepted ! pick_winner proposed accepted"
    "pres_candidate (bres_pr win) = Some cand" "unat (acc_accepted_prefix a) \<le> cs_size cand"
    "r = Ok out" "co_accepted_tokens out = acc_accepted_prefix a"
    "co_rejected_tokens out = of_nat (cs_size cand) - acc_accepted_prefix a"
    "co_outcome out = (if acc_accepted_prefix a = of_nat (cs_size cand) then CK_VerificationSuccessFullAccept
           else if 0 < acc_accepted_prefix a then CK_VerificationSuccessPartialAccept else CK_VerificationRejectAll)"
    "lookup f' rid = Some (with_event e (settled (advanced (acc_accepted_prefix a) cand rs)
        (winning_proposal rid rs win cand (acc_accepted_prefix a)) bs))"
    "\<And>r'. r' \<noteq> rid \<Longrightarrow> lookup f' r' = lookup f r'"
    "fabric_wf f'" "fb_cfg f' = fb_cfg f" "im_cfg f' = im_cfg f"
    "im_scheduler f' = (im_scheduler f)\<lparr>sch_adaptive :=
       ad_record (acceptance_sample (acc_accepted_prefix a) (of_nat (cs_size cand))) (sch_adaptive (im_scheduler f))\<rparr>"
    "im_stats f' = outcome_stats (co_outcome out) (of_nat (cs_size cand)) (acc_accepted_prefix a) (im_stats f)"
proof -
  let ?w = "pick_winner proposed accepted" and ?m = "machine_run finish_events (rs_cycle rs)"
  have wf: "request_wf rid rs" using wf_lookup [OF assms(2,3)] .
  from assms(1,3-5) obtain cand out rs2 where
    w: "?w < length proposed" "?w < length accepted" and cand: "pres_candidate (bres_pr (proposed ! ?w)) = Some cand"
    and dec: "decide proposed (bres_branch (proposed ! ?w)) cand (acc_accepted_prefix (accepted ! ?w))
        (winning_proposal rid rs (proposed ! ?w) cand (acc_accepted_prefix (accepted ! ?w)))
        (default_CycleOutcome\<lparr>co_proposal := prop_id (winning_proposal rid rs (proposed ! ?w) cand (acc_accepted_prefix (accepted ! ?w))),
           co_branch := bres_branch (proposed ! ?w), co_depth := pp_depth pp, co_proposed_tokens := of_nat (cs_size cand)\<rparr>)
        (rs\<lparr>rs_cycle := ?m\<rparr>) = Some (out, rs2)"
    and r: "r = Ok out"
    and f': "f' = push_event rid ''cycle.completed'' (outcome_label (co_outcome out)) ''{}''
      (let f1 = map_stats (outcome_stats (co_outcome out) (of_nat (cs_size cand)) (acc_accepted_prefix (accepted ! ?w)))
         (set_request rid (rs2\<lparr>rs_cycle := machine_at Ph_Ready, rs_completed_cycles := rs_completed_cycles rs2 + 1\<rparr>) f)
       in f1\<lparr>im_scheduler := (im_scheduler f1)\<lparr>sch_adaptive := ad_record
            (acceptance_sample (acc_accepted_prefix (accepted ! ?w)) (of_nat (cs_size cand))) (sch_adaptive (im_scheduler f1))\<rparr>\<rparr>)"
    by (auto simp: cycle_commit_def Let_def split: bind_splits)
  let ?ap = "acc_accepted_prefix (accepted ! ?w)"
  let ?winprop = "winning_proposal rid rs (proposed ! ?w) cand ?ap"
  note d = decide_state [OF dec request_wf_cycle [OF wf]]
  from d(2) obtain bs m where rs2: "rs2 = (advanced ?ap cand (rs\<lparr>rs_cycle := ?m\<rparr>))
      \<lparr>rs_proposals := rs_proposals (rs\<lparr>rs_cycle := ?m\<rparr>) @ [?winprop], rs_cycle := m, rs_branches := bs\<rparr>" by blast
  have rs3: "rs2\<lparr>rs_cycle := machine_at Ph_Ready, rs_completed_cycles := rs_completed_cycles rs2 + 1\<rparr> =
      settled (advanced ?ap cand rs) ?winprop bs"
    unfolding rs2 settled_eq by (simp add: settled_def advanced_def)
  have wf3: "request_wf rid (settled (advanced ?ap cand rs) ?winprop bs)"
    using wf d(1) by (intro settled_wf advanced_wf)
  have sched: "fabric_wf (g\<lparr>im_scheduler := s\<rparr>) = fabric_wf g" for g s by (simp add: fabric_wf_def)
  show thesis
    by (rule that [OF w(1) refl w(2) refl cand d(1) r d(4,5,3)])
      (simp_all add: f' Let_def rs3 wf_push_event sched wf_set_request assms(2) wf3)
qed

lemma cycle_commit_fenced:
  assumes "lookup f rid = Some rs" and "rs_terminal rs \<or> rs_cancelled rs"
  shows "\<exists>out g. cycle_commit rid pp proposed accepted f =
      Some (Ok out, push_event rid ''cycle.stale'' (co_summary out) ''{}'' (map_stats g f)) \<and>
    co_outcome out = CK_StaleAuthorityRejected"
  using assms by (auto simp: cycle_commit_def Let_def make_outcome_def)

section \<open>The preparing section and the loops\<close>

text \<open>Two states of a request that differ at most in the cycle machine and the event log.\<close>

definition same_request :: "RequestState \<Rightarrow> RequestState \<Rightarrow> bool" where
  "same_request rs rs' \<longleftrightarrow> rs = rs'\<lparr>rs_cycle := rs_cycle rs, rs_events := rs_events rs\<rparr>"

lemma same_request_intros [intro, simp]:
  "same_request rs rs" "same_request rs (rs\<lparr>rs_cycle := m\<rparr>)" "same_request rs (with_event e rs)"
  "same_request rs (with_event e (rs\<lparr>rs_cycle := m\<rparr>))"
  by (simp_all add: same_request_def with_event_def)

lemma same_requestD:
  assumes "same_request rs rs'"
  shows "rs_req rs' = rs_req rs" "rs_attempt rs' = rs_attempt rs" "rs_epoch rs' = rs_epoch rs"
    "rs_auth_gen rs' = rs_auth_gen rs" "rs_auth_state rs' = rs_auth_state rs"
    "rs_auth_state_gen rs' = rs_auth_state_gen rs" "rs_committed rs' = rs_committed rs"
    "rs_branches rs' = rs_branches rs" "rs_proposals rs' = rs_proposals rs"
    "rs_cancelled rs' = rs_cancelled rs" "rs_terminal rs' = rs_terminal rs"
    "rs_completed_cycles rs' = rs_completed_cycles rs" "rs_retry_count rs' = rs_retry_count rs"
  using assms by (cases rs, cases rs', simp add: same_request_def)+

lemma cycle_admit_request:
  assumes "cycle_admit rid rs f = Some (p, f')" and "lookup f rid = Some rs" and "fabric_wf f"
  shows "rel_option same_request (lookup f r) (lookup f' r)" and "fabric_wf f'"
    and "im_cfg f' = im_cfg f" and "im_scheduler f' = im_scheduler f"
proof -
  define rs1 where "rs1 = (if is_terminal_phase (ssm_phase (rs_cycle rs)) then rs\<lparr>rs_cycle := machine_at Ph_Ready\<rparr> else rs)"
  have rs1: "\<exists>m. rs1 = rs\<lparr>rs_cycle := m\<rparr>" by (cases "is_terminal_phase (ssm_phase (rs_cycle rs))") (auto simp: rs1_def intro: exI [of _ "rs_cycle rs"])
  then obtain m where m: "rs1 = rs\<lparr>rs_cycle := m\<rparr>" by blast
  have wf1: "request_wf rid rs1" "request_wf rid (rs1\<lparr>rs_cycle := m'\<rparr>)" for m'
    using wf_lookup [OF assms(3,2)] by (simp_all add: m request_wf_cycle request_wf_def)
  have wfs: "fabric_wf (set_request rid rs1 f)" using assms(3) wf1(1) by (rule wf_set_request)
  from assms(1) consider
      (ev) t d g where "f' = push_event rid t d ''{}'' (map_stats g (set_request rid rs1 f))"
    | (ev0) t d where "f' = push_event rid t d ''{}'' (set_request rid rs1 f)"
    | (plain) "f' = set_request rid rs1 f"
    | (run) m' where "f' = set_request rid (rs1\<lparr>rs_cycle := m'\<rparr>) (set_request rid rs1 f)"
    unfolding cycle_admit_def Let_def rs1_def [symmetric]
    by (auto split: if_splits bind_splits option.splits)
  note cases = this
  show "rel_option same_request (lookup f r) (lookup f' r)"
    using cases by cases (use assms(2) in \<open>auto simp: m option.rel_refl\<close>)
  show "fabric_wf f'"
    using cases by cases (auto intro!: wf_push_event wf_set_request assms(3) wf1)
  show "im_cfg f' = im_cfg f" "im_scheduler f' = im_scheduler f"
    using cases by (cases; simp)+
qed

lemma lookup_read_clock [simp]: "lookup (snd (read_clock f)) r = lookup f r"
  "im_cfg (snd (read_clock f)) = im_cfg f" "im_scheduler (snd (read_clock f)) = im_scheduler f"
  by (simp_all add: read_clock_def)

lemma cycle_prepare_request:
  assumes "cycle_prepare rid f = Some (p, f')" and "fabric_wf f"
  shows "rel_option same_request (lookup f r) (lookup f' r)" and "fabric_wf f'"
    and "im_cfg f' = im_cfg f" and "im_scheduler f' = im_scheduler f"
proof -
  from assms(1) consider (same) "f' = f"
    | (expired) t d where "f' = push_event rid t d ''{}'' (snd (read_clock f))"
    | (admit) rs where "lookup f rid = Some rs" "cycle_admit rid rs f = Some (p, f')"
    | (admit2) rs where "lookup f rid = Some rs" "cycle_admit rid rs (snd (read_clock f)) = Some (p, f')"
    by (auto simp: cycle_prepare_def Let_def case_prod_beta split: option.splits if_splits)
  note cases = this
  have refl: "rel_option same_request x x" for x by (rule option.rel_refl) simp
  have wfc: "fabric_wf (snd (read_clock f))" using assms(2) by (rule read_clock_wf)
  show "rel_option same_request (lookup f r) (lookup f' r)"
    using cases
  proof cases
    case expired
    then show ?thesis using refl by (cases "lookup f r") auto
  next
    case (admit rs)
    then show ?thesis using cycle_admit_request assms(2) by blast
  next
    case (admit2 rs)
    then show ?thesis using cycle_admit_request(1) [OF admit2(2) _ wfc] by simp
  qed (simp add: refl)
  show "fabric_wf f'"
    using cases
  proof cases
    case (admit2 rs)
    then show ?thesis using cycle_admit_request(2) [OF admit2(2) _ wfc] by simp
  next
    case (admit rs)
    show ?thesis using cycle_admit_request(2) [OF admit(2,1) assms(2)] .
  qed (simp_all add: assms(2) wf_push_event wfc)
  show "im_cfg f' = im_cfg f" "im_scheduler f' = im_scheduler f"
    using cases by (cases; use cycle_admit_request(3,4) assms(2) wfc in fastforce)+
qed

lemma cycle_admit_ready:
  assumes "cycle_admit rid rs f = Some (Inr pp, f')"
  shows "\<exists>rat. plan_proposal (im_scheduler f) (rs_req rs) (rs_auth_gen rs) 0 0 0 = Some (pp_plan pp, rat)"
    and "pp_depth pp = plan_depth (pp_plan pp)" and "pp_branch_count pp = plan_branch_count (pp_plan pp)"
    and "cfg_proposer (im_cfg f) = Some (pp_proposer pp)" and "cfg_verifier (im_cfg f) = Some (pp_verifier pp)"
    and "pair_agrees (rq_draft_model (rs_req rs)) (rq_target_model (rs_req rs))"
    and "\<exists>m. f' = set_request rid (rs\<lparr>rs_cycle := machine_run [Ev_PlanProposal, Ev_ReserveProposal, Ev_DispatchProposal]
           (if is_terminal_phase (ssm_phase (rs_cycle rs)) then machine_at Ph_Ready else rs_cycle rs)\<rparr>) (set_request rid m f)"
  using assms by (auto simp: cycle_admit_def Let_def max_absorb2 plan_proposal_fields compatible_iff
      split: if_splits bind_splits option.splits)

lemma cycle_prepare_ready:
  assumes "cycle_prepare rid f = Some (Inr pp, f')"
  obtains rs rat where "lookup f rid = Some rs" "\<not> rs_terminal rs" "\<not> rs_cancelled rs"
    "plan_proposal (im_scheduler f) (rs_req rs) (rs_auth_gen rs) 0 0 0 = Some (pp_plan pp, rat)"
    "pp_depth pp = plan_depth (pp_plan pp)" "pp_branch_count pp = plan_branch_count (pp_plan pp)"
    "cfg_proposer (im_cfg f) = Some (pp_proposer pp)" "cfg_verifier (im_cfg f) = Some (pp_verifier pp)"
    "pair_agrees (rq_draft_model (rs_req rs)) (rq_target_model (rs_req rs))"
    "\<exists>rs1. lookup f' rid = Some rs1 \<and> rs_cycle rs1 = machine_run [Ev_PlanProposal, Ev_ReserveProposal, Ev_DispatchProposal]
       (if is_terminal_phase (ssm_phase (rs_cycle rs)) then machine_at Ph_Ready else rs_cycle rs)"
proof -
  from assms obtain rs g where rs: "lookup f rid = Some rs" "\<not> rs_terminal rs" "\<not> rs_cancelled rs"
    and g: "cycle_admit rid rs g = Some (Inr pp, f')" "im_scheduler g = im_scheduler f" "im_cfg g = im_cfg f"
    by (auto simp: cycle_prepare_def Let_def case_prod_beta split: option.splits if_splits)
  from cycle_admit_ready [OF g(1)] g(2,3) rs show thesis using that by auto
qed

end
