(* ===== verification/SF_CycleProps.thy ===== *)
theory SF_CycleProps
  imports SF_Cycle
begin

text \<open>
  What one speculative cycle does: when its behaviour is defined, which tokens it commits, how it
  treats fenced requests, and how its bookkeeping behaves. The facts about the executors are used
  only through their contracts, and through the target sequence for the CPU pair.
\<close>

section \<open>The loops\<close>

lemma propose_branches_nth:
  assumes "propose_branches rid pp rs n b = Ok brs"
  shows "length brs = n" and "i < n \<Longrightarrow> propose_branch rid pp (b + of_nat i) rs = Ok (brs ! i)"
proof -
  have "length brs = n \<and> (\<forall>i<n. propose_branch rid pp (b + of_nat i) rs = Ok (brs ! i))"
    using assms
  proof (induction n arbitrary: b brs)
    case (Suc n)
    then obtain br brs' where br: "propose_branch rid pp b rs = Ok br"
      "propose_branches rid pp rs n (b + 1) = Ok brs'" "brs = br # brs'"
      by (auto split: Result.splits)
    with Suc.IH [OF br(2)] show ?case by (auto simp: less_Suc_eq_0_disj ac_simps)
  qed simp
  then show "length brs = n" and "i < n \<Longrightarrow> propose_branch rid pp (b + of_nat i) rs = Ok (brs ! i)" by auto
qed

lemma propose_branches_total:
  assumes "\<And>i. i < n \<Longrightarrow> \<exists>br. propose_branch rid pp (b + of_nat i) rs = Ok br"
  shows "\<exists>brs. propose_branches rid pp rs n b = Ok brs"
  using assms
proof (induction n arbitrary: b)
  case (Suc n)
  have "\<exists>brs. propose_branches rid pp rs n (b + 1) = Ok brs"
    using Suc.prems [of "Suc _"] by (intro Suc.IH) (auto simp: add.assoc)
  moreover have "\<exists>br. propose_branch rid pp b rs = Ok br" using Suc.prems [of 0] by simp
  ultimately show ?case by auto
qed simp

lemma verify_branches_all:
  "verify_branches rid pp rs brs = Some (Ok as) \<Longrightarrow> list_all2 (\<lambda>br a. verify_branch rid pp br rs = Some (Ok a)) brs as"
  by (induction brs arbitrary: as) (auto split: Result.splits bind_splits)

lemma verify_branches_total:
  "\<forall>br\<in>set brs. \<exists>a. verify_branch rid pp br rs = Some (Ok a) \<Longrightarrow> \<exists>as. verify_branches rid pp rs brs = Some (Ok as)"
  by (induction brs) auto

text \<open>The inputs depend only on what the preparing section leaves unchanged.\<close>

lemma inputs_same:
  assumes "same_request rs rs'"
  shows "propose_branch rid pp b rs' = propose_branch rid pp b rs" and "verify_branch rid pp br rs' = verify_branch rid pp br rs"
  using same_requestD [OF assms]
  by (simp_all add: propose_branch_def proposal_input_def verify_branch_def verification_input_def cong: Result.case_cong)

lemma verification_input_simps [simp]:
  "vin_candidate (verification_input rid pp br cand rs) = cand"
  "vin_authoritative_state (verification_input rid pp br cand rs) = rs_auth_state rs"
  "vin_authoritative_generation (verification_input rid pp br cand rs) = rs_auth_gen rs"
  "vin_proposer (verification_input rid pp br cand rs) = bres_proposer_model br"
  "cti_tokenizer (vin_candidate_identity (verification_input rid pp br cand rs)) =
     tok_id (mi_tokenizer (rq_draft_model (rs_req rs)))"
  "cti_vocab_size (vin_candidate_identity (verification_input rid pp br cand rs)) = 4096"
  by (simp_all add: verification_input_def)

lemma proposal_input_simps [simp]:
  "pin_base_state (proposal_input rid pp b rs) = rs_auth_state rs"
  "pin_base_generation (proposal_input rid pp b rs) = rs_auth_gen rs"
  "pin_depth (proposal_input rid pp b rs) = pp_depth pp"
  "pin_branch_index (proposal_input rid pp b rs) = b"
  "pin_compute_budget (proposal_input rid pp b rs) = 0"
  "pv_proposer_model (pin_provenance (proposal_input rid pp b rs)) = rq_draft_model (rs_req rs)"
  by (simp_all add: proposal_input_def default_ProposalInput_def)

section \<open>A completed cycle\<close>

text \<open>What is known of the two executors' answers once a cycle reaches its final section.\<close>

definition answered :: "RequestId \<Rightarrow> Prepared \<Rightarrow> RequestState \<Rightarrow> BranchResult list \<Rightarrow> AcceptanceResult list \<Rightarrow> bool" where
  "answered rid pp rs proposed accepted \<longleftrightarrow> length proposed = unat (pp_branch_count pp) \<and>
     list_all (\<lambda>i. propose_branch rid pp (of_nat i) rs = Ok (proposed ! i)) [0..<length proposed] \<and>
     list_all2 (\<lambda>br a. verify_branch rid pp br rs = Some (Ok a)) proposed accepted"

lemma answered_nth:
  assumes "answered rid pp rs proposed accepted" and "i < length proposed"
  shows "length accepted = length proposed" and "propose_branch rid pp (of_nat i) rs = Ok (proposed ! i)"
    and "verify_branch rid pp (proposed ! i) rs = Some (Ok (accepted ! i))"
  using assms by (auto simp: answered_def list_all_iff list_all2_conv_all_nth)

lemma run_cycle_split:
  assumes "cycle_prepare rid f = Some (Inr pp, f1)" and "fabric_wf f" and "lookup f rid = Some rs"
    and "run_cycle rid f = Some (Ok out, f')"
  obtains proposed accepted where "answered rid pp rs proposed accepted"
    "cycle_commit rid pp proposed accepted f1 = Some (Ok out, f')"
proof -
  obtain rs1 where rs1: "lookup f1 rid = Some rs1" "same_request rs rs1"
    using cycle_prepare_request(1) [OF assms(1,2), of rid] assms(3) by (auto elim: option.rel_cases)
  have at: "request_at rid f1 = rs1" using rs1(1) by (simp add: request_at_def)
  from assms(1,4) obtain proposed accepted where
    p: "propose_branches rid pp rs1 (unat (pp_branch_count pp)) 0 = Ok proposed"
    and v: "verify_branches rid pp rs1 proposed = Some (Ok accepted)"
    and c: "cycle_commit rid pp proposed accepted f1 = Some (Ok out, f')"
    by (auto simp: run_cycle_def at split: Result.splits bind_splits)
  have "answered rid pp rs proposed accepted"
    unfolding answered_def
    using propose_branches_nth [OF p] verify_branches_all [OF v] inputs_same [OF rs1(2)]
    by (auto simp: list_all_iff)
  then show thesis using c by (rule that)
qed

lemma branch_count_pos:
  assumes "cycle_prepare rid f = Some (Inr pp, f1)" and "answered rid pp rs proposed accepted"
  shows "proposed \<noteq> []"
proof -
  from cycle_prepare_ready [OF assms(1)] have "1 \<le> pp_branch_count pp" using plan_proposal_fields(2) by metis
  then have "0 < unat (pp_branch_count pp)" by (simp add: word_le_nat_alt)
  with assms(2) show ?thesis by (auto simp: answered_def)
qed

lemma cycle_prepare_frame: "cycle_prepare rid f = Some (p, f1) \<Longrightarrow> r \<noteq> rid \<Longrightarrow> lookup f1 r = lookup f r"
  by (auto simp: cycle_prepare_def cycle_admit_def read_clock_def Let_def case_prod_beta
      split: option.splits if_splits bind_splits)

lemma completed_cycle:
  assumes "fabric_wf f" and "lookup f rid = Some rs" and "cycle_prepare rid f = Some (Inr pp, f1)"
    and "run_cycle rid f = Some (Ok out, f')"
  shows "\<exists>proposed accepted w cand rs'.
    answered rid pp rs proposed accepted \<and> w < length proposed \<and>
    pres_candidate (bres_pr (proposed ! w)) = Some cand \<and>
    (\<forall>i<length proposed. beats proposed accepted w i) \<and>
    co_accepted_tokens out = acc_accepted_prefix (accepted ! w) \<and>
    unat (co_accepted_tokens out) \<le> cs_size cand \<and>
    co_outcome out = (if co_accepted_tokens out = of_nat (cs_size cand) then CK_VerificationSuccessFullAccept
       else if 0 < co_accepted_tokens out then CK_VerificationSuccessPartialAccept else CK_VerificationRejectAll) \<and>
    lookup f' rid = Some rs' \<and>
    rs_committed rs' = rs_committed rs @ take (unat (co_accepted_tokens out)) (cs_ids cand) \<and>
    id_get (rs_auth_gen rs') = id_get (rs_auth_gen rs) + ucast (co_accepted_tokens out) \<and>
    id_get (rs_auth_state_gen rs') = id_get (rs_auth_state_gen rs) + ucast (co_accepted_tokens out) \<and>
    fabric_wf f' \<and> (\<forall>r. r \<noteq> rid \<longrightarrow> lookup f' r = lookup f r)"
proof -
  from run_cycle_split [OF assms(3,1,2,4)] obtain proposed accepted where
    ans: "answered rid pp rs proposed accepted" and c: "cycle_commit rid pp proposed accepted f1 = Some (Ok out, f')" .
  obtain rs1 where rs1: "lookup f1 rid = Some rs1" "same_request rs rs1"
    using cycle_prepare_request(1) [OF assms(3,1), of rid] assms(2) by (auto elim: option.rel_cases)
  have live: "\<not> rs_terminal rs1" "\<not> rs_cancelled rs1"
    using cycle_prepare_ready [OF assms(3)] assms(2) same_requestD [OF rs1(2)] by (metis option.inject)+
  have wf1: "fabric_wf f1" using cycle_prepare_request(2) [OF assms(3,1)] .
  have gens: "sr_generation (rs_auth_state rs1) = rs_auth_state_gen rs1"
    using wf_lookup [OF wf1 rs1(1)] by (simp add: request_wf_def)
  have ne: "accepted \<noteq> []" "length accepted = length proposed"
    using branch_count_pos [OF assms(3) ans] ans by (auto simp: answered_def dest: list_all2_lengthD)
  have best: "\<forall>i<length proposed. beats proposed accepted (pick_winner proposed accepted) i"
    using winner.winner [of "length accepted" proposed accepted] ne branch_count_pos [OF assms(3) ans]
    by (simp add: pick_winner_def)
  from c wf1 rs1(1) live show ?thesis
  proof (rule cycle_commit_live)
    fix win a cand o1 bs e
    assume h: "pick_winner proposed accepted < length proposed" "win = proposed ! pick_winner proposed accepted"
      "a = accepted ! pick_winner proposed accepted" "pres_candidate (bres_pr win) = Some cand"
      "unat (acc_accepted_prefix a) \<le> cs_size cand" "Ok out = Ok o1" "co_accepted_tokens o1 = acc_accepted_prefix a"
      "co_outcome o1 = (if acc_accepted_prefix a = of_nat (cs_size cand) then CK_VerificationSuccessFullAccept
           else if 0 < acc_accepted_prefix a then CK_VerificationSuccessPartialAccept else CK_VerificationRejectAll)"
      "lookup f' rid = Some (with_event e (settled (advanced (acc_accepted_prefix a) cand rs1)
         (winning_proposal rid rs1 win cand (acc_accepted_prefix a)) bs))"
      "\<And>r'. r' \<noteq> rid \<Longrightarrow> lookup f' r' = lookup f1 r'" "fabric_wf f'"
    have "\<forall>r. r \<noteq> rid \<longrightarrow> lookup f' r = lookup f r"
      using h(10) cycle_prepare_frame [OF assms(3)] by simp
    with h ans best gens same_requestD [OF rs1(2)] show ?thesis
      by (intro exI conjI) (auto simp: settled_def advanced_def)
  qed
qed

text \<open>
  C2 (run_cycle_commits): a cycle that was admitted and returned an outcome committed exactly the
  accepted tokens of one drafted branch, the one whose accepted count is the largest (the smallest
  branch identifier among equals): the committed sequence is the old one followed by that many
  leading tokens of the branch's candidate, both generations advanced by the count, the verdict is
  the comparison of the count with the candidate length, and every other request is exactly as before.
\<close>

theorem run_cycle_commits:
  assumes "fabric_wf f" and "lookup f rid = Some rs" and "cycle_prepare rid f = Some (Inr pp, f1)"
    and "run_cycle rid f = Some (Ok out, f')"
  shows "\<exists>proposed accepted w cand rs'.
    answered rid pp rs proposed accepted \<and> w < length proposed \<and>
    pres_candidate (bres_pr (proposed ! w)) = Some cand \<and>
    (\<forall>i<length proposed. beats proposed accepted w i) \<and>
    co_accepted_tokens out = acc_accepted_prefix (accepted ! w) \<and>
    unat (co_accepted_tokens out) \<le> cs_size cand \<and>
    co_outcome out = (if co_accepted_tokens out = of_nat (cs_size cand) then CK_VerificationSuccessFullAccept
       else if 0 < co_accepted_tokens out then CK_VerificationSuccessPartialAccept else CK_VerificationRejectAll) \<and>
    lookup f' rid = Some rs' \<and>
    rs_committed rs' = rs_committed rs @ take (unat (co_accepted_tokens out)) (cs_ids cand) \<and>
    id_get (rs_auth_gen rs') = id_get (rs_auth_gen rs) + ucast (co_accepted_tokens out) \<and>
    id_get (rs_auth_state_gen rs') = id_get (rs_auth_state_gen rs) + ucast (co_accepted_tokens out) \<and>
    fabric_wf f' \<and> (\<forall>r. r \<noteq> rid \<longrightarrow> lookup f' r = lookup f r)"
  using completed_cycle [OF assms] .

section \<open>Definedness\<close>

lemma decide_defined: "unat ap \<le> cs_size cand \<Longrightarrow> \<exists>out' rs'. decide pr wb cand ap winprop out rs = Some (out', rs')"
  by (auto simp: decide_def Let_def advance_eq case_prod_beta)

lemma cycle_commit_defined:
  assumes "lookup f rid = Some rs" and "accepted \<noteq> []" and "length accepted = length proposed"
    and "\<And>i. i < length proposed \<Longrightarrow> \<exists>cand. pres_candidate (bres_pr (proposed ! i)) = Some cand \<and>
           unat (acc_accepted_prefix (accepted ! i)) \<le> cs_size cand"
  shows "\<exists>out f'. cycle_commit rid pp proposed accepted f = Some (Ok out, f')"
proof (cases "rs_terminal rs \<or> rs_cancelled rs")
  case True
  with assms(1) show ?thesis using cycle_commit_fenced by blast
next
  case False
  let ?w = "pick_winner proposed accepted"
  have w: "?w < length accepted" "?w < length proposed" using pick_winner_less assms(2,3) by metis+
  from assms(4) [OF w(2)] obtain cand where c: "pres_candidate (bres_pr (proposed ! ?w)) = Some cand"
    "unat (acc_accepted_prefix (accepted ! ?w)) \<le> cs_size cand" by blast
  note d = decide_defined [OF c(2)]
  show ?thesis
    using assms(1) False w c(1) d by (auto simp: cycle_commit_def Let_def vec_at_def bind_eq_Some_conv)
qed

locale contracted_executors = proposal_contract propose + verification_contract verify
  for propose :: proposer and verify :: verifier +
  assumes verify_total: "\<exists>a. verify inp = Ok a"
begin

lemma run_cycle_defined:
  assumes "fabric_wf f" and "lookup f rid = Some rs" and "cycle_prepare rid f = Some (Inr pp, f1)"
    and "pp_proposer pp = propose" and "pp_verifier pp = verify"
    and "\<And>b. \<exists>r. propose (proposal_input rid pp b rs) = Ok r \<and> pres_success r"
  shows "\<exists>out f'. run_cycle rid f = Some (Ok out, f')"
proof -
  obtain rs1 where rs1: "lookup f1 rid = Some rs1" "same_request rs rs1"
    using cycle_prepare_request(1) [OF assms(3,1), of rid] assms(2) by (auto elim: option.rel_cases)
  have at: "request_at rid f1 = rs1" using rs1(1) by (simp add: request_at_def)
  have cand: "\<exists>cand. pres_candidate (bres_pr br) = Some cand" if "propose_branch rid pp b rs1 = Ok br" for b br
    using that success_candidate assms(4) assms(6) [of b] inputs_same(1) [OF rs1(2)]
    by (fastforce simp: propose_branch_def split: Result.splits)
  obtain proposed where p: "propose_branches rid pp rs1 (unat (pp_branch_count pp)) 0 = Ok proposed"
    using propose_branches_total [of "unat (pp_branch_count pp)" rid pp 0 rs1] inputs_same(1) [OF rs1(2)] assms(4,6)
    by (fastforce simp: propose_branch_def split: Result.splits)
  have pc: "\<exists>cand. pres_candidate (bres_pr (proposed ! i)) = Some cand" if "i < length proposed" for i
    using that cand propose_branches_nth [OF p] by metis
  then have "\<forall>br\<in>set proposed. \<exists>a. verify_branch rid pp br rs1 = Some (Ok a)"
    using verify_total assms(5) by (fastforce simp: verify_branch_def in_set_conv_nth)
  from verify_branches_total [OF this] obtain accepted where v: "verify_branches rid pp rs1 proposed = Some (Ok accepted)"
    by blast
  have ans: "answered rid pp rs1 proposed accepted"
    unfolding answered_def using propose_branches_nth [OF p] verify_branches_all [OF v] by (auto simp: list_all_iff)
  have ne: "proposed \<noteq> []" using branch_count_pos [OF assms(3) ans] .
  then have len: "length accepted = length proposed" using answered_nth(1) [OF ans, of 0] by simp
  with ne have ane: "accepted \<noteq> []" by auto
  have le: "\<exists>cand. pres_candidate (bres_pr (proposed ! i)) = Some cand \<and>
      unat (acc_accepted_prefix (accepted ! i)) \<le> cs_size cand" if i: "i < length proposed" for i
    using pc [OF i] answered_nth(3) [OF ans i] accepted_le assms(5)
    by (fastforce simp: verify_branch_def)
  obtain out f' where "cycle_commit rid pp proposed accepted f1 = Some (Ok out, f')"
    using cycle_commit_defined [OF rs1(1) ane len le, of pp] by blast
  then have "run_cycle rid f = Some (Ok out, f')" by (simp add: run_cycle_def assms(3) at p v)
  then show ?thesis by blast
qed

end

interpretation cpu_pair: contracted_executors "cpu_propose cfg" cpu_verify
  by unfold_locales (auto simp: cpu_verify_def Let_def)

section \<open>The CPU pair\<close>

definition cycle_seed :: "RequestState \<Rightarrow> u32 \<Rightarrow> u64" where
  "cycle_seed rs depth = proposal_seed (default_ProposalInput\<lparr>pin_base_state := rs_auth_state rs,
     pin_base_generation := rs_auth_gen rs, pin_depth := depth,
     pin_provenance := default_ProposalProvenance\<lparr>pv_proposer_model := rq_draft_model (rs_req rs)\<rparr>\<rparr>)"

lemma proposal_input_seed: "proposal_seed (proposal_input rid pp b rs) = cycle_seed rs (pp_depth pp)"
  by (simp add: cycle_seed_def proposal_seed_def)

lemma cpu_propose_succeeds:
  assumes "0 < unat (pp_depth pp)" and "unat (pp_depth pp) \<le> 256"
  shows "\<exists>r. cpu_propose cfg (proposal_input rid pp b rs) = Ok r \<and> pres_success r"
proof -
  have "pp_depth pp \<noteq> 0" "\<not> 256 < pp_depth pp"
    using assms by (auto simp: word_less_nat_alt)
  then show ?thesis by (simp add: cpu_propose_def Let_def pres_success_def)
qed

lemma prepared_depth_pos:
  assumes "cycle_prepare rid f = Some (Inr pp, f1)" shows "0 < unat (pp_depth pp)"
proof -
  from cycle_prepare_ready [OF assms] have "1 \<le> pp_depth pp" using plan_proposal_fields(1) by metis
  then show ?thesis by (simp add: word_le_nat_alt)
qed

text \<open>
  What the CPU pair and the CUDA pair have in common: a draft follows the target sequence up to the
  alignment and diverges from it as the lane of its branch says (the CPU proposer's lane is the branch
  index, the CUDA proposer has one fixed lane), and the verifier counts the agreements with the target.
\<close>

locale target_executors = contracted_executors propose verify
  for propose :: proposer and verify :: verifier +
  fixes aligned :: u32 and lane :: "u32 \<Rightarrow> u32"
  assumes drafts: "0 < unat (pin_depth p) \<Longrightarrow> unat (pin_depth p) \<le> 256 \<Longrightarrow> pin_compute_budget p = 0 \<Longrightarrow>
      \<exists>r. propose p = Ok r \<and> pres_success r"
    and follows: "propose p = Ok r \<Longrightarrow> pres_candidate r = Some c \<Longrightarrow>
      0 < unat (pin_depth p) \<and> cs_ids c = cpu_draft (proposal_seed p) (pin_depth p) aligned (lane (pin_branch_index p))"
    and judges: "verify v = Ok a \<Longrightarrow> ready_to_verify v \<Longrightarrow> cs_size (vin_candidate v) < 2 ^ 32 \<Longrightarrow>
      unat (acc_accepted_prefix a) =
        agreements (target_sequence (verification_seed v) (cs_size (vin_candidate v))) (cs_ids (vin_candidate v))"
begin

text \<open>Each branch: the draft of its lane, of the planned depth, and the number of its agreements accepted.\<close>

lemma branch:
  assumes "propose_branch rid pp b rs = Ok br" and "verify_branch rid pp br rs = Some (Ok a)"
    and "pp_proposer pp = propose" and "pp_verifier pp = verify"
    and "pres_candidate (bres_pr br) = Some cand" and "\<not> is_null (tok_id (mi_tokenizer (rq_draft_model (rs_req rs))))"
  defines "seed \<equiv> cycle_seed rs (pp_depth pp)"
  shows "cs_size cand = unat (pp_depth pp)" and "cs_ids cand = cpu_draft seed (pp_depth pp) aligned (lane b)"
    and "unat (acc_accepted_prefix a) = branch_agreement seed (pp_depth pp) aligned (lane b)"
proof -
  let ?p = "proposal_input rid pp b rs" and ?v = "verification_input rid pp br cand rs"
  from assms(1,3) have drafted: "propose ?p = Ok (bres_pr br)" and mdl: "bres_proposer_model br = rq_draft_model (rs_req rs)"
    by (auto simp: propose_branch_def split: Result.splits)
  note c = follows [OF drafted assms(5)]
  show ids: "cs_ids cand = cpu_draft seed (pp_depth pp) aligned (lane b)"
    using c by (simp add: proposal_input_seed seed_def)
  then show size: "cs_size cand = unat (pp_depth pp)" by (metis length_cpu_draft length_cs_ids)
  have v: "verify ?v = Ok a" using assms(2,4,5) by (auto simp: verify_branch_def)
  have ready: "ready_to_verify ?v"
    using assms(6) c size by (auto simp: ready_to_verify_def cs_empty_def cs_size_def)
  have vs: "verification_seed ?v = seed"
    using same_seed [of ?p ?v] size mdl by (simp add: same_envelope_def proposal_input_seed seed_def)
  show "unat (acc_accepted_prefix a) = branch_agreement seed (pp_depth pp) aligned (lane b)"
    using judges [OF v ready, unfolded vs] unsigned_less [of "pp_depth pp", where ?'a = nat]
    by (simp add: size branch_agreement_def flip: ids)
qed

text \<open>Of all branches, the one that agrees most with the target wins, and its agreeing count is committed.\<close>

lemma winning_branch:
  assumes "answered rid pp rs proposed accepted" and "pp_proposer pp = propose" and "pp_verifier pp = verify"
    and "\<not> is_null (tok_id (mi_tokenizer (rq_draft_model (rs_req rs))))"
    and "w < length proposed" and "pres_candidate (bres_pr (proposed ! w)) = Some cand"
    and "\<And>i. i < length proposed \<Longrightarrow> beats proposed accepted w i"
    and "\<And>i. i < length proposed \<Longrightarrow> pres_candidate (bres_pr (proposed ! i)) \<noteq> None"
  defines "agree \<equiv> \<lambda>i. branch_agreement (cycle_seed rs (pp_depth pp)) (pp_depth pp) aligned (lane (of_nat i))"
  shows "unat (acc_accepted_prefix (accepted ! w)) = agree w" and "w < unat (pp_branch_count pp)"
    and "i < unat (pp_branch_count pp) \<Longrightarrow> agree i \<le> agree w"
proof -
  have each: "unat (acc_accepted_prefix (accepted ! i)) = agree i" if i: "i < length proposed" for i
    using branch(3) [OF answered_nth(2,3) [OF assms(1) i] assms(2,3) _ assms(4)] assms(8) [OF i] by (auto simp: agree_def)
  show "unat (acc_accepted_prefix (accepted ! w)) = agree w" using each assms(5) .
  have n: "length proposed = unat (pp_branch_count pp)" using assms(1) by (simp add: answered_def)
  then show "w < unat (pp_branch_count pp)" using assms(5) by simp
  show "agree i \<le> agree w" if "i < unat (pp_branch_count pp)"
    using assms(7) [of i] that n each [of i] each [OF assms(5)] by (auto simp: beats_def word_less_nat_alt word_unat_eq_iff)
qed

lemma cycle_exact:
  assumes "fabric_wf f" and "lookup f rid = Some rs" and "cycle_prepare rid f = Some (Inr pp, f1)"
    and "pp_proposer pp = propose" and "pp_verifier pp = verify" and "unat (pp_depth pp) \<le> 256"
  defines "seed \<equiv> cycle_seed rs (pp_depth pp)"
  obtains out f' rs' w where "run_cycle rid f = Some (Ok out, f')" "lookup f' rid = Some rs'"
    "w < unat (pp_branch_count pp)"
    "\<forall>i<unat (pp_branch_count pp).
       branch_agreement seed (pp_depth pp) aligned (lane (of_nat i)) \<le> branch_agreement seed (pp_depth pp) aligned (lane (of_nat w))"
    "unat (co_accepted_tokens out) = branch_agreement seed (pp_depth pp) aligned (lane (of_nat w))"
    "rs_committed rs' = rs_committed rs @
       take (unat (co_accepted_tokens out)) (cpu_draft seed (pp_depth pp) aligned (lane (of_nat w)))"
    "id_get (rs_auth_gen rs') = id_get (rs_auth_gen rs) + ucast (co_accepted_tokens out)"
    "co_outcome out = (if co_accepted_tokens out = pp_depth pp then CK_VerificationSuccessFullAccept
       else if 0 < co_accepted_tokens out then CK_VerificationSuccessPartialAccept else CK_VerificationRejectAll)"
proof -
  have pos: "0 < unat (pp_depth pp)" using prepared_depth_pos [OF assms(3)] .
  have tok: "\<not> is_null (tok_id (mi_tokenizer (rq_draft_model (rs_req rs))))"
    using cycle_prepare_ready [OF assms(3)] assms(2) by (metis option.inject pair_agrees_def null_id_is_null(2))
  have drafted: "\<exists>r. propose (proposal_input rid pp b rs) = Ok r \<and> pres_success r" for b
    using drafts [of "proposal_input rid pp b rs"] assms(6) pos by simp
  obtain out f' where r: "run_cycle rid f = Some (Ok out, f')"
    using run_cycle_defined [OF assms(1-5) drafted] by blast
  obtain proposed accepted w cand rs' where
    ans: "answered rid pp rs proposed accepted" and w: "w < length proposed"
    and cand: "pres_candidate (bres_pr (proposed ! w)) = Some cand"
    and best: "\<And>i. i < length proposed \<Longrightarrow> beats proposed accepted w i"
    and n: "co_accepted_tokens out = acc_accepted_prefix (accepted ! w)"
    and kind: "co_outcome out = (if co_accepted_tokens out = of_nat (cs_size cand) then CK_VerificationSuccessFullAccept
       else if 0 < co_accepted_tokens out then CK_VerificationSuccessPartialAccept else CK_VerificationRejectAll)"
    and rs': "lookup f' rid = Some rs'"
    and com: "rs_committed rs' = rs_committed rs @ take (unat (co_accepted_tokens out)) (cs_ids cand)"
    and gen: "id_get (rs_auth_gen rs') = id_get (rs_auth_gen rs) + ucast (co_accepted_tokens out)"
    using completed_cycle [OF assms(1-3) r] by blast
  have has: "pres_candidate (bres_pr (proposed ! i)) \<noteq> None" if "i < length proposed" for i
  proof -
    obtain r where r: "propose (proposal_input rid pp (of_nat i) rs) = Ok r" "pres_success r" using drafted by blast
    then have "bres_pr (proposed ! i) = r" using answered_nth(2) [OF ans that] assms(4)
      by (simp add: propose_branch_def) (metis BranchResult.select_convs(1))
    then show ?thesis using success_candidate [OF r] by auto
  qed
  note b = branch [OF answered_nth(2,3) [OF ans w] assms(4,5) cand tok, folded seed_def]
    and wb = winning_branch [OF ans assms(4,5) tok w cand best has, folded seed_def]
  show thesis
    using that [OF r rs' wb(2)] wb(1,3) n com b(1,2) kind gen by simp
qed

lemma cycle:
  assumes "fabric_wf f" and "lookup f rid = Some rs" and "cycle_prepare rid f = Some (Inr pp, f1)"
    and "pp_proposer pp = propose" and "pp_verifier pp = verify"
    and "d = unat (pp_depth pp)" and "d \<le> 256" and "m = min (unat aligned) d" and "seed = cycle_seed rs (pp_depth pp)"
  shows "\<exists>out f' rs' xs w. run_cycle rid f = Some (Ok out, f') \<and> lookup f' rid = Some rs' \<and>
    rs_committed rs' = rs_committed rs @ xs \<and> m \<le> length xs \<and> length xs \<le> d \<and> take m xs = take m (target_sequence seed d) \<and>
    w < unat (pp_branch_count pp) \<and> length xs = branch_agreement seed (pp_depth pp) aligned (lane (of_nat w)) \<and>
    (\<forall>i<unat (pp_branch_count pp). branch_agreement seed (pp_depth pp) aligned (lane (of_nat i)) \<le> length xs) \<and>
    id_get (rs_auth_gen rs') = id_get (rs_auth_gen rs) + of_nat (length xs) \<and>
    (m = d \<longrightarrow> co_outcome out = CK_VerificationSuccessFullAccept)"
proof -
  have small: "unat (pp_depth pp) \<le> 256" using assms(6,7) by simp
  show ?thesis
  proof (rule cycle_exact [OF assms(1-5) small, folded assms(9)])
    fix out f' rs' w
    assume r: "run_cycle rid f = Some (Ok out, f')" "lookup f' rid = Some rs'" "w < unat (pp_branch_count pp)"
      "\<forall>i<unat (pp_branch_count pp).
         branch_agreement seed (pp_depth pp) aligned (lane (of_nat i)) \<le> branch_agreement seed (pp_depth pp) aligned (lane (of_nat w))"
      "unat (co_accepted_tokens out) = branch_agreement seed (pp_depth pp) aligned (lane (of_nat w))"
      "rs_committed rs' = rs_committed rs @
         take (unat (co_accepted_tokens out)) (cpu_draft seed (pp_depth pp) aligned (lane (of_nat w)))"
      "id_get (rs_auth_gen rs') = id_get (rs_auth_gen rs) + ucast (co_accepted_tokens out)"
      "co_outcome out = (if co_accepted_tokens out = pp_depth pp then CK_VerificationSuccessFullAccept
         else if 0 < co_accepted_tokens out then CK_VerificationSuccessPartialAccept else CK_VerificationRejectAll)"
    let ?xs = "take (unat (co_accepted_tokens out)) (cpu_draft seed (pp_depth pp) aligned (lane (of_nat w)))"
    note bounds = branch_agreement_bounds [where aligned = aligned and depth = "pp_depth pp" and seed = seed and b = "lane (of_nat w)", folded r(5) assms(6), folded assms(8)]
    have len: "length ?xs = unat (co_accepted_tokens out)" using bounds(2) assms(6) by simp
    have "take m ?xs = take m (target_sequence seed d)"
      using bounds(1) cpu_draft_aligned [of m "pp_depth pp" aligned seed "lane (of_nat w)"] assms(6,8) by (simp add: min_absorb1)
    moreover have "m = d \<Longrightarrow> co_outcome out = CK_VerificationSuccessFullAccept"
      using bounds r(8) by (simp add: word_unat_eq_iff assms(6))
    moreover have "id_get (rs_auth_gen rs') = id_get (rs_auth_gen rs) + of_nat (length ?xs)"
      unfolding len using r(7) by simp
    ultimately show ?thesis
      using r(1-3,6) r(4) [unfolded r(5) [symmetric]] r(5) bounds len
      by (intro exI [of _ out] exI [of _ f'] exI [of _ rs'] exI [of _ ?xs] exI [of _ w]) simp
  qed
qed

end

interpretation cpu: target_executors "cpu_propose cfg" cpu_verify "ppc_aligned_tokens cfg" "\<lambda>b. b"
proof
  show "\<exists>r. cpu_propose cfg p = Ok r \<and> pres_success r"
    if "0 < unat (pin_depth p)" "unat (pin_depth p) \<le> 256" "pin_compute_budget p = 0" for p
    using that by (simp add: cpu_propose_def Let_def pres_success_def word_less_nat_alt word_unat_eq_iff)
  show "0 < unat (pin_depth p) \<and>
      cs_ids c = cpu_draft (proposal_seed p) (pin_depth p) (ppc_aligned_tokens cfg) (pin_branch_index p)"
    if "cpu_propose cfg p = Ok r" "pres_candidate r = Some c" for p r c
    using cpu_propose_success [OF that] by (simp add: cpu_draft_def)
  show "unat (acc_accepted_prefix a) =
      agreements (target_sequence (verification_seed v) (cs_size (vin_candidate v))) (cs_ids (vin_candidate v))"
    if v: "cpu_verify v = Ok a" "ready_to_verify v" "cs_size (vin_candidate v) < 2 ^ 32" for v a
    using cpu_verify_ready [OF v(2)] v(1,3) by (fastforce simp: unat_of_nat take_bit_eq_mod)
qed

section \<open>A sample runtime\<close>

definition sample_model :: ModelIdentity where
  "sample_model = default_ModelIdentity\<lparr>mi_tokenizer := default_TokenizerIdentity\<lparr>tok_id := StrongId 7\<rparr>\<rparr>"

definition sample_request :: SpeculationRequest where
  "sample_request = default_SpeculationRequest\<lparr>rq_id := StrongId 1, rq_sequence := StrongId 5,
     rq_prefix := [11, 12], rq_target_model := sample_model, rq_draft_model := sample_model\<rparr>"

definition sample_config :: "proposer \<Rightarrow> Config" where
  "sample_config p = \<lparr>cfg_proposer = Some p, cfg_verifier = Some cpu_verify, cfg_clock = (\<lambda>_. 0),
     cfg_policy = default_ProposalPolicy, cfg_epoch = StrongId 1\<rparr>"

definition sample_fabric :: "proposer \<Rightarrow> Fabric" where
  "sample_fabric p = snd (submit sample_request (new_fabric (sample_config p)))"

lemma sample_wf: "fabric_wf (sample_fabric p)"
  unfolding sample_fabric_def by (intro submit_wf wf_new_fabric)

lemma sample_compatible:
  "dec_compatible (evaluate_compatibility \<lparr>key_proposer = sample_model, key_verifier = sample_model, key_protocol_version = 1\<rparr>)"
  by (simp add: compatible_iff pair_agrees_def sample_model_def default_ModelIdentity_def default_TokenizerIdentity_def
      default_ExecutorIdentity_def same_executor_kind_def null_id_def)

lemma sample_lookup: "\<exists>rs. lookup (sample_fabric p) (StrongId 1) = Some rs \<and> rs_req rs = sample_request \<and>
    rs_committed rs = [11, 12] \<and> \<not> rs_terminal rs \<and> \<not> rs_cancelled rs \<and> rs_proposals rs = [] \<and>
    rs_reservations rs = [] \<and> rs_branches rs = [] \<and> rs_cycle rs = machine_at Ph_Ready \<and> rs_attempt rs = StrongId 1 \<and>
    rs_completed_cycles rs = 0 \<and> rs_auth_gen rs = StrongId 0"
  by (simp add: sample_fabric_def submit_def new_fabric_def sample_request_def Let_def default_SpeculationRequest_def null_id_def is_null_def)

lemma sample_fields:
  "im_cfg (sample_fabric p) = sample_config p" "im_stats (sample_fabric p) = default_Stats\<lparr>st_requests_eligible_for_speculation := 1\<rparr>"
  "im_scheduler (sample_fabric p) = new_scheduler default_ProposalPolicy"
  by (simp_all add: sample_fabric_def submit_def new_fabric_def sample_config_def Let_def default_Stats_def)

lemma sample_admit_with:
  assumes rs: "lookup f (StrongId 1) = Some rs" "rs_req rs = sample_request"
    "\<not> rs_terminal rs" "\<not> rs_cancelled rs" "rs_proposals rs = []" "rs_reservations rs = []"
    and f: "im_cfg f = sample_config p\<lparr>cfg_verifier := Some v\<rparr>" "im_scheduler f = new_scheduler default_ProposalPolicy"
  obtains pp f1 where "cycle_prepare (StrongId 1) f = Some (Inr pp, f1)"
    "pp_depth pp = 4" "pp_branch_count pp = 1" "pp_proposer pp = p" "pp_verifier pp = v"
proof -
  define rs1 where "rs1 = (if is_terminal_phase (ssm_phase (rs_cycle rs)) then rs\<lparr>rs_cycle := machine_at Ph_Ready\<rparr> else rs)"
  have rs1: "rs_req rs1 = sample_request" "rs_proposals rs1 = []" "rs_reservations rs1 = []" "rs_auth_gen rs1 = rs_auth_gen rs"
    using rs by (simp_all add: rs1_def)
  have models: "rq_draft_model sample_request = sample_model" "rq_target_model sample_request = sample_model"
    "rq_deadline_ns sample_request = None"
    by (simp_all add: sample_request_def default_SpeculationRequest_def)
  have bp: "\<not> bp_blocked (cycle_backpressure rs1 (set_request (StrongId 1) rs1 f))"
    by (simp add: cycle_backpressure_def backpressure_blocked_iff f new_scheduler_def default_ProposalPolicy_def
        rs1 active_reservation_bytes_def)
  obtain plan rat where plan: "plan_proposal (new_scheduler default_ProposalPolicy) sample_request (rs_auth_gen rs) 0 0 0 = Some (plan, rat)"
    "plan_depth plan = 4" "plan_branch_count plan = 1"
    by (simp add: plan_proposal_def planned_depth_def choose_depth_def new_scheduler_def default_AdaptiveDepth_def default_ProposalPolicy_def Let_def)
  have "\<exists>pp f1. cycle_admit (StrongId 1) rs f = Some (Inr pp, f1) \<and>
    pp_depth pp = 4 \<and> pp_branch_count pp = 1 \<and> pp_proposer pp = p \<and> pp_verifier pp = v"
    unfolding cycle_admit_def Let_def rs1_def [symmetric]
    using rs1 bp plan sample_compatible by (simp add: models f sample_config_def)
  with rs models show thesis using that by (auto simp: cycle_prepare_def)
qed

lemma sample_admit_live:
  assumes "lookup f (StrongId 1) = Some rs" "rs_req rs = sample_request"
    "\<not> rs_terminal rs" "\<not> rs_cancelled rs" "rs_proposals rs = []" "rs_reservations rs = []"
    and "im_cfg f = sample_config p" "im_scheduler f = new_scheduler default_ProposalPolicy"
  obtains pp f1 where "cycle_prepare (StrongId 1) f = Some (Inr pp, f1)"
    "pp_depth pp = 4" "pp_branch_count pp = 1" "pp_proposer pp = p" "pp_verifier pp = cpu_verify"
proof -
  have "im_cfg f = sample_config p\<lparr>cfg_verifier := Some cpu_verify\<rparr>" using assms(7) by (simp add: sample_config_def)
  from sample_admit_with [OF assms(1-6) this assms(8)] that show thesis by blast
qed

lemma sample_admit:
  obtains pp f1 where "cycle_prepare (StrongId 1) (sample_fabric p) = Some (Inr pp, f1)"
    "pp_depth pp = 4" "pp_branch_count pp = 1" "pp_proposer pp = p" "pp_verifier pp = cpu_verify"
  using sample_lookup [of p] sample_admit_live [of "sample_fabric p" _ p] sample_fields by metis

theorem run_cycle_commits_witness:
  "\<exists>pp f1 out f'. cycle_prepare (StrongId 1) (sample_fabric (cpu_propose default_CpuProposerConfig)) = Some (Inr pp, f1) \<and>
     run_cycle (StrongId 1) (sample_fabric (cpu_propose default_CpuProposerConfig)) = Some (Ok out, f') \<and>
     (\<exists>rs' xs. lookup f' (StrongId 1) = Some rs' \<and> rs_committed rs' = [11, 12] @ xs)"
proof -
  let ?p = "cpu_propose default_CpuProposerConfig"
  obtain pp f1 where pp: "cycle_prepare (StrongId 1) (sample_fabric ?p) = Some (Inr pp, f1)"
    "pp_depth pp = 4" "pp_proposer pp = ?p" "pp_verifier pp = cpu_verify" using sample_admit [of ?p] by blast
  obtain rs where rs: "lookup (sample_fabric ?p) (StrongId 1) = Some rs" "rs_committed rs = [11, 12]"
    using sample_lookup by blast
  have "\<exists>out f'. run_cycle (StrongId 1) (sample_fabric ?p) = Some (Ok out, f')"
    using cpu_pair.run_cycle_defined [OF sample_wf rs(1) pp(1,3,4)] cpu_propose_succeeds [of pp] pp(2) by simp
  then obtain out f' where r: "run_cycle (StrongId 1) (sample_fabric ?p) = Some (Ok out, f')" by blast
  from run_cycle_commits [OF sample_wf rs(1) pp(1) r] rs(2) pp(1) r show ?thesis by metis
qed

text \<open>
  C1 (run_cycle_cpu): with the CPU executors and a planned depth of at most 256, every admitted cycle
  returns an outcome and extends the committed sequence by exactly as many tokens as the best branch's
  draft agrees with the target model's sequence, at least the aligned part, which is the target's own;
  the authoritative generation advances by that number. With a perfect draft (alignment at least the
  depth) the verdict is full acceptance and exactly the target sequence of the planned depth is
  appended.
\<close>

theorem run_cycle_cpu:
  assumes "fabric_wf f" and "lookup f rid = Some rs" and "cycle_prepare rid f = Some (Inr pp, f1)"
    and "pp_proposer pp = cpu_propose cfg" and "pp_verifier pp = cpu_verify"
    and "d = unat (pp_depth pp)" and "d \<le> 256" and "m = min (unat (ppc_aligned_tokens cfg)) d"
    and "seed = cycle_seed rs (pp_depth pp)"
  shows "\<exists>out f' rs' xs. run_cycle rid f = Some (Ok out, f') \<and> lookup f' rid = Some rs' \<and>
    rs_committed rs' = rs_committed rs @ xs \<and> m \<le> length xs \<and> length xs \<le> d \<and> take m xs = take m (target_sequence seed d) \<and>
    length xs = best_agreement seed (pp_depth pp) (pp_branch_count pp) (ppc_aligned_tokens cfg) \<and>
    id_get (rs_auth_gen rs') = id_get (rs_auth_gen rs) + of_nat (length xs) \<and>
    (m = d \<longrightarrow> co_outcome out = CK_VerificationSuccessFullAccept)"
  using cpu.cycle [OF assms] best_agreement_eq [of _ "pp_branch_count pp" seed "pp_depth pp" "ppc_aligned_tokens cfg"] by metis

theorem run_cycle_cpu_witness:
  "\<exists>out f' rs' xs. run_cycle (StrongId 1) (sample_fabric (cpu_propose (default_CpuProposerConfig\<lparr>ppc_aligned_tokens := 9\<rparr>))) = Some (Ok out, f') \<and>
    lookup f' (StrongId 1) = Some rs' \<and> rs_committed rs' = [11, 12] @ xs \<and> length xs = 4 \<and>
    co_outcome out = CK_VerificationSuccessFullAccept"
proof -
  let ?cfg = "default_CpuProposerConfig\<lparr>ppc_aligned_tokens := 9\<rparr>"
  obtain pp f1 where pp: "cycle_prepare (StrongId 1) (sample_fabric (cpu_propose ?cfg)) = Some (Inr pp, f1)"
    "pp_depth pp = 4" "pp_proposer pp = cpu_propose ?cfg" "pp_verifier pp = cpu_verify" using sample_admit [of "cpu_propose ?cfg"] by blast
  obtain rs where rs: "lookup (sample_fabric (cpu_propose ?cfg)) (StrongId 1) = Some rs" "rs_committed rs = [11, 12]"
    "rs_req rs = sample_request" using sample_lookup by blast
  from run_cycle_cpu [OF sample_wf rs(1) pp(1,3,4) refl _ refl refl] pp(2) rs(2) show ?thesis by fastforce
qed

text \<open>
  On a request that is terminal or cancelled, \<^verbatim>\<open>run_cycle\<close> returns at once
  with the superseded or cancelled outcome and leaves the whole runtime unchanged.
\<close>

lemma fenced_request_inert:
  assumes "lookup f rid = Some rs" and "rs_terminal rs \<or> rs_cancelled rs"
  shows "\<exists>out. run_cycle rid f = Some (Ok out, f) \<and> \<not> co_committed out \<and>
    co_outcome out = (if rs_terminal rs then CK_Superseded else CK_Cancelled)"
  using assms by (auto simp: run_cycle_def cycle_prepare_def make_outcome_def co_committed_def
      default_CycleOutcome_def default_CommitResult_def)

lemma fenced_request_inert_example:
  "\<exists>f out. f = snd (complete (StrongId 1) (sample_fabric (cpu_propose default_CpuProposerConfig))) \<and>
     run_cycle (StrongId 1) f = Some (Ok out, f) \<and> co_outcome out = CK_Superseded"
proof -
  let ?f = "sample_fabric (cpu_propose default_CpuProposerConfig)"
  obtain rs where rs: "lookup ?f (StrongId 1) = Some rs" using sample_lookup by blast
  then obtain rs' where "lookup (snd (complete (StrongId 1) ?f)) (StrongId 1) = Some rs'" "rs_terminal rs'"
    by (simp add: complete_def Let_def)
  from fenced_request_inert [OF this(1)] this(2) show ?thesis by auto
qed

section \<open>Bookkeeping of a cycle\<close>

lemma decide_report:
  assumes "decide pr wb cand ap winprop out rs = Some (out', rs')"
  shows "co_proposed_tokens out' = co_proposed_tokens out"
    and "co_accepted_tokens out' + co_rejected_tokens out' = of_nat (cs_size cand)"
  using assms by (auto simp: decide_def Let_def case_prod_beta advance_eq split: if_splits)

lemma cycle_commit_report:
  assumes "cycle_commit rid pp proposed accepted f = Some (Ok out, f')" and "lookup f rid = Some rs"
    and "\<not> rs_terminal rs" and "\<not> rs_cancelled rs"
  shows "co_proposed_tokens out = co_accepted_tokens out + co_rejected_tokens out"
  using assms by (auto simp: cycle_commit_def Let_def decide_report split: bind_splits)

lemma decide_phase_of:
  assumes "decide pr wb cand ap winprop out rs = Some (out', rs')"
  shows "co_phase out' = fst (decide_phase Ev_AcceptFull Ev_Commit (rs_cycle rs)) \<or>
    co_phase out' = fst (decide_phase Ev_AcceptPartial Ev_Commit (rs_cycle rs)) \<or>
    co_phase out' = fst (decide_phase Ev_RejectAll Ev_Rollback (rs_cycle rs))"
proof -
  have adv: "rs_cycle (advanced n c rs) = rs_cycle rs" for n c by (simp add: advanced_def)
  from assms show ?thesis
    by (auto simp: decide_def Let_def case_prod_beta advance_eq adv split: if_splits)
qed

text \<open>From the phase the preparing section leaves, none of the events of the final section is declared.\<close>

lemma dispatched_stuck:
  "machine_run finish_events (machine_at Ph_ProposalDispatched) = machine_at Ph_ProposalDispatched"
  "fst (decide_phase Ev_AcceptFull Ev_Commit (machine_at Ph_ProposalDispatched)) = Ph_Ready"
  "fst (decide_phase Ev_AcceptPartial Ev_Commit (machine_at Ph_ProposalDispatched)) = Ph_Ready"
  "fst (decide_phase Ev_RejectAll Ev_Rollback (machine_at Ph_ProposalDispatched)) = Ph_Ready"
  by (simp_all add: finish_events_def decide_phase_def machine_apply_simps machine_at_def table_lookup)

lemma prepared_phase:
  "machine_run [Ev_PlanProposal, Ev_ReserveProposal, Ev_DispatchProposal] (machine_at Ph_Ready) = machine_at Ph_ProposalDispatched"
  by (simp add: machine_apply_simps machine_at_def table_lookup)

text \<open>The events a cycle applies to the machine after the preparing section.\<close>

definition verdict_events :: "SpeculationEvent set" where
  "verdict_events = set finish_events \<union> {Ev_AcceptFull, Ev_AcceptPartial, Ev_RejectAll, Ev_Commit, Ev_Rollback}"

lemma dispatched_ignores: "e \<in> verdict_events \<Longrightarrow> snd (machine_apply e (machine_at Ph_ProposalDispatched)) = machine_at Ph_ProposalDispatched"
  by (auto simp: verdict_events_def finish_events_def machine_apply_simps machine_at_def table_lookup)

lemma dispatched_run: "set es \<subseteq> verdict_events \<Longrightarrow> machine_run es (machine_at Ph_ProposalDispatched) = machine_at Ph_ProposalDispatched"
  by (induction es) (simp_all add: dispatched_ignores)

lemma prepared_machine:
  assumes "fabric_wf f" and "lookup f rid = Some rs" and "rs_cycle rs = machine_at Ph_Ready \<or> is_terminal_phase (ssm_phase (rs_cycle rs))"
    and "cycle_prepare rid f = Some (Inr pp, f1)"
  obtains rs1 where "lookup f1 rid = Some rs1" "rs_cycle rs1 = machine_at Ph_ProposalDispatched"
    "\<not> rs_terminal rs1" "\<not> rs_cancelled rs1" "fabric_wf f1"
proof -
  obtain rs0 rs1 where rs0: "lookup f rid = Some rs0" "\<not> rs_terminal rs0" "\<not> rs_cancelled rs0"
    and rs1: "lookup f1 rid = Some rs1" "rs_cycle rs1 = machine_run [Ev_PlanProposal, Ev_ReserveProposal, Ev_DispatchProposal]
       (if is_terminal_phase (ssm_phase (rs_cycle rs0)) then machine_at Ph_Ready else rs_cycle rs0)"
    using cycle_prepare_ready [OF assms(4)] by blast
  have "rs0 = rs" using rs0(1) assms(2) by simp
  with assms(3) have "(if is_terminal_phase (ssm_phase (rs_cycle rs0)) then machine_at Ph_Ready else rs_cycle rs0) = machine_at Ph_Ready"
    by auto
  with rs1(2) have cyc: "rs_cycle rs1 = machine_at Ph_ProposalDispatched" by (simp only: prepared_phase)
  have "same_request rs rs1" using cycle_prepare_request(1) [OF assms(4,1), of rid] assms(2) rs1(1) by simp
  from same_requestD(10,11) [OF this] have "\<not> rs_terminal rs1" "\<not> rs_cancelled rs1" using rs0 \<open>rs0 = rs\<close> by simp_all
  then show thesis using that rs1(1) cyc cycle_prepare_request(2) [OF assms(4,1)] by blast
qed

lemma reported_phase:
  assumes "fabric_wf f" and "lookup f rid = Some rs" and "rs_cycle rs = machine_at Ph_Ready \<or> is_terminal_phase (ssm_phase (rs_cycle rs))"
    and "cycle_prepare rid f = Some (Inr pp, f1)" and "run_cycle rid f = Some (Ok out, f')"
  shows "co_phase out = Ph_Ready"
proof -
  obtain proposed accepted where c: "cycle_commit rid pp proposed accepted f1 = Some (Ok out, f')"
    using run_cycle_split [OF assms(4,1,2,5)] by blast
  obtain rs1 where rs1: "lookup f1 rid = Some rs1" "rs_cycle rs1 = machine_at Ph_ProposalDispatched"
    "\<not> rs_terminal rs1" "\<not> rs_cancelled rs1" using prepared_machine [OF assms(1-4)] by blast
  from c rs1 obtain pr wb cand ap p o1 rs2 where
    "decide pr wb cand ap p o1 (rs1\<lparr>rs_cycle := machine_at Ph_ProposalDispatched\<rparr>) = Some (out, rs2)"
    by (auto simp: cycle_commit_def Let_def dispatched_stuck split: bind_splits)
  from decide_phase_of [OF this] dispatched_stuck(2-4) show ?thesis by auto
qed

text \<open>
  C23 (cycle_reports_ready): take a cycle that the preparing section admits, so the request is neither
  completed, cancelled, expired, blocked nor incompatible (those cycles end there and report phases of
  their own), on a machine in Ready or in a terminal phase, which is reset. The preparing section leaves
  the machine in ProposalDispatched, because the start events of proposal and verification are never
  applied; there none of the events that follow, in whatever order, moves it, so it never reaches
  Committed or RolledBack. The outcome reports phase Ready even when tokens were committed, and the
  machine is put back to Ready.
\<close>

theorem cycle_reports_ready:
  assumes "fabric_wf f" and "lookup f rid = Some rs" and "rs_cycle rs = machine_at Ph_Ready \<or> is_terminal_phase (ssm_phase (rs_cycle rs))"
    and "cycle_prepare rid f = Some (Inr pp, f1)" and "run_cycle rid f = Some (Ok out, f')"
  shows "\<exists>rs1 rs'. lookup f1 rid = Some rs1 \<and> rs_cycle rs1 = machine_at Ph_ProposalDispatched \<and>
    (\<forall>es. set es \<subseteq> verdict_events \<longrightarrow> machine_run es (rs_cycle rs1) = rs_cycle rs1) \<and>
    lookup f' rid = Some rs' \<and> rs_cycle rs' = machine_at Ph_Ready \<and> co_phase out = Ph_Ready"
proof -
  obtain proposed accepted where c: "cycle_commit rid pp proposed accepted f1 = Some (Ok out, f')"
    using run_cycle_split [OF assms(4,1,2,5)] by blast
  obtain rs1 where rs1: "lookup f1 rid = Some rs1" "rs_cycle rs1 = machine_at Ph_ProposalDispatched"
    "\<not> rs_terminal rs1" "\<not> rs_cancelled rs1" "fabric_wf f1" using prepared_machine [OF assms(1-4)] by blast
  have "\<exists>rs'. lookup f' rid = Some rs' \<and> rs_cycle rs' = machine_at Ph_Ready"
  proof (rule cycle_commit_live [OF c rs1(5,1,3,4)])
    fix win a cand out1 bs e
    assume "lookup f' rid = Some (with_event e (settled (advanced (acc_accepted_prefix a) cand rs1)
        (winning_proposal rid rs1 win cand (acc_accepted_prefix a)) bs))"
    then show ?thesis by (simp add: settled_def)
  qed
  with rs1(1,2) dispatched_run reported_phase [OF assms] show ?thesis by auto
qed

theorem cycle_reports_ready_witness:
  "\<exists>out f' rs'. run_cycle (StrongId 1) (sample_fabric (cpu_propose default_CpuProposerConfig)) = Some (Ok out, f') \<and>
     lookup f' (StrongId 1) = Some rs' \<and> rs_cycle rs' = machine_at Ph_Ready \<and> co_phase out = Ph_Ready"
proof -
  let ?p = "cpu_propose default_CpuProposerConfig"
  obtain pp f1 where pp: "cycle_prepare (StrongId 1) (sample_fabric ?p) = Some (Inr pp, f1)"
    "pp_depth pp = 4" "pp_proposer pp = ?p" "pp_verifier pp = cpu_verify" using sample_admit [of ?p] by blast
  obtain rs where rs: "lookup (sample_fabric ?p) (StrongId 1) = Some rs" "rs_cycle rs = machine_at Ph_Ready"
    using sample_lookup by blast
  have "\<exists>out f'. run_cycle (StrongId 1) (sample_fabric ?p) = Some (Ok out, f')"
    using cpu_pair.run_cycle_defined [OF sample_wf rs(1) pp(1,3,4)] cpu_propose_succeeds [of pp] pp(2) by simp
  then obtain out f' where r: "run_cycle (StrongId 1) (sample_fabric ?p) = Some (Ok out, f')" by blast
  with cycle_reports_ready [OF sample_wf rs(1) _ pp(1) r(1)] rs(2) show ?thesis by blast
qed

text \<open>
  C22 (outstanding_limit_is_final): the backpressure check counts every proposal ever recorded for the
  request, and no operation removes one. Once that number reaches the policy's limit on outstanding
  work, every further cycle returns without changing any request except for its event log and
  machine: no token is committed again.
\<close>

theorem outstanding_limit_is_final:
  assumes "fabric_wf f" and "lookup f rid = Some rs"
    and "pol_max_outstanding_speculative_work (sch_policy (im_scheduler f)) \<noteq> 0"
    and "unat (pol_max_outstanding_speculative_work (sch_policy (im_scheduler f))) \<le> length (rs_proposals rs)"
    and "length (rs_proposals rs) < 2 ^ 32"
  shows "\<exists>res f'. run_cycle rid f = Some (res, f') \<and> (\<forall>r. rel_option same_request (lookup f r) (lookup f' r))"
proof -
  have blocked: "bp_blocked (cycle_backpressure (rs\<lparr>rs_cycle := m\<rparr>) g)" "bp_blocked (cycle_backpressure rs g)"
    if "im_scheduler g = im_scheduler f" for m g
    using assms(3-5) that
    by (auto simp: cycle_backpressure_def backpressure_blocked_iff word_le_nat_alt unat_of_nat)
  have admit: "\<exists>r g'. cycle_admit rid rs g = Some (Inl r, g')" if "im_scheduler g = im_scheduler f" for g
    using that blocked by (auto simp: cycle_admit_def Let_def)
  have "\<exists>r f'. cycle_prepare rid f = Some (Inl r, f')"
    using admit [of f] admit [of "snd (read_clock f)"] assms(2)
    by (auto simp: cycle_prepare_def Let_def case_prod_beta split: option.splits)
  then obtain r f' where p: "cycle_prepare rid f = Some (Inl r, f')" by blast
  then have "run_cycle rid f = Some (r, f')" by (simp add: run_cycle_def)
  with cycle_prepare_request(1) [OF p assms(1)] show ?thesis by blast
qed

definition exhausted_request :: RequestState where
  "exhausted_request = default_RequestState\<lparr>rs_req := sample_request, rs_attempt := StrongId 1,
     rs_auth_state := \<lparr>sr_id = StrongId (5 * 0x9E3779B97F4A7C15), sr_generation = StrongId 0\<rparr>,
     rs_auth_gen := StrongId 0, rs_auth_state_gen := StrongId 0, rs_committed := [11, 12],
     rs_proposals := replicate 8 default_Proposal\<rparr>"

definition exhausted_fabric :: Fabric where
  "exhausted_fabric = (sample_fabric (cpu_propose default_CpuProposerConfig))\<lparr>im_requests := [(StrongId 1, exhausted_request)]\<rparr>"

lemma exhausted_wf: "fabric_wf exhausted_fabric"
proof -
  have "request_wf (StrongId 1) exhausted_request"
    by (simp add: exhausted_request_def request_wf_def sample_request_def default_SpeculationRequest_def)
  with sample_wf [of "cpu_propose default_CpuProposerConfig"] show ?thesis
    by (simp add: exhausted_fabric_def fabric_wf_def map_ordered_def)
qed

theorem outstanding_limit_is_final_witness:
  "\<exists>res f'. run_cycle (StrongId 1) exhausted_fabric = Some (res, f') \<and>
     (\<forall>r. rel_option same_request (lookup exhausted_fabric r) (lookup f' r))"
proof -
  have len: "length (rs_proposals exhausted_request) = 8" by (simp add: exhausted_request_def)
  have sch: "sch_policy (im_scheduler exhausted_fabric) = default_ProposalPolicy"
    by (simp add: exhausted_fabric_def sample_fields new_scheduler_def)
  have look: "lookup exhausted_fabric (StrongId 1) = Some exhausted_request" by (simp add: exhausted_fabric_def)
  show ?thesis
    by (rule outstanding_limit_is_final [OF exhausted_wf look]) (simp_all add: len sch default_ProposalPolicy_def)
qed

section \<open>A rejected token can be committed\<close>

text \<open>
  A proposer that follows the target model except for the first token of the draft. It meets the
  proposal contract: the candidate has the requested depth.
\<close>

definition wrong_head :: proposer where
  "wrong_head inp =
     (case target_sequence (proposal_seed inp) (unat (pin_depth inp)) of
        [] \<Rightarrow> Ok (proposal_failure PO_NonRetryableFailure (Validation EC_invalid_zero_depth) [])
      | e # es \<Rightarrow> Ok (default_ProposalResult\<lparr>pres_outcome := PO_Success,
                       pres_candidate := Some \<lparr>cs_tokens = map mk_token ((e + 1) # es)\<rparr>\<rparr>))"

lemma wrong_head_candidate:
  assumes "0 < unat (pin_depth inp)"
  obtains r e es where "wrong_head inp = Ok r" "pres_success r" "pres_candidate r = Some \<lparr>cs_tokens = map mk_token ((e + 1) # es)\<rparr>"
    "target_sequence (proposal_seed inp) (unat (pin_depth inp)) = e # es" "Suc (length es) = unat (pin_depth inp)"
proof -
  let ?t = "target_sequence (proposal_seed inp) (unat (pin_depth inp))"
  obtain e es where t: "?t = e # es" using assms length_target_sequence by (cases ?t) (metis list.size(3) less_numeral_extra(3))
  then have "Suc (length es) = unat (pin_depth inp)" using length_target_sequence [of "proposal_seed inp" "unat (pin_depth inp)"] by simp
  with t that show thesis by (simp add: wrong_head_def pres_success_def)
qed

interpretation wrong_head: contracted_executors wrong_head cpu_verify
proof
  fix inp r assume r: "wrong_head inp = Ok r" "pres_success r"
  then have "0 < unat (pin_depth inp)"
    by (cases "unat (pin_depth inp)") (auto simp: wrong_head_def target_sequence_def proposal_failure_def pres_success_def)
  then obtain r' e es where "wrong_head inp = Ok r'" "pres_candidate r' = Some \<lparr>cs_tokens = map mk_token ((e + 1) # es)\<rparr>"
    "Suc (length es) = unat (pin_depth inp)" by (rule wrong_head_candidate)
  with r(1) show "\<exists>c. pres_candidate r = Some c \<and> cs_size c = unat (pin_depth inp) \<and> 0 < cs_size c" by auto
qed (auto simp: cpu_verify_def Let_def)

text \<open>The verdict on such a draft: only its first token is rejected.\<close>

lemma wrong_head_branch:
  assumes "propose_branch rid pp b rs = Ok br" and "verify_branch rid pp br rs = Some (Ok a)"
    and "pp_proposer pp = wrong_head" and "pp_verifier pp = cpu_verify" and "pp_depth pp = 4"
    and "pres_candidate (bres_pr br) = Some cand" and "\<not> is_null (tok_id (mi_tokenizer (rq_draft_model (rs_req rs))))"
  obtains t ts where "cs_ids cand = t # ts" "acc_accepted_prefix a = 3" "acc_first_rejection_index a = 0"
    "hd (acc_per_position a) = 0" "cpu_verify (verification_input rid pp br cand rs) = Ok a"
proof -
  let ?p = "proposal_input rid pp b rs" and ?v = "verification_input rid pp br cand rs"
  obtain r e es where h: "wrong_head ?p = Ok r" "pres_candidate r = Some \<lparr>cs_tokens = map mk_token ((e + 1) # es)\<rparr>"
    "target_sequence (proposal_seed ?p) (unat (pin_depth ?p)) = e # es" "Suc (length es) = unat (pin_depth ?p)"
    by (rule wrong_head_candidate [of ?p]) (simp_all add: assms(5))
  have br: "bres_pr br = r" "bres_proposer_model br = rq_draft_model (rs_req rs)"
    using assms(1) h(1) by (cases br, simp add: propose_branch_def assms(3))+
  have ids: "cs_ids cand = (e + 1) # es" "cs_size cand = 4" "length es = 3"
    using assms(6) br(1) h(2,4) by (auto simp: cs_ids_def mk_token_def o_def assms(5))
  have v: "cpu_verify ?v = Ok a" using assms(2,6) by (simp add: verify_branch_def assms(4))
  have ready: "ready_to_verify ?v"
    using ids(2) assms(7) by (auto simp: ready_to_verify_def cs_empty_def cs_size_def)
  have seed: "verification_seed ?v = proposal_seed ?p"
    using same_seed [of ?p ?v] ids(2) br(2) by (simp add: same_envelope_def assms(5))
  have n: "unat (of_nat (cs_size (vin_candidate ?v)) :: u32) = 4" using ids(2) by simp
  have t: "take 4 (cs_ids (vin_candidate ?v)) = (e + 1) # es" using ids by simp
  have es: "target_sequence (proposal_seed ?p) 4 = e # es" using h(3) by (simp add: assms(5))
  have ag: "agreements es es = 3" using agreements_full [of es es] ids(3) by simp
  from cpu_verify_ready [OF ready, unfolded n t seed es] obtain a' where a': "cpu_verify ?v = Ok a'"
    "acc_per_position a' = map2 (\<lambda>e t. if e = t then 1 else 0) (e # es) ((e + 1) # es)"
    "unat (acc_accepted_prefix a') = agreements (e # es) ((e + 1) # es)"
    "unat (acc_first_rejection_index a') = agree_prefix (e # es) ((e + 1) # es)" by blast
  with v have "a' = a" by simp
  with a' ag have "unat (acc_accepted_prefix a) = 3" "unat (acc_first_rejection_index a) = 0" "hd (acc_per_position a) = 0"
    by simp_all
  then have "acc_accepted_prefix a = 3" "acc_first_rejection_index a = 0" "hd (acc_per_position a) = 0"
    by (simp_all add: word_unat_eq_iff)
  with ids(1) v show thesis using that by blast
qed

text \<open>
  C4 (rejected_token_committed): with the CPU verifier and an executor that honours the proposal
  contract, \<^verbatim>\<open>run_cycle\<close> commits a token the verifier rejected: in the sample runtime the verifier's
  answer to the one branch of the cycle marks position 0 of the candidate as rejected and accepts
  the other three, and the cycle appends the first three candidate tokens, the rejected one first,
  to the authoritative sequence.
\<close>

theorem rejected_token_committed:
  "\<exists>out f' rs' t ts. run_cycle (StrongId 1) (sample_fabric wrong_head) = Some (Ok out, f') \<and>
     lookup f' (StrongId 1) = Some rs' \<and> rs_committed rs' = [11, 12] @ t # ts \<and>
     co_accepted_tokens out = 3 \<and>
     (\<exists>rs pp f1 br cand a v. lookup (sample_fabric wrong_head) (StrongId 1) = Some rs \<and>
        cycle_prepare (StrongId 1) (sample_fabric wrong_head) = Some (Inr pp, f1) \<and> pp_branch_count pp = 1 \<and>
        propose_branch (StrongId 1) pp 0 rs = Ok br \<and> pres_candidate (bres_pr br) = Some cand \<and>
        v = verification_input (StrongId 1) pp br cand rs \<and> pp_verifier pp = cpu_verify \<and> cpu_verify v = Ok a \<and>
        vin_authoritative_state v = rs_auth_state rs \<and> hd (cs_ids (vin_candidate v)) = t \<and> t # ts = take 3 (cs_ids cand) \<and>
        acc_first_rejection_index a = 0 \<and> hd (acc_per_position a) = 0)"
proof -
  obtain pp f1 where pp: "cycle_prepare (StrongId 1) (sample_fabric wrong_head) = Some (Inr pp, f1)"
    "pp_depth pp = 4" "pp_branch_count pp = 1" "pp_proposer pp = wrong_head" "pp_verifier pp = cpu_verify"
    using sample_admit [of wrong_head] by blast
  obtain rs where rs: "lookup (sample_fabric wrong_head) (StrongId 1) = Some rs" "rs_committed rs = [11, 12]" "rs_req rs = sample_request"
    using sample_lookup by blast
  have "\<exists>r. wrong_head (proposal_input (StrongId 1) pp b rs) = Ok r \<and> pres_success r" for b
    by (rule wrong_head_candidate [of "proposal_input (StrongId 1) pp b rs"]) (auto simp: pp(2))
  then obtain out f' where r: "run_cycle (StrongId 1) (sample_fabric wrong_head) = Some (Ok out, f')"
    using wrong_head.run_cycle_defined [OF sample_wf rs(1) pp(1,4,5)] by blast
  from completed_cycle [OF sample_wf rs(1) pp(1) r] obtain proposed accepted w cand rs' where
    ans: "answered (StrongId 1) pp rs proposed accepted" and w: "w < length proposed"
    and cand: "pres_candidate (bres_pr (proposed ! w)) = Some cand"
    and n: "co_accepted_tokens out = acc_accepted_prefix (accepted ! w)"
    and rs': "lookup f' (StrongId 1) = Some rs'"
    and com: "rs_committed rs' = rs_committed rs @ take (unat (co_accepted_tokens out)) (cs_ids cand)" by blast
  have tok: "\<not> is_null (tok_id (mi_tokenizer (rq_draft_model (rs_req rs))))"
    by (simp add: rs(3) sample_request_def sample_model_def null_id_def)
  obtain t ts where b: "cs_ids cand = t # ts" "acc_accepted_prefix (accepted ! w) = 3"
    "acc_first_rejection_index (accepted ! w) = 0" "hd (acc_per_position (accepted ! w)) = 0"
    "cpu_verify (verification_input (StrongId 1) pp (proposed ! w) cand rs) = Ok (accepted ! w)"
    by (rule wrong_head_branch [OF answered_nth(2,3) [OF ans w] pp(4,5,2) cand tok])
  have w0: "w = 0" using w ans pp(3) by (simp add: answered_def)
  have "propose_branch (StrongId 1) pp 0 rs = Ok (proposed ! w)" using answered_nth(2) [OF ans w] w0 by simp
  moreover have "rs_committed rs' = [11, 12] @ t # take 2 ts" "co_accepted_tokens out = 3" "t # take 2 ts = take 3 (cs_ids cand)"
    using com rs(2) n b(1,2) by simp_all
  moreover have "hd (cs_ids (vin_candidate (verification_input (StrongId 1) pp (proposed ! w) cand rs))) = t" using b(1) by simp
  moreover have "vin_authoritative_state (verification_input (StrongId 1) pp (proposed ! w) cand rs) = rs_auth_state rs" by simp
  ultimately show ?thesis using r rs' rs(1) pp(1,3,5) cand b(3-5) by blast
qed

end
