(* ===== verification/SF_Runs.thy ===== *)
theory SF_Runs
  imports SF_CycleProps
begin

text \<open>
  Concurrent use of one runtime. Every public operation holds the mutex throughout, and
  \<^verbatim>\<open>run_cycle\<close> holds it in separate sections, so a run of several threads is a sequence of these
  sections in some order. A system state is the runtime together with the cycles in flight, each
  with what it has computed so far; the step relation takes one whole operation or one section of
  one cycle. A section whose behaviour is undefined has no step.
\<close>

section \<open>Systems and steps\<close>

record Flight =
  fl_request :: RequestId
  fl_prepared :: Prepared
  fl_proposed :: "BranchResult list"
  fl_accepted :: "AcceptanceResult list"

record System =
  sys_fabric :: Fabric
  sys_flights :: "Flight list"

definition new_system :: "Config \<Rightarrow> System" where
  "new_system cfg = \<lparr>sys_fabric = new_fabric cfg, sys_flights = []\<rparr>"

definition fl_branches :: "Flight \<Rightarrow> nat" where
  "fl_branches flt = unat (pp_branch_count (fl_prepared flt))"

text \<open>The operations that are one critical section.\<close>

inductive operation :: "Fabric \<Rightarrow> Fabric \<Rightarrow> bool" where
  op_submit: "operation f (snd (submit req f))"
| op_cancel: "operation f (snd (cancel r why f))"
| op_complete: "operation f (snd (complete r f))"
| op_retry: "operation f (snd (retry r f))"
| op_rollback: "operation f (snd (rollback r why f))"
| op_emit: "operation f (emit_event r t d j f)"
| op_snapshot: "operation f (snd (snapshot f))"
| op_roll_epoch: "operation f (roll_epoch f)"

text \<open>One section of a cycle in flight: the runtime afterwards and the flight, unless it has returned.\<close>

inductive flight_step :: "Fabric \<Rightarrow> Flight \<Rightarrow> Fabric \<Rightarrow> Flight option \<Rightarrow> bool" where
  fs_propose: "length (fl_proposed flt) < fl_branches flt \<Longrightarrow> lookup f (fl_request flt) = Some rs \<Longrightarrow>
    propose_branch (fl_request flt) (fl_prepared flt) (of_nat (length (fl_proposed flt))) rs = Ok br \<Longrightarrow>
    flight_step f flt f (Some (flt\<lparr>fl_proposed := fl_proposed flt @ [br]\<rparr>))"
| fs_propose_error: "length (fl_proposed flt) < fl_branches flt \<Longrightarrow> lookup f (fl_request flt) = Some rs \<Longrightarrow>
    propose_branch (fl_request flt) (fl_prepared flt) (of_nat (length (fl_proposed flt))) rs = Err e \<Longrightarrow>
    flight_step f flt f None"
| fs_verify: "length (fl_proposed flt) = fl_branches flt \<Longrightarrow> length (fl_accepted flt) < length (fl_proposed flt) \<Longrightarrow>
    lookup f (fl_request flt) = Some rs \<Longrightarrow>
    verify_branch (fl_request flt) (fl_prepared flt) (fl_proposed flt ! length (fl_accepted flt)) rs = Some (Ok a) \<Longrightarrow>
    flight_step f flt f (Some (flt\<lparr>fl_accepted := fl_accepted flt @ [a]\<rparr>))"
| fs_verify_error: "length (fl_proposed flt) = fl_branches flt \<Longrightarrow> length (fl_accepted flt) < length (fl_proposed flt) \<Longrightarrow>
    lookup f (fl_request flt) = Some rs \<Longrightarrow>
    verify_branch (fl_request flt) (fl_prepared flt) (fl_proposed flt ! length (fl_accepted flt)) rs = Some (Err e) \<Longrightarrow>
    flight_step f flt f None"
| fs_commit: "length (fl_proposed flt) = fl_branches flt \<Longrightarrow> length (fl_accepted flt) = length (fl_proposed flt) \<Longrightarrow>
    cycle_commit (fl_request flt) (fl_prepared flt) (fl_proposed flt) (fl_accepted flt) f = Some (r, f') \<Longrightarrow>
    flight_step f flt f' None"

inductive sys_step :: "System \<Rightarrow> System \<Rightarrow> bool" where
  step_operation: "operation (sys_fabric s) f' \<Longrightarrow> sys_step s (s\<lparr>sys_fabric := f'\<rparr>)"
| step_return: "cycle_prepare rid (sys_fabric s) = Some (Inl r, f') \<Longrightarrow> sys_step s (s\<lparr>sys_fabric := f'\<rparr>)"
| step_begin: "cycle_prepare rid (sys_fabric s) = Some (Inr pp, f') \<Longrightarrow>
    sys_step s (s\<lparr>sys_fabric := f', sys_flights := sys_flights s @
      [\<lparr>fl_request = rid, fl_prepared = pp, fl_proposed = [], fl_accepted = []\<rparr>]\<rparr>)"
| step_flight: "sys_flights s = fls @ flt # fls' \<Longrightarrow> flight_step (sys_fabric s) flt f' r \<Longrightarrow>
    sys_step s (s\<lparr>sys_fabric := f', sys_flights := fls @ (case r of None \<Rightarrow> [] | Some flt' \<Rightarrow> [flt']) @ fls'\<rparr>)"

inductive_cases operationE: "operation f f'"
inductive_cases flight_stepE: "flight_step f flt f' r"
inductive_cases sys_stepE: "sys_step s t"

section \<open>How a request may change\<close>

text \<open>
  The relation between two states of a request along a run: the request itself is fixed, committed
  tokens and proposals are only appended to, the flags are never cleared, and a request that is
  terminal or cancelled keeps its committed tokens and generation.
\<close>

definition grows :: "RequestState \<Rightarrow> RequestState \<Rightarrow> bool" where
  "grows rs rs' \<longleftrightarrow> rs_req rs' = rs_req rs \<and> prefix (rs_committed rs) (rs_committed rs') \<and>
     prefix (rs_proposals rs) (rs_proposals rs') \<and>
     (rs_terminal rs \<longrightarrow> rs_terminal rs') \<and> (rs_cancelled rs \<longrightarrow> rs_cancelled rs') \<and>
     (rs_terminal rs \<or> rs_cancelled rs \<longrightarrow> rs_committed rs' = rs_committed rs \<and> rs_auth_gen rs' = rs_auth_gen rs \<and>
        rs_proposals rs' = rs_proposals rs)"

definition requests_grow :: "Fabric \<Rightarrow> Fabric \<Rightarrow> bool" where
  "requests_grow f f' \<longleftrightarrow> (\<forall>r rs. r \<noteq> null_id \<longrightarrow> lookup f r = Some rs \<longrightarrow> (\<exists>rs'. lookup f' r = Some rs' \<and> grows rs rs'))"

lemma grows_refl [simp]: "grows rs rs"
  by (simp add: grows_def)

lemma grows_trans: "grows a b \<Longrightarrow> grows b c \<Longrightarrow> grows a c"
  by (auto simp: grows_def intro: prefix_order.trans)

lemma same_request_grows: "same_request rs rs' \<Longrightarrow> grows rs rs'"
  by (simp add: grows_def same_requestD)

lemma requests_grow_refl: "requests_grow f f"
  by (simp add: requests_grow_def)

lemma requests_grow_trans: "requests_grow f g \<Longrightarrow> requests_grow g h \<Longrightarrow> requests_grow f h"
  unfolding requests_grow_def by (meson grows_trans)

lemma operation_grows:
  assumes "operation f f'" and "fabric_wf f" shows "requests_grow f f'"
  using assms(1)
proof cases
  case (op_submit req)
  have "rq_id (rs_req rs) = r" if "lookup f r = Some rs" for r rs
    using wf_lookup [OF assms(2) that] by (simp add: request_wf_def)
  with op_submit show ?thesis by (auto simp: requests_grow_def submit_def Let_def split: option.splits)
qed (auto simp: requests_grow_def cancel_def complete_def retry_def rollback_def emit_event_def snapshot_def roll_epoch_def
      read_clock_def Let_def grows_def split: option.splits)

lemma prepare_grows: "cycle_prepare rid f = Some (p, f') \<Longrightarrow> fabric_wf f \<Longrightarrow> requests_grow f f'"
  unfolding requests_grow_def
  by (metis cycle_prepare_request(1) option.rel_cases option.distinct(1) option.inject same_request_grows)

lemma commit_step:
  assumes "cycle_commit rid pp proposed accepted f = Some (r, f')" and "fabric_wf f"
  shows "requests_grow f f' \<and> fabric_wf f'"
proof (cases "lookup f rid")
  case None
  with assms show ?thesis by (simp add: cycle_commit_def requests_grow_refl)
next
  case (Some rs)
  show ?thesis
  proof (cases "rs_terminal rs \<or> rs_cancelled rs")
    case True
    with assms Some cycle_commit_fenced [OF Some True, of pp proposed accepted] show ?thesis
      by (auto simp: requests_grow_def grows_def intro: wf_push_event)
  next
    case False
    then have live: "\<not> rs_terminal rs" "\<not> rs_cancelled rs" by auto
    from assms Some live show ?thesis
    proof (rule cycle_commit_live)
      fix win a cand out bs e
      assume h: "lookup f' rid = Some (with_event e (settled (advanced (acc_accepted_prefix a) cand rs)
          (winning_proposal rid rs win cand (acc_accepted_prefix a)) bs))"
        "\<And>r'. r' \<noteq> rid \<Longrightarrow> lookup f' r' = lookup f r'" "fabric_wf f'"
      have "grows rs (with_event e (settled (advanced (acc_accepted_prefix a) cand rs)
          (winning_proposal rid rs win cand (acc_accepted_prefix a)) bs))"
        using live by (simp add: grows_def settled_def advanced_def)
      with h Some show ?thesis unfolding requests_grow_def by (metis grows_refl option.inject)
    qed
  qed
qed

lemma operation_wf: "operation f f' \<Longrightarrow> fabric_wf f \<Longrightarrow> fabric_wf f'"
  by (cases rule: operation.cases) (auto intro: sf_inv)

lemma flight_step_fabric:
  assumes "flight_step f flt f' r" and "fabric_wf f" shows "requests_grow f f' \<and> fabric_wf f'"
  using assms by (cases rule: flight_step.cases) (auto simp: requests_grow_refl dest: commit_step)

lemma sys_step_fabric:
  assumes "sys_step s t" and "fabric_wf (sys_fabric s)"
  shows "requests_grow (sys_fabric s) (sys_fabric t) \<and> fabric_wf (sys_fabric t)"
  using assms
proof (cases rule: sys_step.cases)
  case (step_operation f')
  with assms(2) show ?thesis by (simp add: operation_grows operation_wf)
next
  case (step_return rid r f')
  with assms(2) show ?thesis by (simp add: prepare_grows cycle_prepare_request(2))
next
  case (step_begin rid pp f')
  with assms(2) show ?thesis by (simp add: prepare_grows cycle_prepare_request(2))
next
  case (step_flight fls flt fls' f' r)
  with assms(2) show ?thesis by (simp add: flight_step_fabric)
qed

interpretation runs: monotone_system "\<lambda>s. \<exists>cfg. s = new_system cfg" sys_step "\<lambda>s. fabric_wf (sys_fabric s)"
    "\<lambda>s t. requests_grow (sys_fabric s) (sys_fabric t)"
  by unfold_locales (auto simp: new_system_def wf_new_fabric requests_grow_refl dest: sys_step_fabric intro: requests_grow_trans)

section \<open>Properties of every run\<close>

text \<open>
  C8 (reachable_wf): in every state that any interleaving of operations and cycle sections reaches
  from a new runtime, the runtime is well formed: for each request the committed sequence extends
  the submitted prefix, the authoritative generation is the number of tokens committed since
  submission (modulo \<open>2^64\<close>), both generations agree, and no reservation is held. For a request with
  a non-null identifier the attempt number is moreover one more than the retry count (in the low 32
  bits), which respects the limit; for identifier 0 this can fail, since submitting it again resets
  the attempt and not the retry count.
\<close>

theorem reachable_wf:
  assumes "sys_step\<^sup>*\<^sup>* (new_system cfg) s" and "lookup (sys_fabric s) r = Some rs"
  shows "fabric_wf (sys_fabric s) \<and> request_wf r rs \<and>
    prefix (rq_prefix (rs_req rs)) (rs_committed rs) \<and>
    id_get (rs_auth_gen rs) = of_nat (length (rs_committed rs) - length (rq_prefix (rs_req rs))) \<and>
    rs_reservations rs = [] \<and>
    (r \<noteq> null_id \<longrightarrow> ucast (id_get (rs_attempt rs)) = rs_retry_count rs + 1 \<and>
       (rq_max_attempts (rs_req rs) \<noteq> 0 \<longrightarrow> rs_retry_count rs \<le> rq_max_attempts (rs_req rs)))"
proof -
  have "fabric_wf (sys_fabric s)" using runs.reachable_inv [OF _ assms(1)] by blast
  with wf_lookup [OF this assms(2)] show ?thesis by (simp add: request_wf_def)
qed

text \<open>
  C6 (committed_monotone): along every run, from any well-formed state on, a request with a non-null
  identifier is never lost or replaced, its committed tokens are only ever appended to, and once it is
  terminal or cancelled it stays so and its committed tokens, generation and proposals never
  change again, whatever cycles were in flight.
\<close>

theorem committed_monotone:
  assumes "fabric_wf (sys_fabric s)" and "sys_step\<^sup>*\<^sup>* s t" and "r \<noteq> null_id" and "lookup (sys_fabric s) r = Some rs"
  shows "\<exists>rs'. lookup (sys_fabric t) r = Some rs' \<and> grows rs rs'"
  using runs.steps_R [OF assms(2,1)] assms(3,4) by (simp add: requests_grow_def)

definition sample_system :: "proposer \<Rightarrow> System" where
  "sample_system p = \<lparr>sys_fabric = sample_fabric p, sys_flights = []\<rparr>"

lemma sample_system_reachable: "sys_step\<^sup>*\<^sup>* (new_system (sample_config p)) (sample_system p)"
  using step_operation [of "new_system (sample_config p)", OF op_submit [of _ sample_request]]
  by (simp add: new_system_def sample_system_def sample_fabric_def r_into_rtranclp)

abbreviation cpu_perfect :: proposer where
  "cpu_perfect \<equiv> cpu_propose (default_CpuProposerConfig\<lparr>ppc_aligned_tokens := 9\<rparr>)"

theorem reachable_wf_witness:
  "\<exists>rs. lookup (sys_fabric (sample_system cpu_perfect)) (StrongId 1) = Some rs \<and> request_wf (StrongId 1) rs \<and>
     ucast (id_get (rs_attempt rs)) = rs_retry_count rs + 1"
proof -
  obtain rs where "lookup (sys_fabric (sample_system cpu_perfect)) (StrongId 1) = Some rs"
    using sample_lookup [of cpu_perfect] by (auto simp: sample_system_def)
  with reachable_wf [OF sample_system_reachable this] show ?thesis by (auto simp: null_id_def)
qed

theorem committed_monotone_witness:
  "\<exists>rs rs' why. lookup (sys_fabric (sample_system cpu_perfect)) (StrongId 1) = Some rs \<and>
     lookup (snd (cancel (StrongId 1) why (sample_fabric cpu_perfect))) (StrongId 1) = Some rs' \<and>
     grows rs rs'"
proof -
  let ?s = "sample_system cpu_perfect"
  obtain rs where rs: "lookup (sys_fabric ?s) (StrongId 1) = Some rs"
    using sample_lookup [of cpu_perfect] by (auto simp: sample_system_def)
  have "sys_step\<^sup>*\<^sup>* ?s (?s\<lparr>sys_fabric := snd (cancel (StrongId 1) [] (sys_fabric ?s))\<rparr>)"
    by (intro r_into_rtranclp step_operation op_cancel)
  from committed_monotone [OF _ this _ rs] sample_wf rs show ?thesis
    by (auto simp: sample_system_def null_id_def)
qed

section \<open>The sequential cycle is a run\<close>

lemma flight_within:
  assumes "flight_step f flt f' r"
  shows "sys_step \<lparr>sys_fabric = f, sys_flights = fls @ flt # fls'\<rparr>
    \<lparr>sys_fabric = f', sys_flights = fls @ (case r of None \<Rightarrow> [] | Some flt' \<Rightarrow> [flt']) @ fls'\<rparr>"
  using step_flight [of "\<lparr>sys_fabric = f, sys_flights = fls @ flt # fls'\<rparr>" fls flt fls' f' r] assms by simp

lemmas steps_flight = flight_within [where fls' = "[]", unfolded append_Nil2]

lemma propose_steps:
  fixes fls :: "Flight list"
  assumes "lookup f rid = Some rs" and "length prs + n = unat (pp_branch_count pp)"
  defines "st \<equiv> \<lambda>prs. \<lparr>sys_fabric = f, sys_flights = fls @ [\<lparr>fl_request = rid, fl_prepared = pp, fl_proposed = prs, fl_accepted = []\<rparr>]\<rparr>"
  shows "case propose_branches rid pp rs n (of_nat (length prs)) of
      Ok brs \<Rightarrow> sys_step\<^sup>*\<^sup>* (st prs) (st (prs @ brs))
    | Err e \<Rightarrow> sys_step\<^sup>*\<^sup>* (st prs) \<lparr>sys_fabric = f, sys_flights = fls\<rparr>"
  using assms(2)
proof (induction n arbitrary: prs)
  case (Suc n)
  let ?flt = "\<lparr>fl_request = rid, fl_prepared = pp, fl_proposed = prs, fl_accepted = []\<rparr>"
  have lt: "length (fl_proposed ?flt) < fl_branches ?flt" using Suc.prems by (simp add: fl_branches_def)
  have next_b: "(of_nat (length prs) :: u32) + 1 = of_nat (length (prs @ [br]))" for br by simp
  show ?case
  proof (cases "propose_branch rid pp (of_nat (length prs)) rs")
    case (Err e)
    from steps_flight [OF fs_propose_error [of ?flt, OF lt]] Err assms(1) show ?thesis
      by (simp add: st_def r_into_rtranclp)
  next
    case (Ok br)
    from steps_flight [OF fs_propose [of ?flt, OF lt]] Ok assms(1) have one: "sys_step (st prs) (st (prs @ [br]))"
      by (simp add: st_def)
    have "length (prs @ [br]) + n = unat (pp_branch_count pp)" using Suc.prems by simp
    from Suc.IH [OF this] one Ok show ?thesis
      unfolding propose_branches.simps next_b [of br]
      by (auto split: Result.splits intro: converse_rtranclp_into_rtranclp)
  qed
qed simp

lemma verify_steps:
  fixes fls :: "Flight list"
  assumes "lookup f rid = Some rs" and "proposed = earlier @ brs" and "length as = length earlier"
    and "length proposed = unat (pp_branch_count pp)" and "verify_branches rid pp rs brs = Some r"
  defines "st \<equiv> \<lambda>as. \<lparr>sys_fabric = f, sys_flights = fls @ [\<lparr>fl_request = rid, fl_prepared = pp, fl_proposed = proposed, fl_accepted = as\<rparr>]\<rparr>"
  shows "case r of Ok as' \<Rightarrow> sys_step\<^sup>*\<^sup>* (st as) (st (as @ as')) | Err e \<Rightarrow> sys_step\<^sup>*\<^sup>* (st as) \<lparr>sys_fabric = f, sys_flights = fls\<rparr>"
  using assms(2,3,5)
proof (induction brs arbitrary: earlier as r)
  case (Cons br brs)
  let ?flt = "\<lparr>fl_request = rid, fl_prepared = pp, fl_proposed = proposed, fl_accepted = as\<rparr>"
  have len: "length (fl_proposed ?flt) = fl_branches ?flt" "length (fl_accepted ?flt) < length (fl_proposed ?flt)"
    using Cons.prems assms(4) by (simp_all add: fl_branches_def)
  have nth: "fl_proposed ?flt ! length (fl_accepted ?flt) = br" using Cons.prems by simp
  from Cons.prems(3) obtain v where v: "verify_branch rid pp br rs = Some v" by (auto split: bind_splits)
  show ?case
  proof (cases v)
    case (Err e)
    with v Cons.prems(3) have "r = Err e" by simp
    with steps_flight [OF fs_verify_error [of ?flt f rs e, OF len]] v Err nth assms(1) show ?thesis
      by (simp add: st_def r_into_rtranclp)
  next
    case (Ok a)
    from steps_flight [OF fs_verify [of ?flt f rs a, OF len]] v Ok nth assms(1) have one: "sys_step (st as) (st (as @ [a]))"
      by (simp add: st_def)
    from Cons.prems(3) v Ok obtain rest where rest: "verify_branches rid pp rs brs = Some rest"
      "r = (case rest of Err e \<Rightarrow> Err e | Ok as \<Rightarrow> Ok (a # as))" by (auto split: bind_splits)
    have "proposed = (earlier @ [br]) @ brs" "length (as @ [a]) = length (earlier @ [br])" using Cons.prems by simp_all
    from Cons.IH [OF this rest(1)] one rest(2) show ?thesis
      by (auto split: Result.splits intro: converse_rtranclp_into_rtranclp)
  qed
qed auto

text \<open>
  A call of \<^verbatim>\<open>run_cycle\<close> whose sections no other thread interrupts is one run
  of the system that leaves the other cycles in flight alone; so what holds along every run holds
  of every completed call, successful or not.
\<close>

lemma run_cycle_is_run:
  assumes "fabric_wf f" and "run_cycle rid f = Some (res, f')"
  shows "sys_step\<^sup>*\<^sup>* \<lparr>sys_fabric = f, sys_flights = fls\<rparr> \<lparr>sys_fabric = f', sys_flights = fls\<rparr>"
proof -
  let ?s = "\<lparr>sys_fabric = f, sys_flights = fls\<rparr>"
  from assms(2) obtain p f1 where p: "cycle_prepare rid f = Some (p, f1)" by (auto simp: run_cycle_def split: bind_splits)
  show ?thesis
  proof (cases p)
    case (Inl r)
    with p assms(2) step_return [of rid ?s r f1] show ?thesis by (simp add: run_cycle_def r_into_rtranclp)
  next
    case (Inr pp)
    let ?st = "\<lambda>prs as. \<lparr>sys_fabric = f1, sys_flights = fls @ [\<lparr>fl_request = rid, fl_prepared = pp, fl_proposed = prs, fl_accepted = as\<rparr>]\<rparr>"
    have begin1: "sys_step\<^sup>*\<^sup>* ?s (?st [] [])" using step_begin [of rid ?s pp f1] p Inr by (simp add: r_into_rtranclp)
    obtain rs where rs: "lookup f1 rid = Some rs"
      using cycle_prepare_ready [OF p [unfolded Inr]] by blast
    then have at1: "request_at rid f1 = rs" by (simp add: request_at_def)
    let ?n = "unat (pp_branch_count pp)"
    have prop1: "case propose_branches rid pp rs ?n 0 of Ok brs \<Rightarrow> sys_step\<^sup>*\<^sup>* (?st [] []) (?st brs [])
        | Err e \<Rightarrow> sys_step\<^sup>*\<^sup>* (?st [] []) \<lparr>sys_fabric = f1, sys_flights = fls\<rparr>"
      using propose_steps [OF rs, of "[]" ?n pp fls] by (simp cong: Result.case_cong)
    show ?thesis
    proof (cases "propose_branches rid pp rs ?n 0")
      case (Err e)
      with assms(2) p Inr at1 have "f' = f1" by (simp add: run_cycle_def)
      with prop1 Err begin1 show ?thesis by (auto intro: rtranclp_trans)
    next
      case (Ok proposed)
      have len: "length proposed = ?n" using propose_branches_nth(1) [OF Ok] .
      from assms(2) p Inr at1 Ok obtain v where v: "verify_branches rid pp rs proposed = Some v"
        by (auto simp: run_cycle_def split: bind_splits)
      note ver = verify_steps [OF rs, of proposed "[]" proposed "[]" pp v fls, simplified, OF len v]
      have reach: "sys_step\<^sup>*\<^sup>* ?s (?st proposed [])" using prop1 Ok begin1 by (auto intro: rtranclp_trans)
      show ?thesis
      proof (cases v)
        case (Err e)
        with assms(2) p Inr at1 Ok v have "f' = f1" by (simp add: run_cycle_def)
        with ver Err reach show ?thesis by (auto intro: rtranclp_trans)
      next
        case (Ok accepted)
        let ?flt = "\<lparr>fl_request = rid, fl_prepared = pp, fl_proposed = proposed, fl_accepted = accepted\<rparr>"
        have "length accepted = length proposed"
          using verify_branches_all [OF v [unfolded Ok]] by (simp add: list_all2_lengthD)
        moreover have "cycle_commit rid pp proposed accepted f1 = Some (res, f')"
          using assms(2) p Inr at1 \<open>propose_branches rid pp rs ?n 0 = Result.Ok proposed\<close> v Ok by (simp add: run_cycle_def)
        ultimately have "flight_step f1 ?flt f' None" by (intro fs_commit) (simp_all add: fl_branches_def len)
        from steps_flight [OF this, of fls] ver Ok reach show ?thesis
          by (auto intro: rtranclp_trans rtranclp.rtrancl_into_rtrancl)
      qed
    qed
  qed
qed

lemma sample_run:
  obtains out f' where "run_cycle (StrongId 1) (sample_fabric cpu_perfect) = Some (Ok out, f')"
proof -
  obtain pp f1 where pp: "cycle_prepare (StrongId 1) (sample_fabric cpu_perfect) = Some (Inr pp, f1)"
    "pp_depth pp = 4" "pp_proposer pp = cpu_perfect" "pp_verifier pp = cpu_verify" using sample_admit [of cpu_perfect] by blast
  obtain rs where rs: "lookup (sample_fabric cpu_perfect) (StrongId 1) = Some rs" using sample_lookup by blast
  have "\<exists>out f'. run_cycle (StrongId 1) (sample_fabric cpu_perfect) = Some (Ok out, f')"
    using cpu_pair.run_cycle_defined [OF sample_wf rs pp(1,3,4)] cpu_propose_succeeds [of pp] pp(2) by simp
  then show thesis using that by blast
qed

lemma run_cycle_is_run_example:
  "\<exists>out f'. run_cycle (StrongId 1) (sample_fabric cpu_perfect) = Some (Ok out, f') \<and>
     sys_step\<^sup>*\<^sup>* (sample_system cpu_perfect) \<lparr>sys_fabric = f', sys_flights = []\<rparr>"
proof -
  obtain out f' where r: "run_cycle (StrongId 1) (sample_fabric cpu_perfect) = Some (Ok out, f')" by (rule sample_run)
  with run_cycle_is_run [OF sample_wf r, of "[]"] show ?thesis by (auto simp: sample_system_def)
qed

section \<open>The authoritative log\<close>

text \<open>
  What the runtime promises its clients about the committed sequences: a log per request, open or
  closed. A log is registered once, tokens are appended to open logs only, and a closed log is final.
  The null identifier is the exception the code has: its log may be registered again at any time,
  which discards the earlier one.
\<close>

type_synonym authority = "RequestId \<Rightarrow> (TokenId list \<times> bool) option"

definition log_of :: "RequestState \<Rightarrow> TokenId list \<times> bool" where
  "log_of rs = (rs_committed rs, \<not> rs_terminal rs \<and> \<not> rs_cancelled rs)"

definition authority_of :: "System \<Rightarrow> authority" where
  "authority_of s r = map_option log_of (lookup (sys_fabric s) r)"

inductive authority_step :: "authority \<Rightarrow> authority \<Rightarrow> bool" where
  auth_stutter: "authority_step A A"
| auth_register: "A r = None \<Longrightarrow> authority_step A (A(r \<mapsto> (xs, True)))"
| auth_register_null: "authority_step A (A(null_id \<mapsto> (xs, True)))"
| auth_append: "A r = Some (xs, True) \<Longrightarrow> authority_step A (A(r \<mapsto> (xs @ ys, True)))"
| auth_close: "A r = Some (xs, True) \<Longrightarrow> authority_step A (A(r \<mapsto> (xs, False)))"

text \<open>How one step may change the log of the one request it is about.\<close>

definition log_change :: "RequestId \<Rightarrow> RequestState option \<Rightarrow> RequestState option \<Rightarrow> bool" where
  "log_change r before after \<longleftrightarrow>
     (let b = map_option log_of before; a = map_option log_of after
      in a = b \<or> ((b = None \<or> r = null_id) \<and> (\<exists>xs. a = Some (xs, True))) \<or>
         (\<exists>xs. b = Some (xs, True) \<and> (a = Some (xs, False) \<or> (\<exists>ys. a = Some (xs @ ys, True)))))"

lemma authority_stutterI:
  assumes "\<And>r. map_option log_of (lookup f' r) = map_option log_of (lookup f r)"
    and "sys_fabric s = f" and "sys_fabric t = f'"
  shows "authority_step (authority_of s) (authority_of t)"
proof -
  have "authority_of t = authority_of s" using assms by (simp add: authority_of_def fun_eq_iff)
  then show ?thesis by (simp add: auth_stutter)
qed

lemma authority_stepI:
  assumes "\<And>r'. r' \<noteq> r \<Longrightarrow> map_option log_of (lookup f' r') = map_option log_of (lookup f r')"
    and "log_change r (lookup f r) (lookup f' r)"
    and "sys_fabric s = f" and "sys_fabric t = f'"
  shows "authority_step (authority_of s) (authority_of t)"
proof -
  let ?A = "authority_of s"
  have at_r: "?A r = map_option log_of (lookup f r)" using assms(3) by (simp add: authority_of_def)
  have upd: "authority_of t = ?A(r := map_option log_of (lookup f' r))"
    using assms(1,3,4) by (auto simp: authority_of_def fun_eq_iff)
  from assms(2) consider "authority_of t = ?A"
    | xs where "?A r = None" "authority_of t = ?A(r \<mapsto> (xs, True))"
    | xs where "r = null_id" "authority_of t = ?A(r \<mapsto> (xs, True))"
    | xs where "?A r = Some (xs, True)" "authority_of t = ?A(r \<mapsto> (xs, False))"
    | xs ys where "?A r = Some (xs, True)" "authority_of t = ?A(r \<mapsto> (xs @ ys, True))"
    unfolding log_change_def Let_def at_r [symmetric] upd by (metis fun_upd_triv)
  then show ?thesis by cases (auto intro: authority_step.intros)
qed

lemma log_of_event [simp]: "log_of (with_event e rs) = log_of rs"
  by (simp add: log_of_def)

lemma log_of_same: "rel_option same_request x y \<Longrightarrow> map_option log_of y = map_option log_of x"
  by (cases x; cases y) (auto simp: log_of_def same_requestD)

lemma operation_authority:
  assumes "operation (sys_fabric s) f'" and "fabric_wf (sys_fabric s)" and "sys_fabric t = f'"
  shows "authority_step (authority_of s) (authority_of t)"
  using assms(1)
proof cases
  case (op_submit req)
  have "rq_id (rs_req rs) = rq_id req" if "lookup (sys_fabric s) (rq_id req) = Some rs" for rs
    using wf_lookup [OF assms(2) that] by (simp add: request_wf_def)
  then show ?thesis
    by (intro authority_stepI [of "rq_id req", OF _ _ refl assms(3)])
      (auto simp: op_submit submit_def Let_def log_change_def log_of_def split: option.splits)
next
  case (op_cancel r why)
  show ?thesis
    by (intro authority_stepI [of r, OF _ _ refl assms(3)])
      (auto simp: op_cancel cancel_def Let_def log_change_def log_of_def split: option.splits)
next
  case (op_complete r)
  show ?thesis
    by (intro authority_stepI [of r, OF _ _ refl assms(3)])
      (auto simp: op_complete complete_def Let_def log_change_def log_of_def split: option.splits)
next
  case (op_retry r)
  show ?thesis
    by (intro authority_stepI [of r, OF _ _ refl assms(3)])
      (auto simp: op_retry retry_def Let_def log_change_def log_of_def split: option.splits)
next
  case (op_rollback r why)
  show ?thesis
    by (intro authority_stepI [of r, OF _ _ refl assms(3)])
      (auto simp: op_rollback rollback_def Let_def log_change_def log_of_def split: option.splits)
next
  case (op_emit r d j)
  then show ?thesis
    by (intro authority_stutterI [OF _ refl assms(3)]) (auto simp: emit_event_def option.map_comp o_def)
qed (use assms(3) in \<open>auto intro!: authority_stutterI [OF _ refl assms(3)] simp: snapshot_def roll_epoch_def Let_def case_prod_beta\<close>)

lemma prepare_authority:
  assumes "cycle_prepare rid (sys_fabric s) = Some (p, f')" and "fabric_wf (sys_fabric s)" and "sys_fabric t = f'"
  shows "authority_step (authority_of s) (authority_of t)"
  using cycle_prepare_request(1) [OF assms(1,2)] by (intro authority_stutterI [OF _ refl assms(3)]) (auto intro: log_of_same)

lemma commit_authority:
  assumes "cycle_commit rid pp proposed accepted (sys_fabric s) = Some (r, f')" and "fabric_wf (sys_fabric s)" and "sys_fabric t = f'"
  shows "authority_step (authority_of s) (authority_of t)"
proof -
  consider "lookup (sys_fabric s) rid = None"
    | rs where "lookup (sys_fabric s) rid = Some rs" "rs_terminal rs \<or> rs_cancelled rs"
    | rs where "lookup (sys_fabric s) rid = Some rs" "\<not> rs_terminal rs" "\<not> rs_cancelled rs" by (cases "lookup (sys_fabric s) rid") auto
  then show ?thesis
  proof cases
    case 1
    with assms show ?thesis by (intro authority_stutterI [OF _ refl assms(3)]) (auto simp: cycle_commit_def)
  next
    case (2 rs)
    with assms(1) cycle_commit_fenced [OF 2, of pp proposed accepted] show ?thesis
      by (intro authority_stutterI [OF _ refl assms(3)]) (auto split: option.splits)
  next
    case (3 rs)
    show ?thesis
    proof (rule cycle_commit_live [OF assms(1,2) 3])
      fix win a cand out bs e
      assume h: "lookup f' rid = Some (with_event e (settled (advanced (acc_accepted_prefix a) cand rs)
          (winning_proposal rid rs win cand (acc_accepted_prefix a)) bs))"
        "\<And>r'. r' \<noteq> rid \<Longrightarrow> lookup f' r' = lookup (sys_fabric s) r'"
      show ?thesis
        by (intro authority_stepI [of rid, OF _ _ refl assms(3)])
          (use h 3 in \<open>auto simp: log_change_def Let_def log_of_def settled_def advanced_def\<close>)
    qed
  qed
qed

lemma sys_step_authority:
  assumes "sys_step s t" and "fabric_wf (sys_fabric s)"
  shows "authority_step (authority_of s) (authority_of t)"
  using assms(1)
proof cases
  case (step_flight fls flt fls' f' r)
  from step_flight(3) show ?thesis
  proof cases
    case (fs_commit r')
    with commit_authority [OF fs_commit(4) assms(2), of t] step_flight(1) show ?thesis by simp
  qed (use step_flight(1) in \<open>auto intro!: authority_stutterI [OF _ refl refl]\<close>)
qed (use assms(2) operation_authority prepare_authority in auto)

interpretation log: simulated_system "\<lambda>s. \<exists>cfg. s = new_system cfg" sys_step "\<lambda>s. fabric_wf (sys_fabric s)"
    authority_of authority_step
  by unfold_locales (rule sys_step_authority)

text \<open>
  C7 (runtime_refines_log): the runtime, under every interleaving of operations and cycle sections,
  implements the authoritative log: a new runtime has no log, and every step registers one new log,
  appends to one open log, closes one open log, or leaves all logs as they are. The one exception is
  the log of the null identifier, which a submission registers again whatever it held: it may discard
  committed tokens and reopen a closed log.
\<close>

theorem runtime_refines_log:
  assumes "sys_step\<^sup>*\<^sup>* (new_system cfg) s" and "sys_step s t"
  shows "authority_step\<^sup>*\<^sup>* (\<lambda>r. None) (authority_of s) \<and> authority_step (authority_of s) (authority_of t)"
proof -
  have "authority_of (new_system cfg) = (\<lambda>r. None)"
    by (simp add: authority_of_def new_system_def new_fabric_def fun_eq_iff)
  moreover have "fabric_wf (sys_fabric s)" using runs.reachable_inv [OF _ assms(1)] by blast
  ultimately show ?thesis
    using log.reachable_simulated [OF _ assms(1)] log.simulated [OF assms(2)] by auto
qed

theorem runtime_refines_log_witness:
  "\<exists>t. sys_step (sample_system cpu_perfect) t \<and> authority_step (authority_of (sample_system cpu_perfect)) (authority_of t) \<and>
     authority_of (sample_system cpu_perfect) (StrongId 1) = Some ([11, 12], True) \<and>
     authority_of t (StrongId 1) = Some ([11, 12], False)"
proof -
  let ?s = "sample_system cpu_perfect"
  let ?t = "?s\<lparr>sys_fabric := snd (cancel (StrongId 1) [] (sys_fabric ?s))\<rparr>"
  have step: "sys_step ?s ?t" by (intro step_operation op_cancel)
  obtain rs where "lookup (sample_fabric cpu_perfect) (StrongId 1) = Some rs" "rs_committed rs = [11, 12]"
    "\<not> rs_terminal rs" "\<not> rs_cancelled rs" using sample_lookup by blast
  then have "authority_of ?s (StrongId 1) = Some ([11, 12], True)" "authority_of ?t (StrongId 1) = Some ([11, 12], False)"
    by (simp_all add: authority_of_def sample_system_def log_of_def cancel_def Let_def)
  with runtime_refines_log [OF sample_system_reachable step] step show ?thesis by blast
qed

section \<open>Two cycles of one request\<close>

text \<open>
  The commit section does not compare the request's generation with the one the draft was based on:
  with a single branch it appends the accepted tokens of the flight to whatever is committed by then.
\<close>

lemma commit_single:
  assumes "fabric_wf f" and "lookup f rid = Some rs" and "\<not> rs_terminal rs" and "\<not> rs_cancelled rs"
    and "pres_candidate (bres_pr br) = Some cand" and "unat (acc_accepted_prefix a) = cs_size cand"
  obtains out f' rs' where "cycle_commit rid pp [br] [a] f = Some (Ok out, f')" "lookup f' rid = Some rs'"
    "rs_committed rs' = rs_committed rs @ cs_ids cand" "\<not> rs_terminal rs'" "\<not> rs_cancelled rs'" "fabric_wf f'"
    "co_outcome out = CK_VerificationSuccessFullAccept"
    "rs_auth_gen rs' = StrongId (id_get (rs_auth_gen rs) + of_nat (cs_size cand))"
proof -
  have win: "pick_winner [br] [a] = 0" by (simp add: pick_winner_def)
  have ap: "acc_accepted_prefix a = of_nat (cs_size cand)" by (simp flip: assms(6))
  have gen: "(ucast (acc_accepted_prefix a) :: u64) = of_nat (cs_size cand)"
    by (simp flip: assms(6))
  obtain out f' where c: "cycle_commit rid pp [br] [a] f = Some (Ok out, f')"
    using cycle_commit_defined [OF assms(2), of "[a]" "[br]" pp] assms(5,6) by auto
  show thesis
  proof (rule cycle_commit_live [OF c assms(1-4)])
    fix win1 a1 cand1 out1 bs e
    assume h: "win1 = [br] ! pick_winner [br] [a]" "a1 = [a] ! pick_winner [br] [a]" "pres_candidate (bres_pr win1) = Some cand1"
      "Ok out = Ok out1" "co_outcome out1 = (if acc_accepted_prefix a1 = of_nat (cs_size cand1) then CK_VerificationSuccessFullAccept
           else if 0 < acc_accepted_prefix a1 then CK_VerificationSuccessPartialAccept else CK_VerificationRejectAll)"
      "lookup f' rid = Some (with_event e (settled (advanced (acc_accepted_prefix a1) cand1 rs)
        (winning_proposal rid rs win1 cand1 (acc_accepted_prefix a1)) bs))" "fabric_wf f'"
    with win assms(3-6) gen ap show thesis by (intro that [OF c h(6)]) (auto simp: settled_def advanced_def)
  qed
qed

text \<open>The answers a perfect CPU draft gets in the sample runtime, for any request state with the same inputs.\<close>

lemma perfect_answers:
  assumes "pp_depth pp = 4" and "pp_branch_count pp = 1" and "pp_proposer pp = cpu_perfect" and "pp_verifier pp = cpu_verify"
    and "rs_req rs = sample_request"
  obtains br a cand where "propose_branch rid pp 0 rs = Ok br" "verify_branch rid pp br rs = Some (Ok a)"
    "pres_candidate (bres_pr br) = Some cand" "cs_ids cand = target_sequence (cycle_seed rs 4) 4"
    "unat (acc_accepted_prefix a) = cs_size cand"
proof -
  obtain r where r: "cpu_perfect (proposal_input rid pp 0 rs) = Ok r" "pres_success r"
    using cpu_propose_succeeds [of pp "default_CpuProposerConfig\<lparr>ppc_aligned_tokens := 9\<rparr>" rid 0 rs] assms(1) by auto
  obtain br where br: "propose_branch rid pp 0 rs = Ok br" "bres_pr br = r"
    using r(1) assms(3) by (simp add: propose_branch_def)
  obtain cand where cand: "pres_candidate (bres_pr br) = Some cand"
    using cpu_prop.success_candidate [OF r] br(2) by blast
  obtain a where a: "verify_branch rid pp br rs = Some (Ok a)"
    using cpu_pair.verify_total cand assms(4) by (fastforce simp: verify_branch_def)
  have tok: "\<not> is_null (tok_id (mi_tokenizer (rq_draft_model (rs_req rs))))"
    by (simp add: assms(5) sample_request_def sample_model_def null_id_def)
  note b = cpu.branch [OF br(1) a assms(3,4) cand tok, unfolded assms(1)]
  have four: "take 4 (cpu_draft (cycle_seed rs 4) 4 9 0) = take 4 (target_sequence (cycle_seed rs 4) 4)"
    "4 \<le> branch_agreement (cycle_seed rs 4) 4 9 0" "branch_agreement (cycle_seed rs 4) 4 9 0 \<le> 4"
    using cpu_draft_aligned [of 4 4 9 "cycle_seed rs 4" 0] branch_agreement_bounds [where aligned = 9 and depth = 4 and seed = "cycle_seed rs 4" and b = 0] by simp_all
  have "cs_size cand = 4" "unat (acc_accepted_prefix a) = branch_agreement (cycle_seed rs 4) 4 9 0"
    "cs_ids cand = cpu_draft (cycle_seed rs 4) 4 9 0" using b by simp_all
  moreover have "length (cpu_draft (cycle_seed rs 4) 4 9 0) = 4" by simp
  ultimately have "unat (acc_accepted_prefix a) = cs_size cand" "cs_ids cand = target_sequence (cycle_seed rs 4) 4"
    using four by (simp, simp add: length_target_sequence)
  then show thesis using br(1) a cand by (intro that)
qed

text \<open>A cycle with one branch in flight beside others.\<close>

definition single_flight :: "RequestId \<Rightarrow> Prepared \<Rightarrow> BranchResult list \<Rightarrow> AcceptanceResult list \<Rightarrow> Flight" where
  "single_flight rid pp prs as = \<lparr>fl_request = rid, fl_prepared = pp, fl_proposed = prs, fl_accepted = as\<rparr>"

lemma single_answers:
  assumes "lookup f rid = Some rs" and "pp_branch_count pp = 1"
    and "propose_branch rid pp 0 rs = Ok br" and "verify_branch rid pp br rs = Some (Ok a)"
  shows "sys_step\<^sup>*\<^sup>* \<lparr>sys_fabric = f, sys_flights = fls @ single_flight rid pp [] [] # fls'\<rparr>
    \<lparr>sys_fabric = f, sys_flights = fls @ single_flight rid pp [br] [a] # fls'\<rparr>"
proof -
  let ?st = "\<lambda>prs as. \<lparr>sys_fabric = f, sys_flights = fls @ single_flight rid pp prs as # fls'\<rparr>"
  have "flight_step f (single_flight rid pp [] []) f (Some (single_flight rid pp [br] []))"
    "flight_step f (single_flight rid pp [br] []) f (Some (single_flight rid pp [br] [a]))"
    using fs_propose [of "single_flight rid pp [] []" f rs br] fs_verify [of "single_flight rid pp [br] []" f rs a] assms
    by (simp_all add: fl_branches_def single_flight_def)
  from this [THEN flight_within, of fls fls']
  have "sys_step (?st [] []) (?st [br] [])" "sys_step (?st [br] []) (?st [br] [a])" by simp_all
  then show ?thesis by (meson r_into_rtranclp rtranclp_trans)
qed

lemma single_commits:
  assumes "pp_branch_count pp = 1" and "cycle_commit rid pp [br] [a] f = Some (r, f')"
  shows "sys_step \<lparr>sys_fabric = f, sys_flights = fls @ single_flight rid pp [br] [a] # fls'\<rparr>
    \<lparr>sys_fabric = f', sys_flights = fls @ fls'\<rparr>"
proof -
  have "flight_step f (single_flight rid pp [br] [a]) f' None"
    using fs_commit [of "single_flight rid pp [br] [a]" f r f'] assms by (simp add: fl_branches_def single_flight_def)
  from flight_within [OF this, of fls fls'] show ?thesis by simp
qed

text \<open>Two single-branch flights of the sample request that begin, draft and verify one beside the other.\<close>

lemma single_pair_runs:
  assumes "cycle_prepare r (sample_fabric p) = Some (Inr p1, fa)" and "cycle_prepare r fa = Some (Inr p2, f0)"
    and "lookup f0 r = Some rs0" and "pp_branch_count p1 = 1" and "pp_branch_count p2 = 1"
    and "propose_branch r p1 0 rs0 = Ok b1" and "verify_branch r p1 b1 rs0 = Some (Ok a1)"
    and "propose_branch r p2 0 rs0 = Ok b2" and "verify_branch r p2 b2 rs0 = Some (Ok a2)"
  shows "sys_step\<^sup>*\<^sup>* (new_system (sample_config p))
    \<lparr>sys_fabric = f0, sys_flights = [single_flight r p1 [b1] [a1], single_flight r p2 [b2] [a2]]\<rparr>"
proof -
  let ?st = "\<lambda>f fls. \<lparr>sys_fabric = f, sys_flights = fls\<rparr>" and ?A = "single_flight r p1" and ?B = "single_flight r p2"
  have begun: "sys_step (?st (sample_fabric p) []) (?st fa [?A [] []])" "sys_step (?st fa [?A [] []]) (?st f0 [?A [] [], ?B [] []])"
    using step_begin [of r "?st (sample_fabric p) []" p1 fa] step_begin [of r "?st fa [?A [] []]" p2 f0] assms(1,2)
    by (simp_all add: single_flight_def)
  have run1: "sys_step\<^sup>*\<^sup>* (?st f0 [?A [] [], ?B [] []]) (?st f0 [?A [b1] [a1], ?B [] []])"
    using single_answers [OF assms(3,4,6,7), of "[]" "[?B [] []]"] by simp
  have run2: "sys_step\<^sup>*\<^sup>* (?st f0 [?A [b1] [a1], ?B [] []]) (?st f0 [?A [b1] [a1], ?B [b2] [a2]])"
    using single_answers [OF assms(3,5,8,9), of "[?A [b1] [a1]]" "[]"] by simp
  have "sys_step\<^sup>*\<^sup>* (new_system (sample_config p)) (?st (sample_fabric p) [])"
    using sample_system_reachable [of p] by (simp add: sample_system_def)
  then show ?thesis using begun run1 run2 by (meson rtranclp.rtrancl_into_rtrancl rtranclp_trans)
qed

lemma target_length_4: "length (target_sequence seed 4) = 4"
  by (rule length_target_sequence)

text \<open>
  Two overlapping cycles of the sample request: both are drafted and verified on the same request
  state, then both commit.
\<close>

lemma overlapping_commits:
  "\<exists>p1 p2 b1 b2 a1 a2 f0 f1 f2 rs0 rs1 rs2 out1 out2.
     sys_step\<^sup>*\<^sup>* (new_system (sample_config cpu_perfect))
       \<lparr>sys_fabric = f0, sys_flights = [single_flight (StrongId 1) p1 [b1] [a1], single_flight (StrongId 1) p2 [b2] [a2]]\<rparr> \<and>
     lookup f0 (StrongId 1) = Some rs0 \<and> rs_committed rs0 = [11, 12] \<and> rs_auth_gen rs0 = StrongId 0 \<and>
     propose_branch (StrongId 1) p1 0 rs0 = Ok b1 \<and> verify_branch (StrongId 1) p1 b1 rs0 = Some (Ok a1) \<and>
     propose_branch (StrongId 1) p2 0 rs0 = Ok b2 \<and> verify_branch (StrongId 1) p2 b2 rs0 = Some (Ok a2) \<and>
     cycle_commit (StrongId 1) p1 [b1] [a1] f0 = Some (Ok out1, f1) \<and>
     co_outcome out1 = CK_VerificationSuccessFullAccept \<and>
     sys_step \<lparr>sys_fabric = f0, sys_flights = [single_flight (StrongId 1) p1 [b1] [a1], single_flight (StrongId 1) p2 [b2] [a2]]\<rparr>
       \<lparr>sys_fabric = f1, sys_flights = [single_flight (StrongId 1) p2 [b2] [a2]]\<rparr> \<and>
     lookup f1 (StrongId 1) = Some rs1 \<and> rs_auth_gen rs1 = StrongId 4 \<and>
     rs_committed rs1 = [11, 12] @ target_sequence (cycle_seed rs0 4) 4 \<and>
     fst (check_authority rs1 (rs_epoch rs1) (rs_attempt rs1) (rs_auth_gen rs0) 0 st) =
       err (Authority EC_wrong_base_generation) ''message targets a different authoritative base'' \<and>
     cycle_commit (StrongId 1) p2 [b2] [a2] f1 = Some (Ok out2, f2) \<and>
     co_outcome out2 = CK_VerificationSuccessFullAccept \<and>
     sys_step \<lparr>sys_fabric = f1, sys_flights = [single_flight (StrongId 1) p2 [b2] [a2]]\<rparr>
       \<lparr>sys_fabric = f2, sys_flights = []\<rparr> \<and>
     lookup f2 (StrongId 1) = Some rs2 \<and> rs_auth_gen rs2 = StrongId 8 \<and>
     rs_committed rs2 = [11, 12] @ target_sequence (cycle_seed rs0 4) 4 @ target_sequence (cycle_seed rs0 4) 4"
proof -
  let ?r = "StrongId 1 :: RequestId"
  obtain rsa where rsa: "lookup (sample_fabric cpu_perfect) ?r = Some rsa" "rs_req rsa = sample_request"
    "\<not> rs_terminal rsa" "\<not> rs_cancelled rsa" "rs_proposals rsa = []" "rs_reservations rsa = []" "rs_committed rsa = [11, 12]"
    "rs_auth_gen rsa = StrongId 0"
    using sample_lookup [of cpu_perfect] by blast
  obtain p1 fa where p1: "cycle_prepare ?r (sample_fabric cpu_perfect) = Some (Inr p1, fa)"
    "pp_depth p1 = 4" "pp_branch_count p1 = 1" "pp_proposer p1 = cpu_perfect" "pp_verifier p1 = cpu_verify"
    by (rule sample_admit)
  note req1 = cycle_prepare_request [OF p1(1) sample_wf]
  obtain rsb where rsb: "lookup fa ?r = Some rsb" "same_request rsa rsb"
    using req1(1) [of ?r] rsa(1) by (auto elim: option.rel_cases)
  have res1: "rs_reservations rsb = []" using wf_lookup [OF req1(2) rsb(1)] by (simp add: request_wf_def)
  obtain p2 f0 where p2: "cycle_prepare ?r fa = Some (Inr p2, f0)"
    "pp_depth p2 = 4" "pp_branch_count p2 = 1" "pp_proposer p2 = cpu_perfect" "pp_verifier p2 = cpu_verify"
    using sample_admit_live [OF rsb(1), of cpu_perfect] rsa res1 req1(3,4) same_requestD [OF rsb(2)] sample_fields by auto
  note req2 = cycle_prepare_request [OF p2(1) req1(2)]
  obtain rs0 where rs0: "lookup f0 ?r = Some rs0" "same_request rsb rs0"
    using req2(1) [of ?r] rsb(1) by (auto elim: option.rel_cases)
  have live: "rs_req rs0 = sample_request" "\<not> rs_terminal rs0" "\<not> rs_cancelled rs0" "rs_committed rs0 = [11, 12]"
    "rs_auth_gen rs0 = StrongId 0"
    using rsa same_requestD [OF rsb(2)] same_requestD [OF rs0(2)] by auto
  let ?T = "target_sequence (cycle_seed rs0 4) 4"
  obtain b1 a1 c1 where x1: "propose_branch ?r p1 0 rs0 = Ok b1" "verify_branch ?r p1 b1 rs0 = Some (Ok a1)"
    "pres_candidate (bres_pr b1) = Some c1" "cs_ids c1 = ?T" "unat (acc_accepted_prefix a1) = cs_size c1"
    by (rule perfect_answers [OF p1(2-5) live(1)])
  obtain b2 a2 c2 where x2: "propose_branch ?r p2 0 rs0 = Ok b2" "verify_branch ?r p2 b2 rs0 = Some (Ok a2)"
    "pres_candidate (bres_pr b2) = Some c2" "cs_ids c2 = ?T" "unat (acc_accepted_prefix a2) = cs_size c2"
    by (rule perfect_answers [OF p2(2-5) live(1)])
  have size: "cs_size c1 = 4" "cs_size c2 = 4" using x1(4) x2(4) target_length_4 length_cs_ids by metis+
  obtain o1 f1 rs1 where c1: "cycle_commit ?r p1 [b1] [a1] f0 = Some (Ok o1, f1)" "lookup f1 ?r = Some rs1"
    "rs_committed rs1 = [11, 12] @ ?T" "\<not> rs_terminal rs1" "\<not> rs_cancelled rs1" "fabric_wf f1"
    "co_outcome o1 = CK_VerificationSuccessFullAccept" "rs_auth_gen rs1 = StrongId 4"
    using commit_single [OF req2(2) rs0(1) live(2,3) x1(3,5), of p1] unfolding x1(4) live(4,5) size by simp metis
  obtain o2 f2 rs2 where c2: "cycle_commit ?r p2 [b2] [a2] f1 = Some (Ok o2, f2)" "lookup f2 ?r = Some rs2"
    "rs_committed rs2 = [11, 12] @ ?T @ ?T" "co_outcome o2 = CK_VerificationSuccessFullAccept" "rs_auth_gen rs2 = StrongId 8"
    using commit_single [OF c1(6,2,4,5) x2(3,5), of p2] unfolding x2(4) c1(3,8) size by simp metis
  have fence: "fst (check_authority rs1 (rs_epoch rs1) (rs_attempt rs1) (rs_auth_gen rs0) 0 st) =
      err (Authority EC_wrong_base_generation) ''message targets a different authoritative base''"
    using c1(4,5,8) live(5) by (simp add: check_authority_def)
  have begun: "sys_step\<^sup>*\<^sup>* (new_system (sample_config cpu_perfect))
      \<lparr>sys_fabric = f0, sys_flights = [single_flight ?r p1 [b1] [a1], single_flight ?r p2 [b2] [a2]]\<rparr>"
    using single_pair_runs [OF p1(1) p2(1) rs0(1) p1(3) p2(3) x1(1,2) x2(1,2)] .
  have commits: "sys_step \<lparr>sys_fabric = f0, sys_flights = [single_flight ?r p1 [b1] [a1], single_flight ?r p2 [b2] [a2]]\<rparr>
      \<lparr>sys_fabric = f1, sys_flights = [single_flight ?r p2 [b2] [a2]]\<rparr>"
    "sys_step \<lparr>sys_fabric = f1, sys_flights = [single_flight ?r p2 [b2] [a2]]\<rparr> \<lparr>sys_fabric = f2, sys_flights = []\<rparr>"
    using single_commits [OF p1(3) c1(1), of "[]" "[single_flight ?r p2 [b2] [a2]]"] single_commits [OF p2(3) c2(1), of "[]" "[]"]
    by simp_all
  show ?thesis using begun rs0(1) live(4,5) x1(1,2) x2(1,2) c1(1,7) commits c1(2,8,3) fence c2(1,4,2,5,3) by blast
qed

lemma overlapping_flights:
  "\<exists>s rs toks. sys_step\<^sup>*\<^sup>* (new_system (sample_config cpu_perfect)) s \<and>
     lookup (sys_fabric s) (StrongId 1) = Some rs \<and> rs_committed rs = [11, 12] @ toks @ toks \<and> length toks = 4"
proof -
  obtain s0 s1 f2 rs0 rs2 where run: "sys_step\<^sup>*\<^sup>* (new_system (sample_config cpu_perfect)) s0"
      "sys_step s0 s1" "sys_step s1 \<lparr>sys_fabric = f2, sys_flights = []\<rparr>"
    and rs2: "lookup f2 (StrongId 1) = Some rs2"
      "rs_committed rs2 = [11, 12] @ target_sequence (cycle_seed rs0 4) 4 @ target_sequence (cycle_seed rs0 4) 4"
    using overlapping_commits [of default_Stats] by blast
  from run have run: "sys_step\<^sup>*\<^sup>* (new_system (sample_config cpu_perfect)) \<lparr>sys_fabric = f2, sys_flights = []\<rparr>"
    by (meson rtranclp.rtrancl_into_rtrancl)
  have "lookup (sys_fabric \<lparr>sys_fabric = f2, sys_flights = []\<rparr>) (StrongId 1) = Some rs2" using rs2(1) by simp
  with run rs2(2) target_length_4 show ?thesis by blast
qed

text \<open>
  C5 (stale_flight_commits): two cycles of one request that overlap both commit. In the sample runtime
  both flights are drafted and verified while the request has the committed sequence \<open>[11, 12]\<close> and
  generation 0. The first commit section appends the target model's four tokens and takes the
  request to generation 4. The second flight's base is stale then: the runtime's own authority check
  refuses a message based on generation 0. The commit section does not make that check; it reports
  full acceptance and appends the same four tokens a second time, at generation 8.
\<close>

theorem stale_flight_commits:
  "\<exists>p1 p2 b1 b2 a1 a2 f0 f1 f2 rs0 rs1 rs2 out1 out2.
     sys_step\<^sup>*\<^sup>* (new_system (sample_config cpu_perfect))
       \<lparr>sys_fabric = f0, sys_flights = [single_flight (StrongId 1) p1 [b1] [a1], single_flight (StrongId 1) p2 [b2] [a2]]\<rparr> \<and>
     lookup f0 (StrongId 1) = Some rs0 \<and> rs_committed rs0 = [11, 12] \<and> rs_auth_gen rs0 = StrongId 0 \<and>
     propose_branch (StrongId 1) p1 0 rs0 = Ok b1 \<and> verify_branch (StrongId 1) p1 b1 rs0 = Some (Ok a1) \<and>
     propose_branch (StrongId 1) p2 0 rs0 = Ok b2 \<and> verify_branch (StrongId 1) p2 b2 rs0 = Some (Ok a2) \<and>
     cycle_commit (StrongId 1) p1 [b1] [a1] f0 = Some (Ok out1, f1) \<and>
     co_outcome out1 = CK_VerificationSuccessFullAccept \<and>
     sys_step \<lparr>sys_fabric = f0, sys_flights = [single_flight (StrongId 1) p1 [b1] [a1], single_flight (StrongId 1) p2 [b2] [a2]]\<rparr>
       \<lparr>sys_fabric = f1, sys_flights = [single_flight (StrongId 1) p2 [b2] [a2]]\<rparr> \<and>
     lookup f1 (StrongId 1) = Some rs1 \<and> rs_auth_gen rs1 = StrongId 4 \<and>
     rs_committed rs1 = [11, 12] @ target_sequence (cycle_seed rs0 4) 4 \<and>
     fst (check_authority rs1 (rs_epoch rs1) (rs_attempt rs1) (rs_auth_gen rs0) 0 st) =
       err (Authority EC_wrong_base_generation) ''message targets a different authoritative base'' \<and>
     cycle_commit (StrongId 1) p2 [b2] [a2] f1 = Some (Ok out2, f2) \<and>
     co_outcome out2 = CK_VerificationSuccessFullAccept \<and>
     sys_step \<lparr>sys_fabric = f1, sys_flights = [single_flight (StrongId 1) p2 [b2] [a2]]\<rparr>
       \<lparr>sys_fabric = f2, sys_flights = []\<rparr> \<and>
     lookup f2 (StrongId 1) = Some rs2 \<and> rs_auth_gen rs2 = StrongId 8 \<and>
     rs_committed rs2 = [11, 12] @ target_sequence (cycle_seed rs0 4) 4 @ target_sequence (cycle_seed rs0 4) 4"
  by (rule overlapping_commits)

end
