(* ===== verification/SF_Progress.thy ===== *)
theory SF_Progress
  imports SF_Runs
begin

text \<open>
  Definedness and termination of cycles. With a pair of executors that follow the target model and a
  depth bound from 1 to 256, no reachable state of the interleaved system meets undefined behaviour:
  every call of \<^verbatim>\<open>run_cycle\<close> returns, and every cycle in flight can be driven to its end, in a number
  of sections bounded by its branches, whatever happened before and whatever else is in flight.
\<close>

section \<open>The invariant\<close>

definition config_for :: "proposer \<Rightarrow> verifier \<Rightarrow> Config \<Rightarrow> bool" where
  "config_for p v cfg \<longleftrightarrow> cfg_proposer cfg = Some p \<and> cfg_verifier cfg = Some v \<and>
     0 < unat (pol_max_depth (cfg_policy cfg)) \<and> unat (pol_max_depth (cfg_policy cfg)) \<le> 256"

definition runtime_ok :: "proposer \<Rightarrow> verifier \<Rightarrow> Fabric \<Rightarrow> bool" where
  "runtime_ok p v f \<longleftrightarrow> fabric_wf f \<and> config_for p v (im_cfg f) \<and>
     sch_policy (im_scheduler f) = cfg_policy (im_cfg f) \<and> history_ok (sch_adaptive (im_scheduler f))"

text \<open>What a cycle in flight has computed so far: drafts with candidates, verdicts within them.\<close>

definition drafted :: "BranchResult \<Rightarrow> bool" where
  "drafted br \<longleftrightarrow> (case pres_candidate (bres_pr br) of Some c \<Rightarrow> cs_size c \<le> 256 | None \<Rightarrow> False)"

definition accepted_within :: "BranchResult \<Rightarrow> AcceptanceResult \<Rightarrow> bool" where
  "accepted_within br a \<longleftrightarrow> (\<forall>c. pres_candidate (bres_pr br) = Some c \<longrightarrow> unat (acc_accepted_prefix a) \<le> cs_size c)"

definition flight_ok :: "proposer \<Rightarrow> verifier \<Rightarrow> Fabric \<Rightarrow> Flight \<Rightarrow> bool" where
  "flight_ok p v f flt \<longleftrightarrow> lookup f (fl_request flt) \<noteq> None \<and>
     pp_proposer (fl_prepared flt) = p \<and> pp_verifier (fl_prepared flt) = v \<and>
     0 < unat (pp_depth (fl_prepared flt)) \<and> unat (pp_depth (fl_prepared flt)) \<le> 256 \<and> 0 < fl_branches flt \<and>
     length (fl_proposed flt) \<le> fl_branches flt \<and> length (fl_accepted flt) \<le> length (fl_proposed flt) \<and>
     (fl_accepted flt \<noteq> [] \<longrightarrow> length (fl_proposed flt) = fl_branches flt) \<and>
     list_all drafted (fl_proposed flt) \<and>
     list_all2 accepted_within (take (length (fl_accepted flt)) (fl_proposed flt)) (fl_accepted flt)"

definition system_ok :: "proposer \<Rightarrow> verifier \<Rightarrow> System \<Rightarrow> bool" where
  "system_ok p v s \<longleftrightarrow> runtime_ok p v (sys_fabric s) \<and> list_all (flight_ok p v (sys_fabric s)) (sys_flights s)"

text \<open>Sections left of a cycle in flight.\<close>

definition flight_left :: "Flight \<Rightarrow> nat" where
  "flight_left flt = 2 * fl_branches flt + 1 - length (fl_proposed flt) - length (fl_accepted flt)"

section \<open>What the sections keep\<close>

definition requests_kept :: "Fabric \<Rightarrow> Fabric \<Rightarrow> bool" where
  "requests_kept f f' \<longleftrightarrow> (\<forall>r. lookup f r \<noteq> None \<longrightarrow> lookup f' r \<noteq> None)"

lemma flight_ok_kept: "requests_kept f f' \<Longrightarrow> flight_ok p v f flt \<Longrightarrow> flight_ok p v f' flt"
  by (simp add: flight_ok_def requests_kept_def)

lemma operation_frame:
  assumes "operation f f'"
  shows "im_cfg f' = im_cfg f" and "im_scheduler f' = im_scheduler f" and "requests_kept f f'"
  using assms
  by (cases rule: operation.cases; auto simp: submit_def cancel_def complete_def retry_def rollback_def emit_event_def
      snapshot_def roll_epoch_def read_clock_def requests_kept_def Let_def split: option.splits)+

lemma operation_ok: "operation f f' \<Longrightarrow> runtime_ok p v f \<Longrightarrow> runtime_ok p v f'"
  using operation_frame operation_wf by (simp add: runtime_ok_def)

lemma prepare_ok:
  assumes "cycle_prepare rid f = Some (q, f')" and "runtime_ok p v f"
  shows "runtime_ok p v f'" and "requests_kept f f'"
proof -
  have wf: "fabric_wf f" using assms(2) by (simp add: runtime_ok_def)
  note frame = cycle_prepare_request [OF assms(1) wf]
  show "runtime_ok p v f'" using assms(2) frame(2-4) by (simp add: runtime_ok_def)
  show "requests_kept f f'" using frame(1) unfolding requests_kept_def by (metis option.rel_distinct(2) option.exhaust)
qed

lemma sample_in_unit: "unat a \<le> unat n \<Longrightarrow> 0 \<le> acceptance_sample a n \<and> acceptance_sample a n \<le> 1"
proof (cases "n = 0")
  case False
  assume "unat a \<le> unat n"
  moreover have "0 < unat n" using False by (simp add: unat_gt_0)
  ultimately have "0 \<le> (of_nat (unat a) / of_nat (unat n) :: rat)" "(of_nat (unat a) / of_nat (unat n) :: rat) \<le> 1"
    by (simp_all del: of_nat_unat)
  then show ?thesis using False binary64.rnd_nonneg binary64.rnd_le_1 by (simp add: acceptance_sample_def del: of_nat_unat)
qed (simp add: acceptance_sample_def)

lemma history_record:
  assumes "history_ok a" and "0 \<le> r" and "r \<le> 1" shows "history_ok (ad_record r a)"
proof -
  have "set (push_bounded c x q) \<subseteq> insert x (set q)" for c x and q :: "double list"
    by (auto simp: push_bounded_def Let_def dest: list.set_sel(2) [rotated] split: if_splits)
  with assms length_push_bounded show ?thesis by (fastforce simp: history_ok_def ad_record_def list_all_iff)
qed

lemma commit_ok:
  assumes "cycle_commit rid pp proposed accepted f = Some (r, f')" and "runtime_ok p v f"
    and "list_all drafted proposed"
  shows "runtime_ok p v f' \<and> requests_kept f f'"
proof (cases "lookup f rid")
  case None
  with assms(1,2) show ?thesis by (auto simp: cycle_commit_def requests_kept_def)
next
  case (Some rs)
  have wf: "fabric_wf f" using assms(2) by (simp add: runtime_ok_def)
  show ?thesis
  proof (cases "rs_terminal rs \<or> rs_cancelled rs")
    case True
    with assms(1,2) cycle_commit_fenced [OF Some True, of pp proposed accepted] show ?thesis
      by (auto simp: runtime_ok_def requests_kept_def intro: wf_push_event)
  next
    case False
    then have live: "\<not> rs_terminal rs" "\<not> rs_cancelled rs" by auto
    from assms(1) wf Some live show ?thesis
    proof (rule cycle_commit_live)
      fix win a cand out bs e
      assume h: "pick_winner proposed accepted < length proposed" "win = proposed ! pick_winner proposed accepted"
        "pres_candidate (bres_pr win) = Some cand" "unat (acc_accepted_prefix a) \<le> cs_size cand"
        "lookup f' rid = Some (with_event e (settled (advanced (acc_accepted_prefix a) cand rs)
          (winning_proposal rid rs win cand (acc_accepted_prefix a)) bs))"
        "\<And>r'. r' \<noteq> rid \<Longrightarrow> lookup f' r' = lookup f r'" "fabric_wf f'" "im_cfg f' = im_cfg f"
        "im_scheduler f' = (im_scheduler f)\<lparr>sch_adaptive :=
          ad_record (acceptance_sample (acc_accepted_prefix a) (of_nat (cs_size cand))) (sch_adaptive (im_scheduler f))\<rparr>"
      have "cs_size cand < 2 ^ 32" using assms(3) h(1-3) by (auto simp: list_all_length drafted_def)
      then have "unat (of_nat (cs_size cand) :: u32) = cs_size cand" by (simp add: unat_of_nat take_bit_eq_mod)
      then have "0 \<le> acceptance_sample (acc_accepted_prefix a) (of_nat (cs_size cand))"
        "acceptance_sample (acc_accepted_prefix a) (of_nat (cs_size cand)) \<le> 1"
        using sample_in_unit h(4) by simp_all
      with assms(2) h(7-9) history_record have "runtime_ok p v f'" by (simp add: runtime_ok_def)
      moreover have "requests_kept f f'" using h(5,6) unfolding requests_kept_def by (metis option.distinct(1))
      ultimately show ?thesis ..
    qed
  qed
qed

section \<open>Progress\<close>

lemma prepare_defined: "runtime_ok p v f \<Longrightarrow> \<exists>q f'. cycle_prepare rid f = Some (q, f')"
proof -
  assume ok: "runtime_ok p v f"
  have "depth_defined (im_scheduler f)" using ok by (simp add: runtime_ok_def config_for_def depth_defined_def)
  then have plan: "\<exists>plan rat. plan_proposal (im_scheduler g) req gen 0 0 0 = Some (plan, rat)" if "im_scheduler g = im_scheduler f" for g req gen
    using plan_proposal_defined [of "im_scheduler f" req gen 0 0 0] that by auto
  have admit: "\<exists>q f'. cycle_admit rid rs g = Some (q, f')" if g: "im_scheduler g = im_scheduler f" for rs g
  proof -
    define rs1 where "rs1 = (if is_terminal_phase (ssm_phase (rs_cycle rs)) then rs\<lparr>rs_cycle := machine_at Ph_Ready\<rparr> else rs)"
    obtain pl rat where pl: "plan_proposal (im_scheduler g) (rs_req rs1) (rs_auth_gen rs1) 0 0 0 = Some (pl, rat)"
      using plan [OF g] by blast
    show ?thesis unfolding cycle_admit_def Let_def rs1_def [symmetric] by (simp add: pl split: option.split)
  qed
  show ?thesis
    unfolding cycle_prepare_def Let_def by (auto simp: case_prod_beta admit split: option.split)
qed

lemma prepared_depth_small:
  assumes "cycle_prepare rid f = Some (Inr pp, f')" and "runtime_ok p v f"
  shows "unat (pp_depth pp) \<le> 256" and "pp_proposer pp = p" and "pp_verifier pp = v" and "0 < unat (pp_branch_count pp)"
proof -
  obtain rs :: RequestState and rat where
    plan: "plan_proposal (im_scheduler f) (rs_req rs) (rs_auth_gen rs) 0 0 0 = Some (pp_plan pp, rat)"
      "pp_depth pp = plan_depth (pp_plan pp)" "pp_branch_count pp = plan_branch_count (pp_plan pp)"
    and ex: "cfg_proposer (im_cfg f) = Some (pp_proposer pp)" "cfg_verifier (im_cfg f) = Some (pp_verifier pp)"
    by (rule cycle_prepare_ready [OF assms(1)]) blast
  have ok: "history_ok (sch_adaptive (im_scheduler f))" "0 < unat (pol_max_depth (sch_policy (im_scheduler f)))"
    "unat (pol_max_depth (sch_policy (im_scheduler f))) \<le> 256" "config_for p v (im_cfg f)"
    using assms(2) by (simp_all add: runtime_ok_def config_for_def)
  show "unat (pp_depth pp) \<le> 256"
    using plan_in_range [OF ok(1,2), of "rs_req rs" "rs_auth_gen rs" 0 0 0] ok(3) plan(1,2) by auto
  show "pp_proposer pp = p" "pp_verifier pp = v" using ex ok(4) by (simp_all add: config_for_def)
  show "0 < unat (pp_branch_count pp)" using plan_proposal_fields(2) [OF plan(1)] plan(3) by (simp add: word_le_nat_alt)
qed

context target_executors
begin

lemma propose_branch_ok:
  assumes "0 < unat (pp_depth pp)" and "unat (pp_depth pp) \<le> 256" and "pp_proposer pp = propose"
  shows "\<exists>br. propose_branch rid pp b rs = Ok br \<and> drafted br"
proof -
  obtain r where r: "propose (proposal_input rid pp b rs) = Ok r" "pres_success r"
    using drafts [of "proposal_input rid pp b rs"] assms(1,2) by auto
  from success_candidate [OF r] obtain c where "pres_candidate r = Some c" "cs_size c = unat (pp_depth pp)" by auto
  with r(1) assms(2,3) show ?thesis by (simp add: propose_branch_def drafted_def)
qed

lemma verify_branch_ok:
  assumes "drafted br" and "pp_verifier pp = verify"
  shows "\<exists>a. verify_branch rid pp br rs = Some (Ok a) \<and> accepted_within br a"
proof -
  obtain c where c: "pres_candidate (bres_pr br) = Some c" using assms(1) by (auto simp: drafted_def split: option.splits)
  obtain a where a: "verify (verification_input rid pp br c rs) = Ok a" using verify_total by blast
  with accepted_le [OF a] c assms(2) show ?thesis by (simp add: verify_branch_def accepted_within_def)
qed

lemma flight_step_ok:
  assumes "flight_step f flt f' r" and "runtime_ok propose verify f" and "flight_ok propose verify f flt"
  shows "runtime_ok propose verify f'" and "requests_kept f f'"
    and "r = Some flt' \<Longrightarrow> flight_ok propose verify f' flt' \<and> fl_branches flt' = fl_branches flt \<and> flight_left flt' < flight_left flt"
proof -
  have refl: "requests_kept f f" by (simp add: requests_kept_def)
  have dr: "list_all drafted (fl_proposed flt)" using assms(3) by (simp add: flight_ok_def)
  show "runtime_ok propose verify f'" "requests_kept f f'"
    using assms(1) by (cases; use assms(2) refl commit_ok [OF _ assms(2) dr] in blast)+
  show "flight_ok propose verify f' flt' \<and> fl_branches flt' = fl_branches flt \<and> flight_left flt' < flight_left flt" if "r = Some flt'"
    using assms(1)
  proof cases
    case (fs_propose rs br)
    have "drafted br"
      using propose_branch_ok [of "fl_prepared flt" "fl_request flt" "of_nat (length (fl_proposed flt))" rs] assms(3) fs_propose(5)
      by (simp add: flight_ok_def)
    moreover have "fl_accepted flt = []" using assms(3) fs_propose(3) by (auto simp: flight_ok_def)
    ultimately show ?thesis
      using assms(3) fs_propose that by (auto simp: flight_ok_def fl_branches_def flight_left_def)
  next
    case (fs_verify rs a)
    let ?k = "length (fl_accepted flt)"
    have "drafted (fl_proposed flt ! ?k)" using dr fs_verify(4) by (simp add: list_all_length)
    then have "accepted_within (fl_proposed flt ! ?k) a"
      using verify_branch_ok [of "fl_proposed flt ! ?k" "fl_prepared flt" "fl_request flt" rs] assms(3) fs_verify(6)
      by (simp add: flight_ok_def)
    then have "list_all2 accepted_within (take (Suc ?k) (fl_proposed flt)) (fl_accepted flt @ [a])"
      using assms(3) fs_verify(4) by (simp add: flight_ok_def take_Suc_conv_app_nth list_all2_appendI)
    then show ?thesis
      using assms(3) fs_verify that by (auto simp: flight_ok_def fl_branches_def flight_left_def)
  qed (use that in auto)
qed

lemma flight_progress:
  assumes "runtime_ok propose verify f" and "flight_ok propose verify f flt"
  shows "\<exists>f' r. flight_step f flt f' r"
proof -
  obtain rs where rs: "lookup f (fl_request flt) = Some rs" using assms(2) by (auto simp: flight_ok_def)
  have ok: "0 < unat (pp_depth (fl_prepared flt))" "unat (pp_depth (fl_prepared flt)) \<le> 256" "pp_proposer (fl_prepared flt) = propose"
    "pp_verifier (fl_prepared flt) = verify" "length (fl_proposed flt) \<le> fl_branches flt" "0 < fl_branches flt"
    "length (fl_accepted flt) \<le> length (fl_proposed flt)" "list_all drafted (fl_proposed flt)"
    "list_all2 accepted_within (take (length (fl_accepted flt)) (fl_proposed flt)) (fl_accepted flt)"
    using assms(2) by (simp_all add: flight_ok_def)
  consider (propose) "length (fl_proposed flt) < fl_branches flt"
    | (verify) "length (fl_proposed flt) = fl_branches flt" "length (fl_accepted flt) < length (fl_proposed flt)"
    | (commit) "length (fl_proposed flt) = fl_branches flt" "length (fl_accepted flt) = length (fl_proposed flt)"
    using ok(5,7) by linarith
  then show ?thesis
  proof cases
    case propose
    then show ?thesis using propose_branch_ok [OF ok(1-3)] fs_propose [OF propose rs] by blast
  next
    case verify
    have "drafted (fl_proposed flt ! length (fl_accepted flt))" using ok(8) verify(2) by (simp add: list_all_length)
    from verify_branch_ok [OF this ok(4)] show ?thesis using fs_verify [OF verify rs] by blast
  next
    case commit
    have ne: "fl_accepted flt \<noteq> []" using commit ok(6) by auto
    have within: "\<exists>cand. pres_candidate (bres_pr (fl_proposed flt ! i)) = Some cand \<and>
        unat (acc_accepted_prefix (fl_accepted flt ! i)) \<le> cs_size cand" if "i < length (fl_proposed flt)" for i
      using ok(8,9) commit that
      by (auto simp: list_all_length list_all2_conv_all_nth drafted_def accepted_within_def split: option.splits)
    show ?thesis
      using cycle_commit_defined [OF rs ne commit(2) within] fs_commit [OF commit] by blast
  qed
qed

lemma step_ok:
  assumes "sys_step s t" and "system_ok propose verify s"
  shows "system_ok propose verify t"
proof -
  have run: "runtime_ok propose verify (sys_fabric s)" and fls: "list_all (flight_ok propose verify (sys_fabric s)) (sys_flights s)"
    using assms(2) by (simp_all add: system_ok_def)
  have kept: "list_all (flight_ok propose verify f') (sys_flights s)" if "requests_kept (sys_fabric s) f'" for f'
    using fls flight_ok_kept [OF that] by (simp add: list_all_iff)
  show ?thesis
    using assms(1)
  proof cases
    case (step_operation f')
    then show ?thesis using operation_ok run kept operation_frame(3) by (simp add: system_ok_def)
  next
    case (step_return rid r f')
    then show ?thesis using prepare_ok run kept by (simp add: system_ok_def)
  next
    case (step_begin rid pp f')
    note prep = prepare_ok [OF step_begin(2) run] and small = prepared_depth_small [OF step_begin(2) run]
    have "lookup f' rid \<noteq> None" using prep(2) cycle_prepare_ready [OF step_begin(2)] by (metis requests_kept_def option.distinct(1))
    then have "flight_ok propose verify f' \<lparr>fl_request = rid, fl_prepared = pp, fl_proposed = [], fl_accepted = []\<rparr>"
      using small prepared_depth_pos [OF step_begin(2)] by (simp add: flight_ok_def fl_branches_def)
    then show ?thesis using step_begin(1) prep kept by (simp add: system_ok_def)
  next
    case (step_flight fls1 flt fls2 f' r)
    have ok: "flight_ok propose verify (sys_fabric s) flt" using fls step_flight(2) by simp
    note fs = flight_step_ok [OF step_flight(3) run ok]
    show ?thesis
      using step_flight(1,2) fs kept [OF fs(2)] by (auto simp: system_ok_def split: option.split)
  qed
qed

lemma start_ok: "config_for propose verify cfg \<Longrightarrow> system_ok propose verify (new_system cfg)"
  by (simp add: system_ok_def runtime_ok_def new_system_def wf_new_fabric)
    (simp add: new_fabric_def new_scheduler_def history_ok_def default_AdaptiveDepth_def)

text \<open>A cycle in flight is driven to its end by its own sections.\<close>

lemma flight_finishes:
  assumes "system_ok propose verify s" and "sys_flights s = fls @ flt # fls'"
  shows "\<exists>n f'. n \<le> flight_left flt \<and> (sys_step ^^ n) s (s\<lparr>sys_fabric := f', sys_flights := fls @ fls'\<rparr>)"
  using assms
proof (induction "flight_left flt" arbitrary: s flt rule: less_induct)
  case less
  have run: "runtime_ok propose verify (sys_fabric s)" and ok: "flight_ok propose verify (sys_fabric s) flt"
    using less.prems by (simp_all add: system_ok_def)
  obtain f1 r where st: "flight_step (sys_fabric s) flt f1 r" using flight_progress [OF run ok] by blast
  let ?t = "s\<lparr>sys_fabric := f1, sys_flights := fls @ (case r of None \<Rightarrow> [] | Some flt' \<Rightarrow> [flt']) @ fls'\<rparr>"
  have step: "sys_step s ?t" using step_flight [OF less.prems(2) st] .
  have left: "1 \<le> flight_left flt" using ok by (auto simp: flight_ok_def flight_left_def)
  show ?case
  proof (cases r)
    case None
    then have "(sys_step ^^ 1) s (s\<lparr>sys_fabric := f1, sys_flights := fls @ fls'\<rparr>)"
      unfolding relpowp_1 using step by simp
    with left show ?thesis by blast
  next
    case (Some flt')
    have lt: "flight_left flt' < flight_left flt" using flight_step_ok(3) [OF st run ok Some] by blast
    have "sys_flights ?t = fls @ flt' # fls'" using Some by simp
    from less.hyps [OF lt step_ok [OF step less.prems(1)] this] obtain n f' where
      n: "n \<le> flight_left flt'" "(sys_step ^^ n) ?t (?t\<lparr>sys_fabric := f', sys_flights := fls @ fls'\<rparr>)" by blast
    have "(sys_step ^^ Suc n) s (s\<lparr>sys_fabric := f', sys_flights := fls @ fls'\<rparr>)"
      using relpowp_Suc_I2 [OF step n(2)] by simp
    moreover have "Suc n \<le> flight_left flt" using n(1) lt by simp
    ultimately show ?thesis by blast
  qed
qed

lemma run_cycle_returns:
  assumes "runtime_ok propose verify f"
  shows "\<exists>r f'. run_cycle rid f = Some (r, f')"
proof -
  obtain q f1 where q: "cycle_prepare rid f = Some (q, f1)" using prepare_defined [OF assms] by blast
  show ?thesis
  proof (cases q)
    case (Inl r)
    then show ?thesis using q by (simp add: run_cycle_def)
  next
    case (Inr pp)
    note pp = q [unfolded Inr]
    note small = prepared_depth_small [OF pp assms]
    obtain rs where rs: "lookup f rid = Some rs" by (rule cycle_prepare_ready [OF pp]) blast
    have wf: "fabric_wf f" using assms by (simp add: runtime_ok_def)
    have "\<exists>r. propose (proposal_input rid pp b rs) = Ok r \<and> pres_success r" for b
      using drafts [of "proposal_input rid pp b rs"] small(1) prepared_depth_pos [OF pp] by simp
    from run_cycle_defined [OF wf rs pp small(2,3) this] show ?thesis by blast
  qed
qed

end

sublocale target_executors \<subseteq> sound: invariant_system
    "\<lambda>s. \<exists>cfg. config_for propose verify cfg \<and> s = new_system cfg" sys_step "system_ok propose verify"
  by unfold_locales (auto simp: start_ok intro: step_ok)

context target_executors
begin

lemma reachable_ok: "config_for propose verify cfg \<Longrightarrow> sys_step\<^sup>*\<^sup>* (new_system cfg) s \<Longrightarrow> system_ok propose verify s"
  using sound.reachable_inv by blast

end

section \<open>Properties\<close>

text \<open>
  C9 (run_cycle_total): with the CPU executors and a depth bound from 1 to 256, \<^verbatim>\<open>run_cycle\<close> returns on
  every request in every state that any interleaving of operations and cycle sections reaches: no
  history of acceptance ratios, retries, cancellations or other cycles leads it into undefined
  behaviour.
\<close>

theorem run_cycle_total:
  assumes "config_for (cpu_propose pc) cpu_verify cfg" and "sys_step\<^sup>*\<^sup>* (new_system cfg) s"
  shows "\<exists>r f'. run_cycle rid (sys_fabric s) = Some (r, f')"
  using cpu.run_cycle_returns [of pc "sys_fabric s"] cpu.reachable_ok [OF assms] by (simp add: system_ok_def)

text \<open>
  C10 (cycles_terminate): with the same executors, whatever else is in flight and whatever happened
  before, a cycle in flight is driven to its end by at most twice its branches plus one sections of
  its own; the other cycles stay as they are.
\<close>

theorem cycles_terminate:
  assumes "config_for (cpu_propose pc) cpu_verify cfg" and "sys_step\<^sup>*\<^sup>* (new_system cfg) s"
    and "sys_flights s = fls @ flt # fls'"
  shows "\<exists>n f'. n \<le> 2 * fl_branches flt + 1 \<and> (sys_step ^^ n) s (s\<lparr>sys_fabric := f', sys_flights := fls @ fls'\<rparr>)"
proof -
  have "flight_left flt \<le> 2 * fl_branches flt + 1" by (simp add: flight_left_def)
  with cpu.flight_finishes [OF cpu.reachable_ok [OF assms(1,2)] assms(3)] show ?thesis using order_trans by blast
qed

lemma sample_config_for: "config_for p cpu_verify (sample_config p)"
  by (simp add: config_for_def sample_config_def default_ProposalPolicy_def)

theorem run_cycle_total_witness: "\<exists>r f'. run_cycle (StrongId 1) (sample_fabric cpu_perfect) = Some (r, f')"
  using run_cycle_total [OF sample_config_for sample_system_reachable] by (simp add: sample_system_def)

theorem cycles_terminate_witness:
  "\<exists>flt n s' f'. fl_branches flt = 1 \<and> n \<le> 3 \<and>
     (sys_step ^^ n) \<lparr>sys_fabric = f', sys_flights = [flt]\<rparr> s' \<and> sys_flights s' = []"
proof -
  obtain pp f1 where pp: "cycle_prepare (StrongId 1) (sample_fabric cpu_perfect) = Some (Inr pp, f1)" "pp_branch_count pp = 1"
    using sample_admit [of cpu_perfect] by blast
  let ?flt = "\<lparr>fl_request = StrongId 1, fl_prepared = pp, fl_proposed = [], fl_accepted = []\<rparr>"
  let ?s = "\<lparr>sys_fabric = f1, sys_flights = [?flt]\<rparr>"
  have "sys_step (sample_system cpu_perfect) ?s"
    using step_begin [of "StrongId 1" "sample_system cpu_perfect" pp f1] pp(1) by (simp add: sample_system_def)
  with sample_system_reachable have r: "sys_step\<^sup>*\<^sup>* (new_system (sample_config cpu_perfect)) ?s" by (rule rtranclp.rtrancl_into_rtrancl)
  have b: "fl_branches ?flt = 1" using pp(2) by (simp add: fl_branches_def)
  from cycles_terminate [OF sample_config_for r, of "[]" ?flt "[]"] b obtain n f' where
    "n \<le> 3" "(sys_step ^^ n) ?s (?s\<lparr>sys_fabric := f', sys_flights := []\<rparr>)" by auto
  with b show ?thesis by fastforce
qed

end
