(* ===== verification/SF_Vocabulary.thy ===== *)
theory SF_Vocabulary
  imports SF_Progress
begin

text \<open>
  Type soundness of the token data. A token is a 32-bit word; the ones a request may commit are the
  4096 of the synthetic vocabulary. The locale \<open>vocabulary_proposer\<close> states what the runtime relies on,
  that a proposer drafts tokens of the vocabulary, and shows that then, for every verifier and every
  interleaving, so is every token that is in flight, recorded in a proposal or committed after the
  submitted prefix.
\<close>

section \<open>Well-typed tokens\<close>

definition vocab_token :: "TokenId \<Rightarrow> bool" where
  "vocab_token t \<longleftrightarrow> t < kSyntheticVocab"

definition vocab_candidate :: "CandidateSequence \<Rightarrow> bool" where
  "vocab_candidate c \<longleftrightarrow> list_all vocab_token (cs_ids c)"

definition vocab_draft :: "BranchResult \<Rightarrow> bool" where
  "vocab_draft br \<longleftrightarrow> pred_option vocab_candidate (pres_candidate (bres_pr br))"

text \<open>A recorded proposal is typed by the vocabulary size its own token identity declares.\<close>

definition typed_proposal :: "Proposal \<Rightarrow> bool" where
  "typed_proposal p \<longleftrightarrow> list_all (\<lambda>t. t < cti_vocab_size (prop_token_identity p)) (cs_ids (prop_candidate p))"

definition typed_request :: "RequestState \<Rightarrow> bool" where
  "typed_request rs \<longleftrightarrow> list_all vocab_token (drop (length (rq_prefix (rs_req rs))) (rs_committed rs)) \<and>
     list_all typed_proposal (rs_proposals rs)"

definition typed_fabric :: "Fabric \<Rightarrow> bool" where
  "typed_fabric f \<longleftrightarrow> fabric_wf f \<and> (\<forall>r rs. lookup f r = Some rs \<longrightarrow> typed_request rs)"

definition typed_system :: "proposer \<Rightarrow> System \<Rightarrow> bool" where
  "typed_system p s \<longleftrightarrow> typed_fabric (sys_fabric s) \<and> cfg_proposer (im_cfg (sys_fabric s)) = Some p \<and>
     list_all (\<lambda>flt. pp_proposer (fl_prepared flt) = p \<and> list_all vocab_draft (fl_proposed flt)) (sys_flights s)"

section \<open>What the sections keep\<close>

lemma typed_same: "same_request rs rs' \<Longrightarrow> typed_request rs \<Longrightarrow> typed_request rs'"
  by (simp add: typed_request_def same_requestD)

lemma typed_operation:
  assumes "operation f f'" and "typed_fabric f"
  shows "typed_fabric f'"
proof -
  have wf: "fabric_wf f'" using assms operation_wf by (simp add: typed_fabric_def)
  have all: "\<And>r rs. lookup f r = Some rs \<Longrightarrow> typed_request rs" using assms(2) by (simp add: typed_fabric_def)
  have "typed_request rs'" if "lookup f' r = Some rs'" for r rs'
    using assms(1) that
    by (cases; fastforce dest: all simp: submit_def cancel_def complete_def retry_def rollback_def emit_event_def
        snapshot_def roll_epoch_def read_clock_def typed_request_def default_RequestState_def Let_def
        split: option.splits if_splits)
  with wf show ?thesis by (simp add: typed_fabric_def)
qed

lemma typed_prepare:
  assumes "cycle_prepare rid f = Some (q, f')" and "typed_fabric f"
  shows "typed_fabric f'"
proof -
  have wf: "fabric_wf f" and all: "\<And>r rs. lookup f r = Some rs \<Longrightarrow> typed_request rs"
    using assms(2) by (simp_all add: typed_fabric_def)
  note frame = cycle_prepare_request [OF assms(1) wf]
  have "typed_request rs'" if "lookup f' r = Some rs'" for r rs'
    using frame(1) [of r] that all [of r] typed_same by (auto elim: option.rel_cases)
  with frame(2) show ?thesis by (simp add: typed_fabric_def)
qed

text \<open>The winner's accepted tokens extend the committed ones.\<close>

lemma typed_advance:
  assumes "typed_request rs" and "request_wf r rs" and "vocab_candidate cand"
  shows "typed_request (with_event e (settled (advanced n cand rs) (winning_proposal rid rs win cand m) bs))"
proof -
  have "length (rq_prefix (rs_req rs)) \<le> length (rs_committed rs)"
    using assms(2) by (auto simp: request_wf_def dest: prefix_length_le)
  then show ?thesis
    using assms(1,3) set_take_subset [of "unat n" "cs_ids cand"]
    by (auto simp: typed_request_def settled_def advanced_def winning_proposal_def typed_proposal_def vocab_candidate_def
        vocab_token_def list_all_iff)
qed

lemma typed_commit:
  assumes "cycle_commit rid pp proposed accepted f = Some (r, f')" and "typed_fabric f" and "list_all vocab_draft proposed"
  shows "typed_fabric f' \<and> im_cfg f' = im_cfg f"
proof (cases "lookup f rid")
  case None
  with assms(1,2) show ?thesis by (auto simp: cycle_commit_def)
next
  case (Some rs)
  have wf: "fabric_wf f" and all: "\<And>r rs. lookup f r = Some rs \<Longrightarrow> typed_request rs"
    using assms(2) by (simp_all add: typed_fabric_def)
  show ?thesis
  proof (cases "rs_terminal rs \<or> rs_cancelled rs")
    case True
    with assms(1) wf all cycle_commit_fenced [OF Some True, of pp proposed accepted] show ?thesis
      by (auto simp: typed_fabric_def typed_request_def intro: wf_push_event split: if_splits)
  next
    case False
    then have live: "\<not> rs_terminal rs" "\<not> rs_cancelled rs" by auto
    show ?thesis
    proof (rule cycle_commit_live [OF assms(1) wf Some live])
      fix win a cand out bs e
      assume h: "pick_winner proposed accepted < length proposed" "win = proposed ! pick_winner proposed accepted"
        "pres_candidate (bres_pr win) = Some cand"
        "lookup f' rid = Some (with_event e (settled (advanced (acc_accepted_prefix a) cand rs)
          (winning_proposal rid rs win cand (acc_accepted_prefix a)) bs))"
        "\<And>r'. r' \<noteq> rid \<Longrightarrow> lookup f' r' = lookup f r'" "fabric_wf f'" "im_cfg f' = im_cfg f"
      have "vocab_candidate cand" using assms(3) h(1-3) by (auto simp: list_all_length vocab_draft_def)
      from typed_advance [OF all [OF Some] wf_lookup [OF wf Some] this] h(4-7) all show ?thesis
        unfolding typed_fabric_def by (metis option.inject)
    qed
  qed
qed

section \<open>The interface and the invariant\<close>

locale vocabulary_proposer =
  fixes propose :: proposer
  assumes drafts_tokens: "propose inp = Ok r \<Longrightarrow> pres_candidate r = Some c \<Longrightarrow> vocab_candidate c"
begin

lemma branch_drafts: "propose_branch rid pp b rs = Ok br \<Longrightarrow> pp_proposer pp = propose \<Longrightarrow> vocab_draft br"
  using drafts_tokens [of "proposal_input rid pp b rs"]
  by (auto simp: propose_branch_def vocab_draft_def option.pred_set elim!: option.set_cases split: Result.splits)

lemma flight_typed:
  assumes "flight_step f flt f' r" and "typed_fabric f" and "pp_proposer (fl_prepared flt) = propose"
    and "list_all vocab_draft (fl_proposed flt)"
  shows "typed_fabric f' \<and> im_cfg f' = im_cfg f"
    and "r = Some flt' \<Longrightarrow> pp_proposer (fl_prepared flt') = propose \<and> list_all vocab_draft (fl_proposed flt')"
  using assms(1) by (cases; use assms(2-4) branch_drafts typed_commit in force)+

lemma start_typed: "cfg_proposer cfg = Some propose \<Longrightarrow> typed_system propose (new_system cfg)"
  by (simp add: typed_system_def typed_fabric_def new_system_def wf_new_fabric) (simp add: new_fabric_def)

lemma step_typed:
  assumes "sys_step s t" and "typed_system propose s"
  shows "typed_system propose t"
  using assms(1)
proof cases
  case (step_operation f')
  with assms(2) show ?thesis using typed_operation operation_frame(1) by (simp add: typed_system_def)
next
  case (step_return rid r f')
  with assms(2) show ?thesis
    using typed_prepare [OF step_return(2)] cycle_prepare_request(3) [OF step_return(2)] by (simp add: typed_system_def typed_fabric_def)
next
  case (step_begin rid pp f')
  have "pp_proposer pp = propose"
    by (rule cycle_prepare_ready [OF step_begin(2)]) (use assms(2) in \<open>simp add: typed_system_def\<close>)
  with step_begin(1) assms(2) show ?thesis
    using typed_prepare [OF step_begin(2)] cycle_prepare_request(3) [OF step_begin(2)] by (simp add: typed_system_def typed_fabric_def)
next
  case (step_flight fls1 flt fls2 f' r)
  have flt: "pp_proposer (fl_prepared flt) = propose" "list_all vocab_draft (fl_proposed flt)" "typed_fabric (sys_fabric s)"
    using assms(2) step_flight(2) by (simp_all add: typed_system_def)
  from flight_typed [OF step_flight(3) flt(3,1,2)] assms(2) step_flight(1,2) show ?thesis
    by (auto simp: typed_system_def split: option.split)
qed

end

sublocale vocabulary_proposer \<subseteq> typed: invariant_system
    "\<lambda>s. \<exists>cfg. cfg_proposer cfg = Some propose \<and> s = new_system cfg" sys_step "typed_system propose"
  by unfold_locales (auto intro: start_typed step_typed)

text \<open>
  Executors that follow the target model draft tokens of the vocabulary, so the CPU pair and, on a working
  device, the CUDA pair have the invariant.
\<close>

sublocale target_executors \<subseteq> tokens: vocabulary_proposer propose
proof
  fix inp r c assume "propose inp = Ok r" and "pres_candidate r = Some c"
  from follows [OF this] show "vocab_candidate c"
    by (simp add: vocab_candidate_def vocab_token_def cpu_draft_def list_all_iff) (use propose_loop_vocab in blast)
qed

section \<open>Property\<close>

text \<open>
  C11 (committed_tokens_typed): with the CPU proposer and whatever verifier, depth policy and
  interleaving of operations and cycles, every request of every reachable state has committed its
  submitted prefix followed by tokens of the 4096-token vocabulary only, every recorded proposal's
  tokens are below the vocabulary size its token identity declares, and so are the tokens of the
  drafts in flight.
\<close>

theorem committed_tokens_typed:
  assumes "cfg_proposer cfg = Some (cpu_propose pc)" and "sys_step\<^sup>*\<^sup>* (new_system cfg) s"
    and "lookup (sys_fabric s) r = Some rs"
  shows "(\<exists>toks. rs_committed rs = rq_prefix (rs_req rs) @ toks \<and> list_all (\<lambda>t. t < 4096) toks) \<and>
    list_all (\<lambda>p. list_all (\<lambda>t. t < cti_vocab_size (prop_token_identity p)) (cs_ids (prop_candidate p))) (rs_proposals rs) \<and>
    (\<forall>flt\<in>set (sys_flights s). \<forall>br\<in>set (fl_proposed flt). \<forall>c. pres_candidate (bres_pr br) = Some c \<longrightarrow>
       list_all (\<lambda>t. t < 4096) (cs_ids c))"
proof -
  have inv: "typed_system (cpu_propose pc) s" using cpu.tokens.typed.reachable_inv [OF _ assms(2)] assms(1) by blast
  then have wf: "request_wf r rs" and ty: "typed_request rs"
    using assms(3) wf_lookup by (auto simp: typed_system_def typed_fabric_def)
  obtain toks where "rs_committed rs = rq_prefix (rs_req rs) @ toks" using wf by (auto simp: request_wf_def prefix_def)
  with ty have "\<exists>toks. rs_committed rs = rq_prefix (rs_req rs) @ toks \<and> list_all (\<lambda>t. t < 4096) toks"
    by (auto simp: typed_request_def vocab_token_def list_all_iff)
  moreover have "list_all (\<lambda>t. t < 4096) (cs_ids c)"
    if "flt \<in> set (sys_flights s)" "br \<in> set (fl_proposed flt)" "pres_candidate (bres_pr br) = Some c" for flt br c
  proof -
    have "vocab_draft br" using inv that(1,2) by (simp add: typed_system_def list_all_iff)
    then show ?thesis using that(3) by (simp add: vocab_draft_def vocab_candidate_def vocab_token_def [abs_def])
  qed
  moreover have "list_all typed_proposal (rs_proposals rs)" using ty by (simp add: typed_request_def)
  ultimately show ?thesis unfolding typed_proposal_def [abs_def] by blast
qed

theorem committed_tokens_typed_witness:
  "\<exists>s rs toks. sys_step\<^sup>*\<^sup>* (new_system (sample_config cpu_perfect)) s \<and> lookup (sys_fabric s) (StrongId 1) = Some rs \<and>
     rs_committed rs = [11, 12] @ toks \<and> length toks = 8 \<and>
     (\<exists>toks'. rs_committed rs = rq_prefix (rs_req rs) @ toks' \<and> list_all (\<lambda>t. t < 4096) toks')"
proof -
  obtain s rs toks where s: "sys_step\<^sup>*\<^sup>* (new_system (sample_config cpu_perfect)) s" "lookup (sys_fabric s) (StrongId 1) = Some rs"
    "rs_committed rs = [11, 12] @ toks @ toks" "length toks = 4"
    using overlapping_flights by blast
  have "cfg_proposer (sample_config cpu_perfect) = Some cpu_perfect" by (simp add: sample_config_def)
  from committed_tokens_typed [OF this s(1,2)] s show ?thesis by (intro exI [of _ s] exI [of _ rs] exI [of _ "toks @ toks"]) simp
qed

end
