(* ===== verification/SF_Wire.thy ===== *)
theory SF_Wire
  imports SF_Error
begin

text \<open>
  The framed binary protocol of the distributed control plane (\<^verbatim>\<open>wire.hpp\<close>, \<^verbatim>\<open>wire.cpp\<close>): a message
  is a header of five 32-bit words (version, type, three counts), 64-bit fields, 32-bit fields and a
  body; a frame is a length prefix and a payload. A reader's position is modelled by the bytes that
  are left. Byte strings are lists of octets, and the body is a \<^verbatim>\<open>std::string\<close> whose characters are
  the octets.
\<close>

section \<open>Messages\<close>

definition kMaxFrameSize :: u32 where "kMaxFrameSize = 16 * 1024 * 1024"

definition kProtocolVersion :: u32 where "kProtocolVersion = 1"

definition kFrameLenWidth :: nat where "kFrameLenWidth = 4"

datatype Msg =
    Msg_Null | Msg_Hello | Msg_SubmitRequest | Msg_ProposalDispatch | Msg_ProposalResult
  | Msg_VerificationDispatch | Msg_VerificationResult | Msg_Commit | Msg_Reject | Msg_Cancel
  | Msg_Info | Msg_Shutdown

primrec msg_value :: "Msg \<Rightarrow> u32" where
  "msg_value Msg_Null = 0"
| "msg_value Msg_Hello = 1"
| "msg_value Msg_SubmitRequest = 2"
| "msg_value Msg_ProposalDispatch = 3"
| "msg_value Msg_ProposalResult = 4"
| "msg_value Msg_VerificationDispatch = 5"
| "msg_value Msg_VerificationResult = 6"
| "msg_value Msg_Commit = 7"
| "msg_value Msg_Reject = 8"
| "msg_value Msg_Cancel = 9"
| "msg_value Msg_Info = 10"
| "msg_value Msg_Shutdown = 11"

definition msg_values :: "Msg list" where
  "msg_values = [Msg_Null, Msg_Hello, Msg_SubmitRequest, Msg_ProposalDispatch, Msg_ProposalResult,
     Msg_VerificationDispatch, Msg_VerificationResult, Msg_Commit, Msg_Reject, Msg_Cancel, Msg_Info, Msg_Shutdown]"

text \<open>The type a 32-bit value denotes; \<open>None\<close> beyond the last enumerator.\<close>

definition msg_cast :: "u32 \<Rightarrow> Msg option" where
  "msg_cast t = find (\<lambda>m. msg_value m = t) msg_values"

record Message =
  msg_protocol_version :: u32
  msg_type :: Msg
  msg_u64_fields :: "u64 list"
  msg_u32_fields :: "u32 list"
  msg_body :: string

definition default_Message :: Message where
  "default_Message = \<lparr>msg_protocol_version = kProtocolVersion, msg_type = Msg_Null, msg_u64_fields = [],
     msg_u32_fields = [], msg_body = []\<rparr>"

definition msg_valid :: "Message \<Rightarrow> bool" where
  "msg_valid m \<longleftrightarrow> msg_protocol_version m = kProtocolVersion \<and> msg_type m \<noteq> Msg_Null"

section \<open>Encoding and decoding\<close>

definition put_u32 :: "u32 \<Rightarrow> bytes" where
  "put_u32 v = le_split 4 v"

definition put_u64 :: "u64 \<Rightarrow> bytes" where
  "put_u64 v = le_split 8 v"

definition char_byte :: "char \<Rightarrow> u8" where
  "char_byte c = of_char c"

definition byte_char :: "u8 \<Rightarrow> char" where
  "byte_char b = char_of (unat b)"

definition encode :: "Message \<Rightarrow> bytes Result" where
  "encode m =
     (if \<not> msg_valid m then err (Protocol EC_invalid_message) ''cannot encode invalid message''
      else if 64 < length (msg_u64_fields m) \<or> 64 < length (msg_u32_fields m) \<or> 1024 * 1024 < length (msg_body m) then
        err (Protocol EC_oversized_frame) ''message fields exceed protocol limits''
      else Ok (put_u32 (msg_protocol_version m) @ put_u32 (msg_value (msg_type m)) @
               put_u32 (of_nat (length (msg_u64_fields m))) @ put_u32 (of_nat (length (msg_u32_fields m))) @
               put_u32 (of_nat (length (msg_body m))) @
               concat (map put_u64 (msg_u64_fields m)) @ concat (map put_u32 (msg_u32_fields m)) @
               map char_byte (msg_body m)))"

text \<open>The part of \<^verbatim>\<open>decode\<close> after the field counts.\<close>

definition decode_fields :: "Msg \<Rightarrow> u32 \<Rightarrow> u32 \<Rightarrow> u32 \<Rightarrow> bytes \<Rightarrow> Message Result" where
  "decode_fields ty n64 n32 blen r =
     (if 64 < n64 \<or> 64 < n32 \<or> 1024 * 1024 < blen then
        err (Protocol EC_oversized_frame) ''field counts exceed limits''
      else case get_many (take_field 8) (unat n64) r of
        None \<Rightarrow> err (Protocol EC_truncated_frame) ''truncated u64 field''
      | Some (u64s, r1) \<Rightarrow>
      (case get_many (take_field 4) (unat n32) r1 of
        None \<Rightarrow> err (Protocol EC_truncated_frame) ''truncated u32 field''
      | Some (u32s, r2) \<Rightarrow>
          if length r2 < unat blen then err (Protocol EC_truncated_frame) ''truncated body''
          else if unat blen \<noteq> length r2 then err (General EC_malformed) ''trailing bytes in payload''
          else Ok \<lparr>msg_protocol_version = kProtocolVersion, msg_type = ty, msg_u64_fields = u64s,
                   msg_u32_fields = u32s, msg_body = map byte_char (take (unat blen) r2)\<rparr>))"

definition decode :: "bytes \<Rightarrow> Message Result" where
  "decode payload =
     (if length payload < 20 then err (Protocol EC_truncated_frame) ''payload too short''
      else case take_field 4 payload of
        None \<Rightarrow> err (Protocol EC_truncated_frame) ''missing protocol version''
      | Some (version :: u32, r1) \<Rightarrow>
      if version \<noteq> kProtocolVersion then err (Protocol EC_unknown_protocol_version) ''unknown protocol version''
      else case take_field 4 r1 of
        None \<Rightarrow> err (Protocol EC_truncated_frame) ''missing message type''
      | Some (t :: u32, r2) \<Rightarrow>
      (case msg_cast t of
        None \<Rightarrow> err (Protocol EC_unknown_message_type) (''unknown message type '' @ word_string t)
      | Some ty \<Rightarrow>
      if ty = Msg_Null then err (Protocol EC_unknown_message_type) (''unknown message type '' @ word_string t)
      else case get_many (take_field 4) 3 r2 of
        Some ([n64, n32, blen], r3) \<Rightarrow> decode_fields ty n64 n32 blen r3
      | _ \<Rightarrow> err (Protocol EC_truncated_frame) ''missing field counts''))"

section \<open>Frames\<close>

definition add_frame_prefix :: "bytes \<Rightarrow> bytes Result" where
  "add_frame_prefix payload =
     (if unat kMaxFrameSize < length payload then err (Protocol EC_oversized_frame) ''payload exceeds max frame''
      else Ok (le_split 4 (of_nat (length payload) :: u32) @ payload))"

definition extract_frame :: "bytes \<Rightarrow> bytes Result" where
  "extract_frame stream =
     (if length stream < kFrameLenWidth then
        err (Protocol EC_truncated_frame) ''stream too short for frame length''
      else let len = le_join (take kFrameLenWidth stream) :: u32 in
        if len = 0 then err (Protocol EC_zero_length_message) ''zero-length frame''
        else if kMaxFrameSize < len then err (Protocol EC_oversized_frame) ''frame exceeds max size''
        else if length stream < kFrameLenWidth + unat len then
          err (Protocol EC_truncated_frame) ''stream shorter than frame''
        else Ok (take (unat len) (drop kFrameLenWidth stream)))"

section \<open>Lemmas on the codecs\<close>

lemma put_simps: "put_u32 = le_split 4" "put_u64 = le_split 8"
  by (simp_all add: put_u32_def put_u64_def fun_eq_iff)

lemma byte_char_byte [simp]: "byte_char (char_byte c) = c"
proof -
  have "(of_char c :: u8) = of_nat (of_char c)" by (simp only: of_nat_of_char)
  then have "unat (of_char c :: u8) = of_char c" by (simp add: unat_of_nat take_bit_eq_mod)
  then show ?thesis by (simp add: byte_char_def char_byte_def)
qed

lemma char_byte_char [simp]: "char_byte (byte_char b) = b"
proof -
  have "unat b < 256" using unsigned_less [of b] by simp
  then have "of_char (char_of (unat b)) = unat b" by simp
  then have "(of_nat (of_char (char_of (unat b)) :: nat) :: u8) = b" by simp
  then show ?thesis by (simp only: byte_char_def char_byte_def of_nat_of_char)
qed

lemma map_byte_char [simp]: "map byte_char (map char_byte s) = s" "map char_byte (map byte_char bs) = bs"
  by (simp_all add: o_def)

lemma msg_cast_value [simp]: "msg_cast (msg_value m) = Some m"
  by (cases m) (simp_all add: msg_cast_def msg_values_def)

lemma msg_cast_sound: "msg_cast t = Some m \<Longrightarrow> msg_value m = t"
  by (auto simp: msg_cast_def find_Some_iff)

lemma msg_value_inject [simp]: "msg_value m = msg_value m' \<longleftrightarrow> m = m'"
  by (metis msg_cast_value option.inject)

lemmas field_codecs = put_simps u32c.get_put u64c.get_put u32c.get_many_put u64c.get_many_put

lemma unat_small [simp]: "n \<le> 1048576 \<Longrightarrow> unat (of_nat n :: u32) = n"
  by (simp add: unat_of_nat take_bit_eq_mod)

lemma word_of_length: "unat w = n \<Longrightarrow> (w :: u32) = of_nat n"
  by auto

text \<open>The bytes of a message within the limits.\<close>

definition message_bytes :: "Message \<Rightarrow> bytes" where
  "message_bytes m = concat (map put_u64 (msg_u64_fields m)) @ concat (map put_u32 (msg_u32_fields m)) @ map char_byte (msg_body m)"

definition in_limits :: "Message \<Rightarrow> bool" where
  "in_limits m \<longleftrightarrow> msg_valid m \<and> length (msg_u64_fields m) \<le> 64 \<and> length (msg_u32_fields m) \<le> 64 \<and> length (msg_body m) \<le> 1048576"

definition header_words :: "Message \<Rightarrow> u32 list" where
  "header_words m = [msg_protocol_version m, msg_value (msg_type m), of_nat (length (msg_u64_fields m)),
     of_nat (length (msg_u32_fields m)), of_nat (length (msg_body m))]"

lemma encode_Ok_iff: "encode m = Ok bs \<longleftrightarrow> in_limits m \<and> bs = concat (map put_u32 (header_words m)) @ message_bytes m"
  by (auto simp: encode_def in_limits_def header_words_def message_bytes_def not_less)

lemma length_header [simp]: "length (concat (map put_u32 (header_words m))) = 20"
  by (simp add: put_simps header_words_def)

lemma length_message_bytes [simp]:
  "length (message_bytes m) = 8 * length (msg_u64_fields m) + 4 * length (msg_u32_fields m) + length (msg_body m)"
  by (simp add: message_bytes_def put_simps u64c.length_concat_put u32c.length_concat_put)

lemma counts_ok:
  assumes "in_limits m"
  shows "\<not> (64 < (of_nat (length (msg_u64_fields m)) :: u32) \<or> 64 < (of_nat (length (msg_u32_fields m)) :: u32) \<or>
    1024 * 1024 < (of_nat (length (msg_body m)) :: u32))"
  using assms by (simp add: in_limits_def word_less_nat_alt not_less)

text \<open>What the last part of the decoder does on the fields of a message followed by anything.\<close>

lemma decode_fields_bytes:
  assumes "in_limits m"
  shows "decode_fields (msg_type m) (of_nat (length (msg_u64_fields m))) (of_nat (length (msg_u32_fields m)))
      (of_nat (length (msg_body m))) (message_bytes m @ xs) =
    (if xs = [] then Ok m else err (General EC_malformed) ''trailing bytes in payload'')"
proof -
  have m: "m = \<lparr>msg_protocol_version = kProtocolVersion, msg_type = msg_type m, msg_u64_fields = msg_u64_fields m,
      msg_u32_fields = msg_u32_fields m, msg_body = msg_body m\<rparr>"
    using assms by (simp add: in_limits_def msg_valid_def)
  have len: "unat (of_nat (length (msg_u64_fields m)) :: u32) = length (msg_u64_fields m)"
    "unat (of_nat (length (msg_u32_fields m)) :: u32) = length (msg_u32_fields m)"
    "unat (of_nat (length (msg_body m)) :: u32) = length (msg_body m)"
    using assms by (simp_all add: in_limits_def)
  show ?thesis
    unfolding decode_fields_def if_not_P [OF counts_ok [OF assms]] len message_bytes_def append_assoc
    by (simp add: field_codecs m [symmetric] o_def)
qed

lemma decode_header:
  assumes "msg_protocol_version m = kProtocolVersion"
  shows "decode (concat (map put_u32 (header_words m)) @ r) =
    (if msg_type m = Msg_Null then err (Protocol EC_unknown_message_type) (''unknown message type '' @ word_string (0 :: u32))
     else decode_fields (msg_type m) (of_nat (length (msg_u64_fields m))) (of_nat (length (msg_u32_fields m)))
      (of_nat (length (msg_body m))) r)"
  using assms by (simp add: decode_def header_words_def field_codecs numeral_3_eq_3)

lemma decode_fields_sound:
  assumes "decode_fields ty n64 n32 blen r = Ok m" and "ty \<noteq> Msg_Null"
  shows "in_limits m" and "msg_type m = ty" and "r = message_bytes m"
    and "n64 = of_nat (length (msg_u64_fields m))" and "n32 = of_nat (length (msg_u32_fields m))"
    and "blen = of_nat (length (msg_body m))"
proof -
  from assms(1) obtain u64s r1 u32s r2 where
    lim: "n64 \<le> 64" "n32 \<le> 64" "blen \<le> 1048576"
    and g: "get_many (take_field 8) (unat n64) r = Some (u64s, r1)" "get_many (take_field 4) (unat n32) r1 = Some (u32s, r2)"
    and len: "unat blen = length r2"
    and m: "m = \<lparr>msg_protocol_version = kProtocolVersion, msg_type = ty, msg_u64_fields = u64s,
                 msg_u32_fields = u32s, msg_body = map byte_char r2\<rparr>"
    by (auto simp: decode_fields_def not_less split: if_splits option.splits prod.splits)
  note h = u64c.get_many_sound [OF g(1)] u32c.get_many_sound [OF g(2)]
  show "in_limits m" using lim h len assms(2) by (simp add: in_limits_def m msg_valid_def word_le_nat_alt)
  show "msg_type m = ty" by (simp add: m)
  show "r = message_bytes m" using h by (simp add: m message_bytes_def put_simps o_def)
  have "unat n64 = length u64s" "unat n32 = length u32s" using h by auto
  then show "n64 = of_nat (length (msg_u64_fields m))" "n32 = of_nat (length (msg_u32_fields m))"
      "blen = of_nat (length (msg_body m))"
    using len unfolding m Message.select_convs length_map by (auto intro: word_of_length)
qed

lemma decode_sound:
  assumes "decode bs = Ok m" shows "encode m = Ok bs"
proof -
  from assms obtain t r1 r2 ty n64 n32 blen r3 where
    v: "take_field 4 bs = Some (kProtocolVersion, r1)" and t: "take_field 4 r1 = Some (t, r2)"
    and ty: "msg_cast t = Some ty" "ty \<noteq> Msg_Null"
    and n: "get_many (take_field 4) 3 r2 = Some ([n64, n32, blen], r3)" and f: "decode_fields ty n64 n32 blen r3 = Ok m"
    by (auto simp: decode_def split: if_splits option.splits prod.splits list.splits)
  note d = decode_fields_sound [OF f ty(2)]
  have "bs = put_u32 kProtocolVersion @ put_u32 t @ concat (map put_u32 [n64, n32, blen]) @ r3"
    using v t u32c.get_many_sound [OF n] by (simp add: u32c.get_Some_iff put_simps)
  moreover have "t = msg_value (msg_type m)" "msg_protocol_version m = kProtocolVersion"
    using msg_cast_sound [OF ty(1)] d(1,2) by (simp_all add: in_limits_def msg_valid_def)
  ultimately have "bs = concat (map put_u32 (header_words m)) @ message_bytes m"
    unfolding header_words_def d(4-6) [symmetric] d(3) [symmetric] by simp
  with d(1) show ?thesis by (simp add: encode_Ok_iff)
qed

lemma decode_encode_append:
  assumes "in_limits m"
  shows "decode ((concat (map put_u32 (header_words m)) @ message_bytes m) @ xs) =
    (if xs = [] then Ok m else err (General EC_malformed) ''trailing bytes in payload'')"
  using assms decode_header [of m "message_bytes m @ xs"] decode_fields_bytes [OF assms, of xs]
  by (simp add: in_limits_def msg_valid_def)

lemma decode_encode: "encode m = Ok bs \<Longrightarrow> decode bs = Ok m"
  using decode_encode_append [of m "[]"] by (simp add: encode_Ok_iff)

lemma decode_fields_short:
  assumes "n64 \<le> 64" and "n32 \<le> 64" and "blen \<le> 1048576" and "length r < 8 * unat n64 + 4 * unat n32 + unat blen"
  shows "\<exists>d. decode_fields ty n64 n32 blen r = err (Protocol EC_truncated_frame) d"
proof -
  have "\<not> (64 < n64 \<or> 64 < n32 \<or> 1024 * 1024 < blen)" using assms(1-3) by (simp add: not_less)
  then show ?thesis
    using assms(4) unfolding decode_fields_def
    by (auto split: option.splits dest!: u64c.get_many_sound u32c.get_many_sound
        simp: u64c.length_concat_put u32c.length_concat_put)
qed

lemma decode_truncated:
  assumes "in_limits m" and "n < length (concat (map put_u32 (header_words m)) @ message_bytes m)"
  shows "\<exists>d. decode (take n (concat (map put_u32 (header_words m)) @ message_bytes m)) = err (Protocol EC_truncated_frame) d"
proof (cases "n < 20")
  case True
  then show ?thesis by (simp add: decode_def)
next
  case False
  have ver: "msg_protocol_version m = kProtocolVersion" "msg_type m \<noteq> Msg_Null" using assms(1) by (simp_all add: in_limits_def msg_valid_def)
  have short: "length (take (n - 20) (message_bytes m)) <
      8 * length (msg_u64_fields m) + 4 * length (msg_u32_fields m) + length (msg_body m)"
    using assms(2) False unfolding length_append length_header length_message_bytes length_take by simp
  have "\<exists>d. decode_fields (msg_type m) (of_nat (length (msg_u64_fields m))) (of_nat (length (msg_u32_fields m)))
      (of_nat (length (msg_body m))) (take (n - 20) (message_bytes m)) = err (Protocol EC_truncated_frame) d"
    using assms(1) short by (intro decode_fields_short) (simp_all add: in_limits_def word_le_nat_alt)
  moreover have "take n (concat (map put_u32 (header_words m)) @ message_bytes m) =
      concat (map put_u32 (header_words m)) @ take (n - 20) (message_bytes m)"
    using False unfolding take_append length_header by simp
  ultimately show ?thesis using ver by (simp add: decode_header)
qed

text \<open>Every encoded message fits a frame, which is found in front of any stream and in no shorter one.\<close>

lemma framed_message:
  assumes "encode m = Ok bs"
  shows "\<exists>fr. add_frame_prefix bs = Ok fr \<and> length fr = length bs + 4 \<and> extract_frame (fr @ rest) = Ok bs \<and>
    (n < length fr \<longrightarrow> (\<exists>d. extract_frame (take n fr) = err (Protocol EC_truncated_frame) d))"
proof -
  have len: "20 \<le> length bs" "length bs \<le> 1050000"
    using assms by (auto simp: encode_Ok_iff in_limits_def)
  have small: "unat (of_nat (length bs) :: u32) = length bs" using len by (simp add: unat_of_nat take_bit_eq_mod)
  have nz: "(of_nat (length bs) :: u32) \<noteq> 0" using small len by (metis unat_0 not_numeral_le_zero)
  have max: "\<not> kMaxFrameSize < (of_nat (length bs) :: u32)" "\<not> unat kMaxFrameSize < length bs"
    using small len by (simp_all add: word_less_nat_alt kMaxFrameSize_def)
  let ?fr = "le_split 4 (of_nat (length bs) :: u32) @ bs"
  have join: "le_join (take 4 (?fr @ r)) = (of_nat (length bs) :: u32)" for r by (simp add: le_join_split)
  have ok: "extract_frame (?fr @ rest) = Ok bs"
    using nz max(1) small join [of rest] by (simp add: extract_frame_def kFrameLenWidth_def Let_def)
  have "\<exists>d. extract_frame (take n ?fr) = err (Protocol EC_truncated_frame) d" if n: "n < length ?fr"
  proof (cases "n < 4")
    case False
    then have tk: "take n ?fr = le_split 4 (of_nat (length bs) :: u32) @ take (n - 4) bs" by simp
    with n False nz max(1) small show ?thesis
      by (simp add: extract_frame_def kFrameLenWidth_def Let_def le_join_split)
  qed (simp add: extract_frame_def kFrameLenWidth_def)
  with ok max(2) show ?thesis by (simp add: add_frame_prefix_def)
qed

section \<open>Properties\<close>

text \<open>
  C24 (decode_iff_encode): decoding succeeds on exactly the encodings. What a message encodes to
  decodes to that message, and a payload that decodes to a message is that message's encoding, so no
  two payloads mean the same message; encoding in turn succeeds exactly on valid messages within the
  field and body limits.
\<close>

theorem decode_iff_encode:
  "(decode bs = Ok m \<longleftrightarrow> encode m = Ok bs) \<and>
   (has_value (encode m) \<longleftrightarrow> msg_valid m \<and> length (msg_u64_fields m) \<le> 64 \<and> length (msg_u32_fields m) \<le> 64 \<and>
      length (msg_body m) \<le> 1048576)"
proof -
  have "has_value (encode m) \<longleftrightarrow> in_limits m" by (simp add: encode_def in_limits_def not_less)
  then show ?thesis using decode_sound decode_encode unfolding in_limits_def by blast
qed

text \<open>
  C25 (damaged_payload_rejected): every proper prefix of an encoded message is rejected as truncated,
  and an encoded message followed by any further bytes is rejected as malformed.
\<close>

theorem damaged_payload_rejected:
  assumes "encode m = Ok bs"
  shows "(n < length bs \<longrightarrow> (\<exists>d. decode (take n bs) = err (Protocol EC_truncated_frame) d)) \<and>
    (xs \<noteq> [] \<longrightarrow> decode (bs @ xs) = err (General EC_malformed) ''trailing bytes in payload'')"
  using assms decode_truncated [of m n] decode_encode_append [of m xs] by (auto simp: encode_Ok_iff)

theorem damaged_payload_rejected_witness:
  "\<exists>bs d. encode (default_Message\<lparr>msg_type := Msg_Info, msg_body := ''status''\<rparr>) = Ok bs \<and> length bs = 26 \<and>
     decode (take 25 bs) = err (Protocol EC_truncated_frame) d \<and>
     decode (bs @ [0]) = err (General EC_malformed) ''trailing bytes in payload''"
proof -
  let ?m = "default_Message\<lparr>msg_type := Msg_Info, msg_body := ''status''\<rparr>"
  have "in_limits ?m" by (simp add: in_limits_def msg_valid_def default_Message_def)
  then obtain bs where bs: "encode ?m = Ok bs" using encode_Ok_iff by blast
  then have "length bs = 26" by (simp add: encode_Ok_iff default_Message_def)
  with bs damaged_payload_rejected [OF bs, of 25 "[0]"] show ?thesis by auto
qed

end
