(* ===== verification/SF_Persistence.thy ===== *)
theory SF_Persistence
  imports SF_Model SF_Wire
begin

text \<open>
  Archives of authoritative state (\<^verbatim>\<open>persistence.hpp\<close>, \<^verbatim>\<open>persistence.cpp\<close>): the checksum, the binary
  format and the file store. The reader works on the whole blob, checksum included, as the source
  does. The file system is explicit: a path may be closed to writing, a write may stop after some
  bytes and a read may deliver only some.
\<close>

section \<open>Archives\<close>

record PersistedRequest =
  pq_id :: RequestId
  pq_sequence :: SequenceId
  pq_attempt :: AttemptId
  pq_epoch :: CoordinatorEpoch
  pq_auth_gen :: AuthGeneration
  pq_auth_state :: StateRef
  pq_committed :: "u32 list"

record StateArchive =
  ar_format_version :: u32
  ar_epoch :: CoordinatorEpoch
  ar_requests :: "PersistedRequest list"

definition kMaxRequests :: u32 where "kMaxRequests = 1000000"

definition kMaxTokensPerRequest :: u32 where "kMaxTokensPerRequest = 1000000"

section \<open>Checksum\<close>

definition crc_bit :: "u32 \<Rightarrow> u32" where
  "crc_bit crc = (let mask = - (crc AND 1) in drop_bit 1 crc XOR (0xEDB88320 AND mask))"

definition crc_byte :: "u32 \<Rightarrow> u8 \<Rightarrow> u32" where
  "crc_byte crc b = (crc_bit ^^ 8) (crc XOR ucast b)"

definition crc32 :: "bytes \<Rightarrow> u32" where
  "crc32 data = NOT (foldl crc_byte 0xFFFFFFFF data)"

section \<open>Serialisation\<close>

definition archive_magic :: bytes where
  "archive_magic = map char_byte ''SFAR''"

definition put_request :: "PersistedRequest \<Rightarrow> bytes" where
  "put_request r =
     put_u64 (id_get (pq_id r)) @ put_u64 (id_get (pq_sequence r)) @ put_u64 (id_get (pq_attempt r)) @
     put_u64 (id_get (pq_epoch r)) @ put_u64 (id_get (pq_auth_gen r)) @ put_u64 (id_get (sr_id (pq_auth_state r))) @
     put_u64 (id_get (sr_generation (pq_auth_state r))) @ put_u32 (of_nat (length (pq_committed r))) @
     concat (map put_u32 (pq_committed r))"

definition archive_payload :: "StateArchive \<Rightarrow> bytes" where
  "archive_payload a =
     archive_magic @ put_u32 (ar_format_version a) @ put_u64 (id_get (ar_epoch a)) @
     put_u32 (of_nat (length (ar_requests a))) @ concat (map put_request (ar_requests a))"

definition serialize_archive :: "StateArchive \<Rightarrow> bytes Result" where
  "serialize_archive a = Ok (archive_payload a @ put_u32 (crc32 (archive_payload a)))"

section \<open>Deserialisation\<close>

text \<open>A failed read returns the named truncation error; otherwise the reading goes on.\<close>

definition read_u32 :: "string \<Rightarrow> bytes \<Rightarrow> (u32 \<Rightarrow> bytes \<Rightarrow> 'a Result) \<Rightarrow> 'a Result" where
  "read_u32 what r k = (case take_field 4 r of None \<Rightarrow> err (Protocol EC_truncated_frame) what | Some (v, r') \<Rightarrow> k v r')"

definition read_u64 :: "string \<Rightarrow> bytes \<Rightarrow> (u64 \<Rightarrow> bytes \<Rightarrow> 'a Result) \<Rightarrow> 'a Result" where
  "read_u64 what r k = (case take_field 8 r of None \<Rightarrow> err (Protocol EC_truncated_frame) what | Some (v, r') \<Rightarrow> k v r')"

definition read_request :: "bytes \<Rightarrow> (PersistedRequest \<Rightarrow> bytes \<Rightarrow> 'a Result) \<Rightarrow> 'a Result" where
  "read_request r k =
     read_u64 ''request id'' r (\<lambda>rid r1. read_u64 ''sequence'' r1 (\<lambda>sq r2. read_u64 ''attempt'' r2 (\<lambda>att r3.
     read_u64 ''epoch'' r3 (\<lambda>ep r4. read_u64 ''auth_gen'' r4 (\<lambda>gen r5. read_u64 ''state id'' r5 (\<lambda>sid r6.
     read_u64 ''state gen'' r6 (\<lambda>sgen r7. read_u32 ''token count'' r7 (\<lambda>tcount r8.
       if kMaxTokensPerRequest < tcount then err (General EC_out_of_range) ''token count too large''
       else case get_many (take_field 4) (unat tcount) r8 of
         None \<Rightarrow> err (Protocol EC_truncated_frame) ''token''
       | Some (toks, r9) \<Rightarrow>
           k \<lparr>pq_id = StrongId rid, pq_sequence = StrongId sq, pq_attempt = StrongId att, pq_epoch = StrongId ep,
              pq_auth_gen = StrongId gen, pq_auth_state = \<lparr>sr_id = StrongId sid, sr_generation = StrongId sgen\<rparr>,
              pq_committed = toks\<rparr> r9))))))))"

fun read_requests :: "nat \<Rightarrow> bytes \<Rightarrow> PersistedRequest list Result" where
  "read_requests 0 r = Ok []"
| "read_requests (Suc n) r =
     read_request r (\<lambda>p r'. case read_requests n r' of Err e \<Rightarrow> Err e | Ok ps \<Rightarrow> Ok (p # ps))"

definition deserialize_archive :: "bytes \<Rightarrow> StateArchive Result" where
  "deserialize_archive blob =
     (if length blob < 4 + 4 + 8 + 4 + 4 then err (Protocol EC_truncated_frame) ''archive is truncated''
      else if length blob < 4 then err (General EC_corrupt) ''archive has no checksum''
      else let payload_len = length blob - 4;
               stored_crc = le_join (drop payload_len blob) :: u32;
               computed_crc = crc32 (take payload_len blob)
      in if stored_crc \<noteq> computed_crc then err (General EC_corrupt) ''archive checksum mismatch''
      else if take 4 blob \<noteq> archive_magic then err (General EC_malformed) ''bad magic''
      else read_u32 ''missing version'' (drop 4 blob) (\<lambda>version r1.
        if version \<noteq> 1 then
          err (Protocol EC_unknown_protocol_version) (''unsupported archive version '' @ word_string version)
        else read_u64 ''missing epoch'' r1 (\<lambda>ep r2. read_u32 ''missing count'' r2 (\<lambda>n r3.
          if kMaxRequests < n then err (General EC_out_of_range) ''request count too large''
          else case read_requests (unat n) r3 of
            Err e \<Rightarrow> Err e
          | Ok ps \<Rightarrow> Ok \<lparr>ar_format_version = version, ar_epoch = StrongId ep, ar_requests = ps\<rparr>))))"

section \<open>The file store\<close>

record Disk =
  disk_files :: "string \<Rightarrow> string option"
  disk_writable :: "string \<Rightarrow> bool"
  disk_room :: nat
  disk_delivers :: nat

definition FileStore_save :: "string \<Rightarrow> string \<Rightarrow> Disk \<Rightarrow> unit Result \<times> Disk" where
  "FileStore_save path blob d =
     (if \<not> disk_writable d path then (err (General EC_internal) (''could not open '' @ path @ '' for write''), d)
      else let d' = d\<lparr>disk_files := (disk_files d)(path \<mapsto> take (disk_room d) blob)\<rparr>
           in if disk_room d < length blob then (err (General EC_internal) (''short write to '' @ path), d')
              else (Ok (), d'))"

definition FileStore_load :: "string \<Rightarrow> Disk \<Rightarrow> string Result" where
  "FileStore_load path d =
     (case disk_files d path of
        None \<Rightarrow> err (General EC_not_found) (''could not open '' @ path @ '' for read'')
      | Some contents \<Rightarrow>
          if disk_delivers d < length contents then err (General EC_internal) (''short read from '' @ path)
          else Ok contents)"

section \<open>The checksum detects a changed byte\<close>

lemma xor_cancel: "(x :: u32) XOR z = y XOR z \<longleftrightarrow> x = y" "z XOR (x :: u32) = z XOR y \<longleftrightarrow> x = y"
proof -
  have "(w XOR z) XOR z = w" for w by (simp add: xor.assoc)
  then show "x XOR z = y XOR z \<longleftrightarrow> x = y" by metis
  then show "z XOR x = z XOR y \<longleftrightarrow> x = y" by (simp add: xor.commute)
qed

lemma crc_bit_cases: "crc_bit x = (if odd x then drop_bit 1 x XOR 0xEDB88320 else drop_bit 1 x)"
  by (auto simp: crc_bit_def Let_def and_one_eq mod_2_eq_odd)

lemma bit31: "bit (0xEDB88320 :: u32) 31" "\<not> bit (drop_bit 1 (x :: u32)) 31"
  using bit_imp_le_length [of x 32] by (auto simp: bit_simps)

lemma crc_bit_msb: "bit (crc_bit x) 31 \<longleftrightarrow> odd x"
  using bit31 by (simp add: crc_bit_cases bit_xor_iff)

lemma crc_bit_inject [simp]: "crc_bit x = crc_bit y \<longleftrightarrow> x = y"
proof
  assume eq: "crc_bit x = crc_bit y"
  then have odd: "odd x \<longleftrightarrow> odd y" by (metis crc_bit_msb)
  with eq have "drop_bit 1 x = drop_bit 1 y"
    by (simp add: crc_bit_cases xor_cancel split: if_splits)
  then have "bit x (Suc n) = bit y (Suc n)" for n by (metis bit_drop_bit_eq comp_apply plus_1_eq_Suc)
  moreover have "bit x 0 = bit y 0" using odd by (simp add: bit_0)
  ultimately have "bit x n = bit y n" for n by (cases n) auto
  then show "x = y" by (simp add: bit_eq_iff)
qed simp

lemma crc_byte_state: "crc_byte x b = crc_byte y b \<longleftrightarrow> x = y"
proof -
  have "(crc_bit ^^ n) x = (crc_bit ^^ n) y \<longleftrightarrow> x = y" for n x y by (induction n) auto
  then show ?thesis by (simp add: crc_byte_def xor_cancel)
qed

lemma crc_byte_octet: "crc_byte x b = crc_byte x c \<longleftrightarrow> b = c"
proof -
  have "(crc_bit ^^ n) x = (crc_bit ^^ n) y \<longleftrightarrow> x = y" for n x y by (induction n) auto
  moreover have "(ucast (ucast b :: u32) :: u8) = b" for b :: u8 by (rule bit_word_eqI) (simp add: bit_simps)
  then have "(ucast b :: u32) = ucast c \<longleftrightarrow> b = c" by metis
  ultimately show ?thesis by (simp add: crc_byte_def xor_cancel)
qed

lemma crc_run_state: "foldl crc_byte x bs = foldl crc_byte y bs \<longleftrightarrow> x = y"
  by (induction bs arbitrary: x y) (simp_all add: crc_byte_state)

lemma crc32_update: "i < length bs \<Longrightarrow> crc32 (bs[i := b]) = crc32 bs \<longleftrightarrow> b = bs ! i"
proof -
  assume i: "i < length bs"
  have "NOT x = NOT y \<longleftrightarrow> x = y" for x y :: u32 by (metis bit.double_compl)
  moreover have "foldl crc_byte 0xFFFFFFFF (bs[i := b]) =
      foldl crc_byte (crc_byte (foldl crc_byte 0xFFFFFFFF (take i bs)) b) (drop (Suc i) bs)"
    using i by (simp add: upd_conv_take_nth_drop)
  moreover have "foldl crc_byte 0xFFFFFFFF bs =
      foldl crc_byte (crc_byte (foldl crc_byte 0xFFFFFFFF (take i bs)) (bs ! i)) (drop (Suc i) bs)"
    using i by (subst (1) id_take_nth_drop [OF i]) simp
  ultimately show ?thesis by (simp add: crc32_def crc_run_state crc_byte_octet)
qed

section \<open>Reading back\<close>

definition request_small :: "PersistedRequest \<Rightarrow> bool" where
  "request_small p \<longleftrightarrow> length (pq_committed p) \<le> 1000000"

definition archive_small :: "StateArchive \<Rightarrow> bool" where
  "archive_small a \<longleftrightarrow> ar_format_version a = 1 \<and> length (ar_requests a) \<le> 1000000 \<and> list_all request_small (ar_requests a)"

lemma read_put [simp]:
  "read_u32 w (le_split 4 v @ r) k = k v r" "read_u64 w (le_split 8 v' @ r) k' = k' v' r"
  by (simp_all add: read_u32_def read_u64_def field_codecs)

lemma read_put_request:
  assumes "request_small p" shows "read_request (put_request p @ r) k = k p r"
proof -
  have n: "unat (of_nat (length (pq_committed p)) :: u32) = length (pq_committed p)"
    "\<not> kMaxTokensPerRequest < of_nat (length (pq_committed p))"
    using assms by (simp_all add: request_small_def word_less_nat_alt kMaxTokensPerRequest_def)
  show ?thesis
    by (cases p, cases "pq_auth_state p") (use n in \<open>simp add: read_request_def put_request_def field_codecs\<close>)
qed

lemma read_put_requests:
  "list_all request_small ps \<Longrightarrow> read_requests (length ps) (concat (map put_request ps) @ r) = Ok ps"
  by (induction ps arbitrary: r) (simp_all add: read_put_request)

lemma length_magic [simp]: "length archive_magic = 4"
  by (simp add: archive_magic_def)

lemma length_archive_payload: "20 \<le> length (archive_payload a)"
  by (simp add: archive_payload_def put_simps)

definition checksum_ok :: "bytes \<Rightarrow> bool" where
  "checksum_ok blob \<longleftrightarrow> 24 \<le> length blob \<and> le_join (drop (length blob - 4) blob) = crc32 (take (length blob - 4) blob)"

text \<open>A blob with a correct checksum is read from its front, whatever follows the payload.\<close>

lemma deserialize_payload:
  assumes "archive_small a" and "checksum_ok blob" and "blob = archive_payload a @ xs"
  shows "deserialize_archive blob = Ok a"
proof -
  have n: "unat (of_nat (length (ar_requests a)) :: u32) = length (ar_requests a)"
    "\<not> kMaxRequests < of_nat (length (ar_requests a))"
    using assms(1) by (simp_all add: archive_small_def word_less_nat_alt kMaxRequests_def)
  have tk: "take 4 blob = archive_magic" "drop 4 blob = put_u32 1 @ put_u64 (id_get (ar_epoch a)) @
      put_u32 (of_nat (length (ar_requests a))) @ concat (map put_request (ar_requests a)) @ xs"
    using assms(1,3) by (simp_all add: archive_payload_def archive_small_def)
  have len: "\<not> length blob < 4 + 4 + 8 + 4 + 4" "\<not> length blob < 4"
    using assms(2) by (simp_all add: checksum_ok_def)
  show ?thesis
    unfolding deserialize_archive_def if_not_P [OF len(1)] if_not_P [OF len(2)] Let_def tk
    using assms(1,2) n by (cases a) (simp add: put_simps read_put_requests archive_small_def checksum_ok_def)
qed

text \<open>What an accepted blob holds.\<close>

lemma read_fieldD:
  "read_u32 w r k = Ok x \<Longrightarrow> \<exists>v r'. r = put_u32 v @ r' \<and> k v r' = Ok x"
  "read_u64 w r k' = Ok x \<Longrightarrow> \<exists>v r'. r = put_u64 v @ r' \<and> k' v r' = Ok x"
  by (auto simp: read_u32_def read_u64_def put_simps u32c.get_Some_iff u64c.get_Some_iff split: option.splits)

lemma read_requestD:
  assumes "read_request r k = Ok x"
  shows "\<exists>p r'. r = put_request p @ r' \<and> request_small p \<and> k p r' = Ok x"
proof -
  from assms obtain a b c d e f g n r8 toks r9 where
    r: "r = put_u64 a @ put_u64 b @ put_u64 c @ put_u64 d @ put_u64 e @ put_u64 f @ put_u64 g @ put_u32 n @ r8"
    and n: "\<not> kMaxTokensPerRequest < n" and t: "get_many (take_field 4) (unat n) r8 = Some (toks, r9)"
    and k: "k \<lparr>pq_id = StrongId a, pq_sequence = StrongId b, pq_attempt = StrongId c, pq_epoch = StrongId d,
              pq_auth_gen = StrongId e, pq_auth_state = \<lparr>sr_id = StrongId f, sr_generation = StrongId g\<rparr>,
              pq_committed = toks\<rparr> r9 = Ok x"
    unfolding read_request_def by (auto dest!: read_fieldD split: if_splits option.splits)
  from u32c.get_many_sound [OF t] have toks: "r8 = concat (map put_u32 toks) @ r9" "length toks = unat n" by (simp_all add: put_simps)
  then have "n = of_nat (length toks)" by simp
  moreover have "length toks \<le> 1000000" using n toks(2) by (simp add: word_less_nat_alt kMaxTokensPerRequest_def not_less)
  ultimately show ?thesis using r toks(1) k
    by (intro exI [of _ "\<lparr>pq_id = StrongId a, pq_sequence = StrongId b, pq_attempt = StrongId c, pq_epoch = StrongId d,
          pq_auth_gen = StrongId e, pq_auth_state = \<lparr>sr_id = StrongId f, sr_generation = StrongId g\<rparr>,
          pq_committed = toks\<rparr>"] exI [of _ r9])
      (simp add: put_request_def request_small_def)
qed

lemma read_requestsD:
  "read_requests n r = Ok ps \<Longrightarrow> \<exists>r'. r = concat (map put_request ps) @ r' \<and> length ps = n \<and> list_all request_small ps"
proof (induction n arbitrary: r ps)
  case (Suc n)
  from read_requestD [OF Suc.prems [unfolded read_requests.simps]] obtain p r' where
    p: "r = put_request p @ r'" "request_small p" "(case read_requests n r' of Err e \<Rightarrow> Err e | Ok ps \<Rightarrow> Ok (p # ps)) = Ok ps"
    by blast
  then obtain ps' where "read_requests n r' = Ok ps'" "ps = p # ps'" by (auto split: Result.splits)
  with Suc.IH p show ?case by fastforce
qed simp

lemma deserialize_sound:
  assumes "deserialize_archive blob = Ok a"
  shows "archive_small a \<and> prefix (archive_payload a) blob \<and> checksum_ok blob"
proof -
  from assms obtain ep n r3 ps where
    h: "24 \<le> length blob" "le_join (drop (length blob - 4) blob) = crc32 (take (length blob - 4) blob)"
      "take 4 blob = archive_magic"
    and r: "drop 4 blob = put_u32 1 @ put_u64 ep @ put_u32 n @ r3" and n: "\<not> kMaxRequests < n"
    and ps: "read_requests (unat n) r3 = Ok ps" and a: "a = \<lparr>ar_format_version = 1, ar_epoch = StrongId ep, ar_requests = ps\<rparr>"
    unfolding deserialize_archive_def Let_def
    by (auto simp: not_less dest!: read_fieldD split: if_splits Result.splits)
  from read_requestsD [OF ps] obtain r4 where p: "r3 = concat (map put_request ps) @ r4" "length ps = unat n" "list_all request_small ps" by blast
  have "n = of_nat (length ps)" using p(2) by simp
  then have "take 4 blob @ drop 4 blob = archive_payload a @ r4"
    unfolding h(3) r p(1) a archive_payload_def by simp
  then have "prefix (archive_payload a) blob" unfolding append_take_drop_id by (simp add: prefix_def)
  moreover have "length ps \<le> 1000000" using n p(2) by (simp add: word_less_nat_alt kMaxRequests_def not_less)
  ultimately show ?thesis using h(1,2) p(3) by (simp add: archive_small_def checksum_ok_def a)
qed

section \<open>Properties of archives\<close>

text \<open>
  C28 (archive_accepted_iff): a blob is read as a given archive exactly when the archive is of version
  1 and within the limits on requests and tokens, the blob starts with its serialised payload, and
  the last four bytes are the checksum of all bytes before them. Bytes between the payload and the
  checksum are therefore ignored, and the payload may even extend into the checksum.
\<close>

theorem archive_accepted_iff:
  "deserialize_archive blob = Ok a \<longleftrightarrow>
     ar_format_version a = 1 \<and> length (ar_requests a) \<le> 1000000 \<and> list_all (\<lambda>p. length (pq_committed p) \<le> 1000000) (ar_requests a) \<and>
     prefix (archive_payload a) blob \<and> 24 \<le> length blob \<and>
     le_join (drop (length blob - 4) blob) = crc32 (take (length blob - 4) blob)"
proof -
  have "deserialize_archive blob = Ok a \<longleftrightarrow> archive_small a \<and> prefix (archive_payload a) blob \<and> checksum_ok blob"
    using deserialize_sound [of blob a] deserialize_payload [of a blob] unfolding prefix_def by blast
  then show ?thesis by (simp add: archive_small_def request_small_def [abs_def] checksum_ok_def)
qed

lemma serialized_ok: "checksum_ok (archive_payload a @ put_u32 (crc32 (archive_payload a)))"
  using length_archive_payload [of a] by (simp add: checksum_ok_def put_simps le_join_split)

lemma serialize_deserialize:
  "archive_small a \<Longrightarrow> serialize_archive a = Ok blob \<Longrightarrow> deserialize_archive blob = Ok a"
  using deserialize_payload [OF _ serialized_ok refl] by (auto simp: serialize_archive_def)

text \<open>
  An archive of version 1 within the limits survives serialisation and
  deserialisation unchanged.
\<close>

lemma archive_roundtrip:
  assumes "ar_format_version a = 1" and "length (ar_requests a) \<le> 1000000"
    and "list_all (\<lambda>p. length (pq_committed p) \<le> 1000000) (ar_requests a)"
  shows "\<exists>blob. serialize_archive a = Ok blob \<and> deserialize_archive blob = Ok a"
  using assms serialize_deserialize [of a] by (simp add: archive_small_def request_small_def [abs_def] serialize_archive_def)

definition sample_archive :: StateArchive where
  "sample_archive = \<lparr>ar_format_version = 1, ar_epoch = StrongId 3, ar_requests =
     [\<lparr>pq_id = StrongId 1, pq_sequence = StrongId 5, pq_attempt = StrongId 1, pq_epoch = StrongId 3, pq_auth_gen = StrongId 2,
       pq_auth_state = \<lparr>sr_id = StrongId 77, sr_generation = StrongId 2\<rparr>, pq_committed = [11, 12]\<rparr>]\<rparr>"

lemma archive_roundtrip_example: "\<exists>blob. serialize_archive sample_archive = Ok blob \<and> deserialize_archive blob = Ok sample_archive"
  by (rule archive_roundtrip) (simp_all add: sample_archive_def)

text \<open>
  C27 (archive_corruption_detected): changing any single byte of a serialised archive, in the payload
  or in the checksum, makes the reader report a checksum mismatch.
\<close>

theorem archive_corruption_detected:
  assumes "serialize_archive a = Ok blob" and "i < length blob" and "b \<noteq> blob ! i"
  shows "deserialize_archive (blob[i := b]) = err (General EC_corrupt) ''archive checksum mismatch''"
proof -
  let ?p = "archive_payload a" and ?c = "put_u32 (crc32 (archive_payload a))"
  have blob: "blob = ?p @ ?c" using assms(1) by (simp add: serialize_archive_def)
  have lc: "length ?c = 4" by (simp add: put_simps)
  have len: "\<not> length (blob[i := b]) < 4 + 4 + 8 + 4 + 4" "\<not> length (blob[i := b]) < 4"
    using length_archive_payload [of a] lc by (simp_all add: blob)
  have "le_join (drop (length blob - 4) (blob[i := b])) \<noteq> crc32 (take (length blob - 4) (blob[i := b]))"
  proof (cases "i < length ?p")
    case True
    then have "blob[i := b] = ?p[i := b] @ ?c" by (simp add: blob list_update_append)
    moreover have "crc32 (?p[i := b]) \<noteq> crc32 ?p" using crc32_update [OF True] assms(3) True by (simp add: blob nth_append)
    ultimately show ?thesis by (simp add: blob lc) (simp add: put_simps le_join_split)
  next
    case False
    define j where "j = i - length ?p"
    have j: "j < 4" "b \<noteq> ?c ! j" using assms(2,3) False lc by (auto simp: blob j_def nth_append)
    have upd: "blob[i := b] = ?p @ ?c[j := b]" using False by (simp add: blob list_update_append j_def)
    have "?c[j := b] \<noteq> ?c" using j lc by (metis nth_list_update_eq)
    moreover have "le_split 4 (le_join (?c[j := b]) :: u32) = ?c[j := b]" by (rule le_split_join) (simp_all add: lc)
    ultimately have "le_join (?c[j := b]) \<noteq> crc32 ?p" by (metis put_u32_def)
    with upd lc show ?thesis by (simp add: blob)
  qed
  then show ?thesis
    unfolding deserialize_archive_def if_not_P [OF len(1)] if_not_P [OF len(2)] Let_def by simp
qed

theorem archive_corruption_detected_witness:
  "\<exists>blob. serialize_archive sample_archive = Ok blob \<and>
     deserialize_archive (blob[5 := NOT (blob ! 5)]) = err (General EC_corrupt) ''archive checksum mismatch''"
proof -
  obtain blob where b: "serialize_archive sample_archive = Ok blob" by (simp add: serialize_archive_def)
  then have "5 < length blob" using length_archive_payload [of sample_archive] by (auto simp: serialize_archive_def)
  moreover have "NOT x \<noteq> x" for x :: u8
  proof
    assume "NOT x = x"
    then have "bit (NOT x) 0 = bit x 0" by simp
    then show False by (simp add: bit_simps)
  qed
  ultimately show ?thesis using archive_corruption_detected [OF b, of 5] b by blast
qed

section \<open>Stores\<close>

text \<open>What recovery relies on: a load after a successful save returns the saved blob or fails.\<close>

locale blob_store =
  fixes save :: "string \<Rightarrow> 'd \<Rightarrow> unit Result \<times> 'd" and load :: "'d \<Rightarrow> string Result"
  assumes load_saved: "save blob d = (Ok (), d') \<Longrightarrow> load d' = Ok contents \<Longrightarrow> contents = blob"
begin

lemma recovered:
  assumes "archive_small a" and "serialize_archive a = Ok blob" and "save (map byte_char blob) d = (Ok (), d')"
    and "load d' = Ok contents"
  shows "deserialize_archive (map char_byte contents) = Ok a"
  using load_saved [OF assms(3,4)] serialize_deserialize [OF assms(1,2)] map_byte_char(2) by metis

end

interpretation file_store: blob_store "FileStore_save path" "FileStore_load path"
  by unfold_locales (auto simp: FileStore_save_def FileStore_load_def Let_def split: if_splits)

text \<open>
  C29 (archive_survives_restart): when the store accepts a serialised archive of format version 1 with
  at most a million requests of at most a million tokens each, the file it leaves is
  either refused by the loader, because the medium delivers fewer bytes than the file has, or gives
  back exactly the archive; it is never read as a different one.
\<close>

theorem archive_survives_restart:
  assumes "ar_format_version a = 1" and "length (ar_requests a) \<le> 1000000"
    and "list_all (\<lambda>p. length (pq_committed p) \<le> 1000000) (ar_requests a)"
    and "serialize_archive a = Ok blob" and "FileStore_save path (map byte_char blob) d = (Ok (), d')"
  shows "if length blob \<le> disk_delivers d' then
      \<exists>contents. FileStore_load path d' = Ok contents \<and> deserialize_archive (map char_byte contents) = Ok a
    else FileStore_load path d' = err (General EC_internal) (''short read from '' @ path)"
proof -
  have small: "archive_small a" using assms(1-3) by (simp add: archive_small_def request_small_def [abs_def])
  have stored: "disk_files d' path = Some (map byte_char blob)"
    using assms(5) by (auto simp: FileStore_save_def Let_def split: if_splits)
  show ?thesis
    using file_store.recovered [OF small assms(4,5)] stored by (auto simp: FileStore_load_def not_le)
qed

definition sample_disk :: Disk where
  "sample_disk = \<lparr>disk_files = (\<lambda>p. None), disk_writable = (\<lambda>p. True), disk_room = 1000, disk_delivers = 1000\<rparr>"

theorem archive_survives_restart_witness:
  "\<exists>blob d' contents. serialize_archive sample_archive = Ok blob \<and>
     FileStore_save ''fabric.sfar'' (map byte_char blob) sample_disk = (Ok (), d') \<and>
     FileStore_load ''fabric.sfar'' d' = Ok contents \<and> deserialize_archive (map char_byte contents) = Ok sample_archive"
proof -
  obtain blob where b: "serialize_archive sample_archive = Ok blob" by (simp add: serialize_archive_def)
  then have len: "length blob \<le> 1000"
    by (auto simp: serialize_archive_def sample_archive_def archive_payload_def put_request_def put_simps)
  then obtain d' where d': "FileStore_save ''fabric.sfar'' (map byte_char blob) sample_disk = (Ok (), d')" "disk_delivers d' = 1000"
    by (simp add: FileStore_save_def sample_disk_def Let_def)
  have "length blob \<le> disk_delivers d'" using len d'(2) by simp
  with b d'(1) archive_survives_restart [OF _ _ _ b d'(1)] show ?thesis by (auto simp: sample_archive_def)
qed

text \<open>
  Saving truncates the file before it writes. When the medium takes fewer bytes than the blob has,
  the call reports an error and the archive saved before is lost.
\<close>

lemma short_save_destroys:
  assumes "disk_writable d path" and "disk_room d < length blob"
  shows "\<exists>d'. FileStore_save path blob d = (err (General EC_internal) (''short write to '' @ path), d') \<and>
    disk_files d' = (disk_files d)(path \<mapsto> take (disk_room d) blob)"
  using assms by (simp add: FileStore_save_def Let_def)

end
