(* ===== verification/SF_CText.thy ===== *)
theory SF_CText
  imports SF_Prelude
begin

text \<open>
  Text as the C and C++ libraries see it, for the command-line programs: number conversions, strings
  handed to \<^verbatim>\<open>printf\<close>, and \<^verbatim>\<open>std::string::find\<close>. A number outside \<^verbatim>\<open>int\<close> given to \<^verbatim>\<open>std::atoi\<close> is
  undefined behaviour (\<open>None\<close>).
\<close>

section \<open>Conversions\<close>

definition newline :: string where "newline = [CHR 0x0A]"

definition is_space :: "char \<Rightarrow> bool" where
  "is_space c \<longleftrightarrow> c = CHR 0x20 \<or> (9 \<le> (of_char c :: nat) \<and> (of_char c :: nat) \<le> 13)"

definition is_digit :: "char \<Rightarrow> bool" where
  "is_digit c \<longleftrightarrow> 48 \<le> (of_char c :: nat) \<and> (of_char c :: nat) \<le> 57"

text \<open>Leading white space, an optional sign and the longest run of digits: the sign and the magnitude.\<close>

definition scan_number :: "string \<Rightarrow> bool \<times> nat" where
  "scan_number s =
     (let t = dropWhile is_space s;
          (neg, u) = (case t of [] \<Rightarrow> (False, []) | c # cs \<Rightarrow>
             if c = CHR 0x2D then (True, cs) else if c = CHR 0x2B then (False, cs) else (False, t))
      in (neg, undecimal (takeWhile is_digit u)))"

definition atoi :: "string \<Rightarrow> int cpp" where
  "atoi s = (let (neg, n) = scan_number s; v = (if neg then - int n else int n)
     in if - (2 ^ 31) \<le> v \<and> v < 2 ^ 31 then Some v else None)"

definition strtoull :: "string \<Rightarrow> u64" where
  "strtoull s = (let (neg, n) = scan_number s
     in if 2 ^ 64 \<le> n then - 1 else if neg then - of_nat n else of_nat n)"

text \<open>What \<^verbatim>\<open>%s\<close> prints of a string given by \<^verbatim>\<open>c_str\<close>: everything before the first null character.\<close>

definition c_str :: "string \<Rightarrow> string" where
  "c_str s = takeWhile (\<lambda>c. c \<noteq> CHR 0x00) s"

text \<open>\<^verbatim>\<open>std::to_string\<close> of a signed number.\<close>

definition int_string :: "int \<Rightarrow> string" where
  "int_string n = (if n < 0 then ''-'' @ decimal (nat (- n)) else decimal (nat n))"

text \<open>Whether \<^verbatim>\<open>find\<close> of the second string in the first does not return \<^verbatim>\<open>npos\<close>.\<close>

fun str_contains :: "string \<Rightarrow> string \<Rightarrow> bool" where
  "str_contains [] sub = (sub = [])"
| "str_contains (c # s) sub = (prefix sub (c # s) \<or> str_contains s sub)"

section \<open>Facts\<close>

lemma digit_char: "k < 10 \<Longrightarrow> (of_char (char_of (48 + k) :: char) :: nat) = 48 + k"
  by (simp add: of_char_of)

lemma decimal_digits: "list_all is_digit (decimal n) \<and> decimal n \<noteq> []"
proof (induction n rule: decimal.induct)
  case (1 n)
  then show ?case using digit_char [of "n mod 10"] digit_char [of n] mod_less_divisor [of 10 n]
    by (simp add: decimal.simps [of n] is_digit_def less_Suc_eq_le [symmetric] del: mod_less_divisor)
qed

lemma scan_decimal: "scan_number (decimal n) = (False, n)"
proof -
  obtain c cs where c: "decimal n = c # cs" using decimal_digits [of n] by (cases "decimal n") auto
  have digits: "list_all is_digit (c # cs)" using decimal_digits [of n] c by simp
  then have "is_digit c" by simp
  then have nc: "\<not> is_space c" "c \<noteq> CHR 0x2D" "c \<noteq> CHR 0x2B" by (auto simp: is_digit_def is_space_def)
  have tw: "takeWhile is_digit (c # cs) = c # cs" using digits by (simp add: takeWhile_eq_all_conv list_all_iff)
  have un: "undecimal (c # cs) = n" using c undecimal_decimal [of n] by simp
  show ?thesis unfolding scan_number_def c using nc by (simp add: tw un del: takeWhile.simps undecimal.simps)
qed

lemma atoi_decimal: "n < 2 ^ 31 \<Longrightarrow> atoi (decimal n) = Some (int n)"
  by (simp add: atoi_def scan_decimal)

lemma strtoull_decimal: "n < 2 ^ 64 \<Longrightarrow> strtoull (decimal n) = of_nat n"
  by (simp add: strtoull_def scan_decimal)

lemma decimal_length: "n < 10 ^ k \<Longrightarrow> 0 < k \<Longrightarrow> length (decimal n) \<le> k"
proof (induction n arbitrary: k rule: decimal.induct)
  case (1 n)
  show ?case
  proof (cases "n < 10")
    case False
    then obtain j where j: "k = Suc j" "0 < j" using 1 by (cases k) (auto, metis not_gr_zero power_0 mult.right_neutral not_less)
    have "n div 10 < 10 ^ j" using 1(2) j by (simp add: less_mult_imp_div_less mult.commute)
    with 1(1) False j show ?thesis by (simp add: decimal.simps [of n])
  qed (use 1 in \<open>simp add: decimal.simps [of n]\<close>)
qed

lemma word64_length: "length (word_string (w :: u64)) \<le> 20"
proof -
  have "unat w < 10 ^ 20" using unsigned_less [of w] by (rule order.strict_trans2) simp
  then show ?thesis by (simp add: word_string_def decimal_length)
qed

lemma str_contains_sublist: "str_contains s sub \<longleftrightarrow> sublist sub s"
  by (induction s) (auto simp: sublist_Cons_right)

end
