(* ===== verification/SF_Transport.thy ===== *)
theory SF_Transport
  imports SF_Wire SF_CText
begin

text \<open>
  Framed messages over stream sockets (\<^verbatim>\<open>tools/sockutil.h\<close>). The kernel's part is explicit: a
  receiving socket holds the segments that will arrive, and one call of \<^verbatim>\<open>recv\<close> returns bytes of the
  first segment only; a sending socket holds what each successive call of \<^verbatim>\<open>send\<close> will return.
  An empty segment, a missing segment and a result that is not positive are the end of the
  connection or an error.
\<close>

section \<open>Sockets\<close>

definition sock_recv :: "nat \<Rightarrow> bytes list \<Rightarrow> bytes \<times> bytes list" where
  "sock_recv n segs =
     (case segs of [] \<Rightarrow> ([], [])
      | s # ss \<Rightarrow> (take n s, if n < length s then drop n s # ss else ss))"

definition sock_send :: "nat \<Rightarrow> int list \<Rightarrow> int \<times> int list" where
  "sock_send n ks = (case ks of [] \<Rightarrow> (- 1, []) | k # ks' \<Rightarrow> (min k (int n), ks'))"

text \<open>
  Opening a socket. The results of the operating system's calls are parameters: the handle, whether
  the address, the host name and the connection are accepted, and the error number. The result is
  the descriptor, negative on failure, and the error text, which a success leaves as it was.
\<close>

record SocketCalls =
  os_socket :: "int option"
  os_bind :: bool
  os_listen :: bool
  os_inet_pton :: bool
  os_connect :: bool
  os_last_error :: int

definition listen_port :: "SocketCalls \<Rightarrow> string \<Rightarrow> int \<times> string" where
  "listen_port os errtext =
     (case os_socket os of
        None \<Rightarrow> (- 1, ''socket'')
      | Some s \<Rightarrow>
          if \<not> os_bind os then (- 1, ''bind'')
          else if \<not> os_listen os then (- 1, ''listen'')
          else (s, errtext))"

definition connect_port :: "SocketCalls \<Rightarrow> string \<Rightarrow> int \<times> string" where
  "connect_port os errtext =
     (case os_socket os of
        None \<Rightarrow> (- 1, ''socket'')
      | Some s \<Rightarrow>
          if \<not> os_inet_pton os then (- 1, ''bad host'')
          else if \<not> os_connect os then (- 1, ''connect '' @ int_string (os_last_error os))
          else (s, errtext))"

section \<open>Whole buffers and frames\<close>

text \<open>The loops; the bytes sent so far and the bytes still to be sent stand for the index.\<close>

function send_all :: "bytes \<Rightarrow> bytes \<Rightarrow> int list \<Rightarrow> bool \<times> bytes \<times> int list" where
  "send_all sent rest ks =
     (if rest = [] then (True, sent, ks)
      else let (k, ks') = sock_send (length rest) ks
           in if k \<le> 0 then (False, sent, ks') else send_all (sent @ take (nat k) rest) (drop (nat k) rest) ks')"
  by auto
termination by (relation "measure (\<lambda>(sent, rest, ks). length rest)") (auto simp: sock_send_def)

function recv_exact :: "bytes \<Rightarrow> nat \<Rightarrow> bytes list \<Rightarrow> (bytes \<times> bytes list) option" where
  "recv_exact got n segs =
     (if length got < n then
        let (bs, segs') = sock_recv (n - length got) segs
        in if bs = [] then None else recv_exact (got @ bs) n segs'
      else Some (got, segs))"
  by auto
termination by (relation "measure (\<lambda>(got, n, segs). n - length got)") (auto simp: length_greater_0_conv [symmetric] simp del: length_greater_0_conv)

declare send_all.simps [simp del] recv_exact.simps [simp del]

definition send_frame :: "bytes \<Rightarrow> int list \<Rightarrow> bool \<times> bytes \<times> int list" where
  "send_frame payload ks =
     (case add_frame_prefix payload of Err e \<Rightarrow> (False, [], ks) | Ok framed \<Rightarrow> send_all [] framed ks)"

definition recv_frame :: "bytes list \<Rightarrow> (bytes \<times> bytes list) option" where
  "recv_frame segs =
     (case recv_exact [] 4 segs of
        None \<Rightarrow> None
      | Some (lenb, segs1) \<Rightarrow>
          let len = le_join lenb :: u32
          in if len = 0 \<or> kMaxFrameSize < len then None else recv_exact [] (unat len) segs1)"

section \<open>Segmentation does not matter\<close>

lemma send_all_complete: "send_all sent rest ks = (True, out, ks') \<Longrightarrow> out = sent @ rest"
proof (induction sent rest ks arbitrary: out ks' rule: send_all.induct)
  case (1 sent rest ks)
  obtain k ks1 where k: "sock_send (length rest) ks = (k, ks1)" by fastforce
  from 1 k show ?case by (auto simp: send_all.simps [of sent rest ks] split: if_splits)
qed

lemma send_all_prefix: "send_all sent rest ks = (ok, out, ks') \<Longrightarrow> prefix sent out \<and> prefix out (sent @ rest)"
proof (induction sent rest ks arbitrary: out ks' rule: send_all.induct)
  case (1 sent rest ks)
  obtain k ks1 where k: "sock_send (length rest) ks = (k, ks1)" by fastforce
  show ?case
  proof (cases "rest = [] \<or> k \<le> 0")
    case True
    with 1 k show ?thesis by (auto simp: send_all.simps [of sent rest ks] split: if_splits)
  next
    case False
    with "1.prems" k have "send_all (sent @ take (nat k) rest) (drop (nat k) rest) ks1 = (ok, out, ks')"
      by (simp add: send_all.simps [of sent rest ks])
    from "1.IH" [OF _ k [symmetric] refl _ this] False show ?thesis by (auto simp: prefix_def)
  qed
qed

lemma sock_recv_progress:
  assumes "sock_recv n segs = (bs, segs')" and "[] \<notin> set segs" and "segs \<noteq> []" and "0 < n"
  shows "bs \<noteq> []" and "length bs \<le> n" and "concat segs = bs @ concat segs'" and "[] \<notin> set segs'"
  using assms by (auto simp: sock_recv_def split: list.splits if_splits)

text \<open>With enough bytes on the way, a read of \<open>n\<close> bytes returns the next \<open>n\<close>, however they are cut.\<close>

lemma recv_exact_stream:
  assumes "[] \<notin> set segs" and "n - length got \<le> length (concat segs)"
  shows "\<exists>segs'. recv_exact got n segs = Some (got @ take (n - length got) (concat segs), segs') \<and>
    concat segs' = drop (n - length got) (concat segs) \<and> [] \<notin> set segs'"
  using assms
proof (induction got n segs rule: recv_exact.induct)
  case (1 got n segs)
  show ?case
  proof (cases "length got < n")
    case True
    obtain bs segs1 where r: "sock_recv (n - length got) segs = (bs, segs1)" by fastforce
    have ne: "segs \<noteq> []" using 1(3) True by auto
    note p = sock_recv_progress [OF r 1(2) ne, simplified, OF True]
    have len: "n - length got = length bs + (n - length (got @ bs))" using p(2) by simp
    have "n - length (got @ bs) \<le> length (concat segs1)" using 1(3) p(3) by simp
    from "1.IH" [OF True r [symmetric] refl p(1,4) this] obtain segs' where
      "recv_exact (got @ bs) n segs1 = Some ((got @ bs) @ take (n - length (got @ bs)) (concat segs1), segs')"
      "concat segs' = drop (n - length (got @ bs)) (concat segs1)" "[] \<notin> set segs'" by blast
    moreover have "recv_exact got n segs = recv_exact (got @ bs) n segs1"
      using True r p(1) by (simp add: recv_exact.simps [of got n segs])
    ultimately show ?thesis unfolding len using p(3) by simp
  qed (use 1(2) in \<open>simp add: recv_exact.simps [of got n segs]\<close>)
qed

lemma recv_exact_short:
  assumes "[] \<notin> set segs" and "length (concat segs) < n - length got"
  shows "recv_exact got n segs = None"
  using assms
proof (induction got n segs rule: recv_exact.induct)
  case (1 got n segs)
  then have lt: "length got < n" by simp
  obtain bs segs1 where r: "sock_recv (n - length got) segs = (bs, segs1)" by fastforce
  show ?case
  proof (cases "segs = []")
    case True
    with lt show ?thesis by (simp add: recv_exact.simps [of got n "[]"] sock_recv_def)
  next
    case False
    note p = sock_recv_progress [OF r 1(2) False, simplified, OF lt]
    have "length (concat segs1) < n - length (got @ bs)" using 1(3) p(3) by simp
    from "1.IH" [OF lt r [symmetric] refl p(1,4) this] r lt show ?thesis
      by (simp add: recv_exact.simps [of got n segs])
  qed
qed

lemma recv_frame_stream:
  assumes "[] \<notin> set segs"
  shows "case extract_frame (concat segs) of
      Ok payload \<Rightarrow> \<exists>segs'. recv_frame segs = Some (payload, segs') \<and> [] \<notin> set segs' \<and>
        concat segs' = drop (4 + length payload) (concat segs)
    | Err e \<Rightarrow> recv_frame segs = None"
proof (cases "length (concat segs) < 4")
  case True
  then show ?thesis using recv_exact_short [OF assms, of 4 "[]"] by (simp add: extract_frame_def kFrameLenWidth_def recv_frame_def)
next
  case False
  then obtain segs1 where lenb: "recv_exact [] 4 segs = Some (take 4 (concat segs), segs1)"
    "concat segs1 = drop 4 (concat segs)" "[] \<notin> set segs1"
    using recv_exact_stream [OF assms, of 4 "[]"] by auto
  let ?len = "le_join (take 4 (concat segs)) :: u32"
  show ?thesis
  proof (cases "?len = 0 \<or> kMaxFrameSize < ?len \<or> length (concat segs1) < unat ?len")
    case True
    then show ?thesis using lenb False recv_exact_short [OF lenb(3), of "unat ?len" "[]"]
      by (auto simp: extract_frame_def kFrameLenWidth_def recv_frame_def Let_def)
  next
    case False': False
    from recv_exact_stream [OF lenb(3), of "unat ?len" "[]"] False' obtain segs2 where
      "recv_exact [] (unat ?len) segs1 = Some (take (unat ?len) (concat segs1), segs2)"
      "concat segs2 = drop (unat ?len) (concat segs1)" "[] \<notin> set segs2" by auto
    moreover have "\<not> length (concat segs) < 4 + unat ?len" using False False' lenb(2) by auto
    ultimately show ?thesis using lenb False False'
      by (simp add: extract_frame_def kFrameLenWidth_def recv_frame_def Let_def add.commute)
  qed
qed

section \<open>Properties\<close>

text \<open>
  Reading a frame from a socket gives exactly what the frame extractor
  gives on the concatenation of the segments, however the stream was cut into non-empty segments: the
  same payload, with the bytes after the frame left on the socket, or a failure when the extractor
  reports an error.
\<close>

lemma recv_frame_is_extract:
  assumes "[] \<notin> set segs"
  shows "case extract_frame (concat segs) of
      Ok payload \<Rightarrow> \<exists>segs'. recv_frame segs = Some (payload, segs') \<and> [] \<notin> set segs' \<and>
        concat segs' = drop (4 + length payload) (concat segs)
    | Err e \<Rightarrow> recv_frame segs = None"
  using recv_frame_stream [OF assms] .

lemma recv_frame_is_extract_example:
  "\<exists>segs'. recv_frame [[1, 0], [0, 0, 42], [7]] = Some ([42], segs') \<and> concat segs' = [7]"
proof -
  have len: "(le_join [1, 0, 0, 0 :: u8] :: u32) = 1" by (simp add: le_join_def upt_conv_Cons)
  have "extract_frame (concat [[1, 0], [0, 0, 42], [7]]) = Ok [42]"
    by (simp add: extract_frame_def kFrameLenWidth_def len kMaxFrameSize_def)
  with recv_frame_is_extract [of "[[1, 0], [0, 0, 42], [7]]"] show ?thesis by auto
qed

text \<open>
  C26 (frame_transport): a message that one side encodes and sends completely arrives: whatever the
  sizes of the partial sends and however the bytes are cut on the way, the receiver reads the
  payload, decodes it to the same message, and the bytes of later frames stay on the socket. An
  interrupted send has put a prefix of the frame on the wire and nothing else.
\<close>

theorem frame_transport:
  assumes "encode m = Ok bs" and "send_frame bs ks = (ok, out, ks')"
    and "[] \<notin> set segs" and "concat segs = out @ rest"
  shows "if ok then \<exists>segs'. recv_frame segs = Some (bs, segs') \<and> concat segs' = rest \<and> decode bs = Ok m
    else \<exists>fr. add_frame_prefix bs = Ok fr \<and> prefix out fr"
proof -
  obtain fr where fr: "add_frame_prefix bs = Ok fr" "extract_frame (fr @ rest) = Ok bs" "length fr = length bs + 4"
    using framed_message [OF assms(1)] by blast
  have sent: "send_all [] fr ks = (ok, out, ks')" using assms(2) fr(1) by (simp add: send_frame_def)
  show ?thesis
  proof (cases ok)
    case True
    with send_all_complete sent have "out = fr" by fastforce
    with recv_frame_stream [OF assms(3)] fr assms(4) decode_encode [OF assms(1)] True show ?thesis by auto
  next
    case False
    with fr(1) send_all_prefix [OF sent] show ?thesis by simp
  qed
qed

theorem frame_transport_witness:
  "\<exists>bs fr segs'. encode (default_Message\<lparr>msg_type := Msg_Shutdown\<rparr>) = Ok bs \<and> send_frame bs [3, 100] = (True, fr, []) \<and>
     recv_frame [take 1 fr, drop 1 fr, [9]] = Some (bs, segs') \<and> concat segs' = [9]"
proof -
  let ?m = "default_Message\<lparr>msg_type := Msg_Shutdown\<rparr>"
  have "in_limits ?m" by (simp add: in_limits_def msg_valid_def default_Message_def)
  then obtain bs where bs: "encode ?m = Ok bs" using encode_Ok_iff by blast
  then have len: "length bs = 20" by (simp add: encode_Ok_iff default_Message_def)
  obtain fr where fr: "add_frame_prefix bs = Ok fr" "length fr = 24" using framed_message [OF bs] len by auto
  then have ne: "fr \<noteq> []" "drop 3 fr \<noteq> []" by auto
  have sent: "send_frame bs [3, 100] = (True, fr, [])"
    using fr ne by (simp add: send_frame_def sock_send_def send_all.simps)
  have segs: "[] \<notin> set [take 1 fr, drop 1 fr, [9]]" "concat [take 1 fr, drop 1 fr, [9]] = fr @ [9]"
    using fr(2) by auto
  from frame_transport [OF bs sent segs] bs sent show ?thesis by auto
qed

end
