(* ===== verification/SF_Worker.thy ===== *)
theory SF_Worker
  imports SF_Executors SF_Transport
begin

text \<open>
  The worker process (\<^verbatim>\<open>tools/sf_worker.cpp\<close>) and the field layout it shares with the coordinator
  (\<^verbatim>\<open>tools/distmsg.h\<close>). A worker answers proposal and verification dispatches with the CPU executors,
  ignores what it cannot decode, and stops on a shutdown message. Reading a field the message does not
  have, and the value of a failed encoding, are undefined.
\<close>

section \<open>Field layout (distmsg.h)\<close>

definition kRoleProposer :: u32 where "kRoleProposer = 1"
definition kRoleVerifier :: u32 where "kRoleVerifier = 2"
definition kRoleDriver :: u32 where "kRoleDriver = 3"

definition kOutcomeSuccess :: u32 where "kOutcomeSuccess = 0"
definition kOutcomeRetryable :: u32 where "kOutcomeRetryable = 1"
definition kOutcomeNonRetryable :: u32 where "kOutcomeNonRetryable = 2"

definition kAccFull :: u32 where "kAccFull = 0"
definition kAccPartial :: u32 where "kAccPartial = 1"
definition kAccReject :: u32 where "kAccReject = 2"
definition kAccFailure :: u32 where "kAccFailure = 3"

record ProposalDispatchFields =
  pd_request :: u64
  pd_sequence :: u64
  pd_attempt :: u64
  pd_epoch :: u64
  pd_base_state_id :: u64
  pd_base_state_gen :: u64
  pd_base_gen :: u64
  pd_proposer_rev :: u64
  pd_dispatch :: u64
  pd_branch :: u64
  pd_proposer_boot :: u64
  pd_propogen :: u64

text \<open>The twelve leading 64-bit fields at the indices \<^verbatim>\<open>PD_REQUEST\<close> to \<^verbatim>\<open>PD_PROPOGEN\<close>.\<close>

definition pd_fields :: "Message \<Rightarrow> ProposalDispatchFields cpp" where
  "pd_fields m =
     (case msg_u64_fields m of
        a # b # c # d # e # f # g # h # i # j # k # l # _ \<Rightarrow>
          Some \<lparr>pd_request = a, pd_sequence = b, pd_attempt = c, pd_epoch = d, pd_base_state_id = e,
                pd_base_state_gen = f, pd_base_gen = g, pd_proposer_rev = h, pd_dispatch = i, pd_branch = j,
                pd_proposer_boot = k, pd_propogen = l\<rparr>
      | _ \<Rightarrow> None)"

record VerificationDispatchFields =
  vd_request :: u64
  vd_sequence :: u64
  vd_attempt :: u64
  vd_epoch :: u64
  vd_state_id :: u64
  vd_state_gen :: u64
  vd_base_gen :: u64
  vd_proposer_rev :: u64
  vd_dispatch :: u64
  vd_proposer_boot :: u64

definition vd_fields :: "Message \<Rightarrow> VerificationDispatchFields cpp" where
  "vd_fields m =
     (case msg_u64_fields m of
        a # b # c # d # e # f # g # h # i # j # _ \<Rightarrow>
          Some \<lparr>vd_request = a, vd_sequence = b, vd_attempt = c, vd_epoch = d, vd_state_id = e,
                vd_state_gen = f, vd_base_gen = g, vd_proposer_rev = h, vd_dispatch = i, vd_proposer_boot = j\<rparr>
      | _ \<Rightarrow> None)"

text \<open>Elements \<open>from\<close> to \<open>from + n - 1\<close>, read one by one.\<close>

definition vec_range :: "'a list \<Rightarrow> nat \<Rightarrow> nat \<Rightarrow> 'a list cpp" where
  "vec_range xs from n = (if n = 0 \<or> from + n \<le> length xs then Some (take n (drop from xs)) else None)"

section \<open>Proposals\<close>

definition worker_proposal_input :: "ProposalDispatchFields \<Rightarrow> u32 \<Rightarrow> u32 \<Rightarrow> ProposalInput" where
  "worker_proposal_input d depth branch_count = default_ProposalInput\<lparr>
     pin_base_state := \<lparr>sr_id = StrongId (pd_base_state_id d), sr_generation = StrongId (pd_base_state_gen d)\<rparr>,
     pin_base_generation := StrongId (pd_base_gen d), pin_depth := depth, pin_branch_index := ucast (pd_branch d),
     pin_branch_count := branch_count, pin_deterministic_seed := pd_dispatch d XOR pd_attempt d,
     pin_provenance := default_ProposalProvenance\<lparr>
       pv_epoch := StrongId (pd_epoch d), pv_request := StrongId (pd_request d), pv_sequence := StrongId (pd_sequence d),
       pv_attempt := StrongId (pd_attempt d), pv_branch := StrongId (pd_branch d + 1),
       pv_proposer_model := default_ModelIdentity\<lparr>mi_revision := StrongId (pd_proposer_rev d)\<rparr>,
       pv_proposer_boot := StrongId (pd_proposer_boot d), pv_base_generation := StrongId (pd_base_gen d),
       pv_dispatch := StrongId (pd_dispatch d), pv_proposer_worker := null_id\<rparr>\<rparr>"

definition proposal_code :: "ProposalResult \<Rightarrow> u32" where
  "proposal_code r = (if pres_outcome r = PO_Success then kOutcomeSuccess
     else if pres_retryable r then kOutcomeRetryable else kOutcomeNonRetryable)"

definition proposal_reply :: "ProposalDispatchFields \<Rightarrow> u32 \<Rightarrow> ProposalResult \<Rightarrow> Message" where
  "proposal_reply d depth r = default_Message\<lparr>msg_type := Msg_ProposalResult,
     msg_u64_fields := [pd_request d, pd_sequence d, pd_attempt d, pd_epoch d, pd_dispatch d, pd_branch d,
       pd_base_gen d, pd_proposer_boot d, pd_proposer_rev d, pd_propogen d, pres_execution_measured_ns r],
     msg_u32_fields := [proposal_code r, depth] @
       (case pres_candidate r of Some c \<Rightarrow> cs_ids c | None \<Rightarrow> replicate (unat depth) 0)\<rparr>"

definition worker_propose :: "Message \<Rightarrow> bytes cpp" where
  "worker_propose m =
     do {
       aligned \<leftarrow> vec_at (msg_u32_fields m) 1;
       d \<leftarrow> pd_fields m;
       depth \<leftarrow> vec_at (msg_u32_fields m) 0;
       branch_count \<leftarrow> vec_at (msg_u32_fields m) 2;
       r \<leftarrow> result_value (cpu_propose (default_CpuProposerConfig\<lparr>ppc_aligned_tokens := aligned\<rparr>)
                           (worker_proposal_input d depth branch_count));
       result_value (encode (proposal_reply d depth r))
     }"

section \<open>Verifications\<close>

definition worker_verification_input :: "VerificationDispatchFields \<Rightarrow> u32 \<Rightarrow> u32 \<Rightarrow> u32 list \<Rightarrow> VerificationInput" where
  "worker_verification_input d tokenizer vocab toks = default_VerificationInput\<lparr>
     vin_authoritative_state := \<lparr>sr_id = StrongId (vd_state_id d), sr_generation = StrongId (vd_state_gen d)\<rparr>,
     vin_authoritative_generation := StrongId (vd_base_gen d), vin_epoch := StrongId (vd_epoch d),
     vin_request := StrongId (vd_request d), vin_sequence := StrongId (vd_sequence d),
     vin_attempt := StrongId (vd_attempt d), vin_dispatch := StrongId (vd_dispatch d),
     vin_verifier_worker := null_id, vin_verifier_boot := StrongId (vd_proposer_boot d),
     vin_authoritative_state_generation := StrongId (vd_state_gen d),
     vin_proposer := default_ModelIdentity\<lparr>mi_revision := StrongId (vd_proposer_rev d)\<rparr>,
     vin_candidate_identity := default_CandidateTokenIdentity\<lparr>cti_tokenizer := StrongId (ucast tokenizer), cti_vocab_size := vocab\<rparr>,
     vin_candidate := \<lparr>cs_tokens = map mk_token toks\<rparr>\<rparr>"

definition acceptance_code :: "AcceptanceResult Result \<Rightarrow> u32" where
  "acceptance_code r =
     (case r of Err e \<Rightarrow> kAccFailure
      | Ok a \<Rightarrow> if acc_outcome a = AO_FullAccept then kAccFull
               else if acc_outcome a = AO_PartialAccept then kAccPartial
               else if acc_outcome a = AO_RejectAll then kAccReject else kAccFailure)"

definition verification_reply :: "VerificationDispatchFields \<Rightarrow> u32 \<Rightarrow> AcceptanceResult Result \<Rightarrow> Message" where
  "verification_reply d len r = default_Message\<lparr>msg_type := Msg_VerificationResult,
     msg_u64_fields := [vd_request d, vd_sequence d, vd_attempt d, vd_epoch d, vd_base_gen d, vd_dispatch d,
       vd_state_id d, vd_state_gen d],
     msg_u32_fields := [acceptance_code r, case r of Ok a \<Rightarrow> acc_accepted_prefix a | Err e \<Rightarrow> 0, len,
       case r of Ok a \<Rightarrow> acc_first_rejection_index a | Err e \<Rightarrow> len]\<rparr>"

definition worker_verify :: "Message \<Rightarrow> bytes cpp" where
  "worker_verify m =
     do {
       d \<leftarrow> vd_fields m;
       tokenizer \<leftarrow> vec_at (msg_u32_fields m) 0;
       vocab \<leftarrow> vec_at (msg_u32_fields m) 1;
       len \<leftarrow> vec_at (msg_u32_fields m) 2;
       toks \<leftarrow> vec_range (msg_u32_fields m) 3 (unat len);
       result_value (encode (verification_reply d len (cpu_verify (worker_verification_input d tokenizer vocab toks))))
     }"

section \<open>The worker process\<close>

datatype WorkerReaction = W_ignore | W_stop | W_send bytes

definition worker_hello :: "string \<Rightarrow> u64 \<Rightarrow> Message" where
  "worker_hello role boot_id = default_Message\<lparr>msg_type := Msg_Hello, msg_u64_fields := [boot_id],
     msg_u32_fields := [if role = ''proposer'' then kRoleProposer else kRoleVerifier]\<rparr>"

definition worker_handle :: "bytes \<Rightarrow> WorkerReaction cpp" where
  "worker_handle frame =
     (case decode frame of
        Err e \<Rightarrow> Some W_ignore
      | Ok m \<Rightarrow>
          if msg_type m = Msg_Shutdown then Some W_stop
          else if msg_type m = Msg_ProposalDispatch then map_option W_send (worker_propose m)
          else if msg_type m = Msg_VerificationDispatch then map_option W_send (worker_verify m)
          else Some W_ignore)"

text \<open>The payloads a worker sends in answer to the frames it receives, until the connection ends.\<close>

fun worker_loop :: "bytes list \<Rightarrow> bytes list cpp" where
  "worker_loop [] = Some []"
| "worker_loop (frame # frames) =
     do {
       w \<leftarrow> worker_handle frame;
       (case w of
          W_stop \<Rightarrow> Some []
        | W_ignore \<Rightarrow> worker_loop frames
        | W_send reply \<Rightarrow> map_option ((#) reply) (worker_loop frames))
     }"

text \<open>
  \<^verbatim>\<open>main\<close>: the exit code, the text printed and the payloads sent. \<open>os\<close> gives the results of the calls that
  open the connection, \<open>pid\<close> is the process number, which serves as the boot identifier, and \<open>frames\<close> are the
  frames that arrive before the connection ends.
\<close>

definition worker_main ::
  "(string \<Rightarrow> u16 \<Rightarrow> SocketCalls) \<Rightarrow> u64 \<Rightarrow> bytes list \<Rightarrow> string list \<Rightarrow> (int \<times> string \<times> bytes list) cpp" where
  "worker_main os pid frames argv =
     (if length argv < 4 then
        map_option (\<lambda>prog. (1, ''usage: '' @ prog @ '' <host> <port> <proposer|verifier>'' @ newline, [])) (vec_at argv 0)
      else do {
        n \<leftarrow> atoi (argv ! 2);
        let (fd, errtext) = connect_port (os (argv ! 1) (of_int n)) [];
        if fd < 0 then Some (1, ''worker: connect failed: '' @ c_str errtext @ newline, [])
        else do {
          hello \<leftarrow> result_value (encode (worker_hello (argv ! 3) pid));
          replies \<leftarrow> worker_loop frames;
          Some (0, [], hello # replies)
        }
      })"

section \<open>What a worker answers\<close>

text \<open>Within the depth that fits a message, a proposer drafts along the target and echoes the authority fields.\<close>

lemma worker_drafts:
  assumes "decode frame = Ok m" and "msg_type m = Msg_ProposalDispatch" and "pd_fields m = Some d"
    and "msg_u32_fields m = [depth, aligned, branch_count]" and "0 < unat depth" and "unat depth \<le> 62"
  defines "inp \<equiv> worker_proposal_input d depth branch_count"
  defines "k \<equiv> min (unat aligned) (unat depth)"
  obtains bs pr toks ns where "worker_handle frame = Some (W_send bs)" "decode bs = Ok pr"
    "msg_u64_fields pr = [pd_request d, pd_sequence d, pd_attempt d, pd_epoch d, pd_dispatch d, pd_branch d,
       pd_base_gen d, pd_proposer_boot d, pd_proposer_rev d, pd_propogen d, ns]"
    "msg_u32_fields pr = [kOutcomeSuccess, depth] @ toks" "length toks = unat depth"
    "take k toks = take k (target_sequence (proposal_seed inp) (unat depth))"
    "toks = cpu_draft (proposal_seed inp) depth aligned (ucast (pd_branch d))"
proof -
  let ?cfg = "default_CpuProposerConfig\<lparr>ppc_aligned_tokens := aligned\<rparr>"
  have pin: "pin_depth inp = depth" "pin_compute_budget inp = 0"
    by (simp_all add: inp_def worker_proposal_input_def default_ProposalInput_def)
  have "depth \<noteq> 0" "\<not> 256 < depth" using assms(5,6) by (auto simp: word_less_nat_alt)
  then obtain r where r: "cpu_propose ?cfg inp = Ok r" "pres_success r"
    by (simp add: cpu_propose_def pin Let_def pres_success_def)
  then obtain c where c: "pres_candidate r = Some c" "cs_size c = unat depth" using cpu_prop.success_candidate pin(1) by metis
  let ?pr = "proposal_reply d depth r"
  have u32s: "msg_u32_fields ?pr = [kOutcomeSuccess, depth] @ cs_ids c"
    using r(2) c(1) by (simp add: proposal_reply_def proposal_code_def pres_success_def)
  have "in_limits ?pr"
    using u32s c(2) assms(6) by (simp add: in_limits_def msg_valid_def) (simp add: proposal_reply_def default_Message_def)
  then obtain bs where bs: "encode ?pr = Ok bs" using encode_Ok_iff by blast
  have "worker_propose m = Some bs"
    using assms(3,4) r(1) bs by (simp add: worker_propose_def inp_def [symmetric] vec_at_def)
  then have "worker_handle frame = Some (W_send bs)" using assms(1,2) by (simp add: worker_handle_def)
  moreover have "take k (cs_ids c) = take k (target_sequence (proposal_seed inp) (unat depth))"
    using draft_aligned [OF r(1) c(1)] by (simp add: k_def pin)
  moreover have "msg_u64_fields ?pr = [pd_request d, pd_sequence d, pd_attempt d, pd_epoch d, pd_dispatch d, pd_branch d,
       pd_base_gen d, pd_proposer_boot d, pd_proposer_rev d, pd_propogen d, pres_execution_measured_ns r]"
    by (simp add: proposal_reply_def)
  moreover have "length (cs_ids c) = unat depth" using c(2) by simp
  moreover have "cs_ids c = cpu_draft (proposal_seed inp) depth aligned (ucast (pd_branch d))"
    using cpu_propose_success(1) [OF r(1) c(1)] pin(1) by (simp add: cpu_draft_def) (simp add: inp_def worker_proposal_input_def)
  ultimately show thesis using that decode_encode [OF bs] u32s by blast
qed

lemma worker_verifies:
  assumes "decode frame = Ok m" and "msg_type m = Msg_VerificationDispatch" and "vd_fields m = Some d"
    and "msg_u32_fields m = [tokenizer, 4096, len] @ toks" and "length toks = unat len" and "0 < unat len" and "tokenizer \<noteq> 0"
  defines "v \<equiv> worker_verification_input d tokenizer 4096 toks"
  obtains bs vr a where "worker_handle frame = Some (W_send bs)" "decode bs = Ok vr" "cpu_verify v = Ok a"
    "msg_u64_fields vr = [vd_request d, vd_sequence d, vd_attempt d, vd_epoch d, vd_base_gen d, vd_dispatch d,
       vd_state_id d, vd_state_gen d]"
    "msg_u32_fields vr = [acceptance_code (Ok a), acc_accepted_prefix a, len, acc_first_rejection_index a]"
proof -
  have "\<exists>a. cpu_verify v = Ok a" by (auto simp: cpu_verify_def Let_def)
  then obtain a where a: "cpu_verify v = Ok a" by blast
  let ?vr = "verification_reply d len (Ok a)"
  have "in_limits ?vr" by (simp add: in_limits_def msg_valid_def verification_reply_def default_Message_def)
  then obtain bs where bs: "encode ?vr = Ok bs" using encode_Ok_iff by blast
  have "worker_verify m = Some bs"
    using assms(3-5) a bs by (simp add: worker_verify_def v_def [symmetric] vec_at_def vec_range_def)
  then have "worker_handle frame = Some (W_send bs)" using assms(1,2) by (simp add: worker_handle_def)
  then show thesis using that a decode_encode [OF bs] by (simp add: verification_reply_def)
qed

end
