(* ===== verification/SF_Coordinator.thy ===== *)
theory SF_Coordinator
  imports SF_Worker
begin

text \<open>
  The coordinator process (\<^verbatim>\<open>tools/sf_coordinator.cpp\<close>). Its state is the connections, the boot
  identifiers of the workers, the epoch and the requests; the lambdas of \<^verbatim>\<open>main\<close> are functions on
  that state. The workers are parameters: what the exchange with a worker yields for each branch of a
  cycle, a failed send, a failed receive or a payload. Fields that a message does not have, the value
  of a failed encoding, the winner among no branches and tokens past a draft are undefined.
\<close>

section \<open>State\<close>

record CReq =
  cq_id :: RequestId
  cq_seq :: SequenceId
  cq_tenant :: TenantId
  cq_attempt :: AttemptId
  cq_epoch :: CoordinatorEpoch
  cq_auth_gen :: AuthGeneration
  cq_auth_state :: StateRef
  cq_state_gen :: StateGeneration
  cq_committed :: "u32 list"
  cq_depth :: u32
  cq_branches :: u32
  cq_aligned :: u32
  cq_prop_gen :: u64

definition default_CReq :: CReq where
  "default_CReq = \<lparr>cq_id = null_id, cq_seq = null_id, cq_tenant = null_id, cq_attempt = null_id, cq_epoch = null_id,
     cq_auth_gen = null_id, cq_auth_state = default_StateRef, cq_state_gen = null_id, cq_committed = [],
     cq_depth = 0, cq_branches = 1, cq_aligned = 0, cq_prop_gen = 0\<rparr>"

record Coordinator =
  cd_proposer_fd :: int
  cd_verifier_fd :: int
  cd_driver_fd :: int
  cd_proposer_boot :: u64
  cd_verifier_boot :: u64
  cd_prev_proposer_boot :: u64
  cd_epoch :: CoordinatorEpoch
  cd_requests :: "(u64 \<times> CReq) list"

definition new_coordinator :: Coordinator where
  "new_coordinator = \<lparr>cd_proposer_fd = - 1, cd_verifier_fd = - 1, cd_driver_fd = - 1, cd_proposer_boot = 0,
     cd_verifier_boot = 0, cd_prev_proposer_boot = 0, cd_epoch = StrongId 1, cd_requests = []\<rparr>"

definition creq_at :: "u64 \<Rightarrow> Coordinator \<Rightarrow> CReq" where
  "creq_at k c = (case map_of (cd_requests c) k of Some r \<Rightarrow> r | None \<Rightarrow> default_CReq)"

definition put_creq :: "u64 \<Rightarrow> CReq \<Rightarrow> Coordinator \<Rightarrow> Coordinator" where
  "put_creq k r c = c\<lparr>cd_requests := map_put k r (cd_requests c)\<rparr>"

datatype Reply = SendFailed | RecvFailed | Received bytes

record Peers =
  peer_proposer :: "u32 \<Rightarrow> bytes \<Rightarrow> Reply"
  peer_verifier :: "u32 \<Rightarrow> bytes \<Rightarrow> Reply"

section \<open>Authority\<close>

definition kReasonStaleEpoch :: string where "kReasonStaleEpoch = ''stale_epoch''"
definition kReasonStaleBoot :: string where "kReasonStaleBoot = ''stale_worker_boot''"
definition kReasonStaleAttempt :: string where "kReasonStaleAttempt = ''stale_attempt''"
definition kReasonStaleGeneration :: string where "kReasonStaleGeneration = ''stale_generation''"
definition kReasonWrongBase :: string where "kReasonWrongBase = ''wrong_base_generation''"

definition validate_authority :: "CReq \<Rightarrow> u64 \<Rightarrow> u64 \<Rightarrow> u64 \<Rightarrow> u64 \<Rightarrow> u64 \<Rightarrow> u64 \<Rightarrow> string" where
  "validate_authority r ep boot att basegen propgen current_boot =
     (if ep \<noteq> id_get (cq_epoch r) then kReasonStaleEpoch
      else if boot \<noteq> current_boot then kReasonStaleBoot
      else if att \<noteq> id_get (cq_attempt r) then kReasonStaleAttempt
      else if basegen \<noteq> id_get (cq_auth_gen r) then kReasonWrongBase
      else if propgen \<noteq> cq_prop_gen r then kReasonStaleGeneration
      else [])"

text \<open>The check of a proposal result, fields \<^verbatim>\<open>PR_EPOCH\<close>, \<^verbatim>\<open>PR_PROPOSER_BOOT\<close>, \<^verbatim>\<open>PR_ATTEMPT\<close>, \<^verbatim>\<open>PR_BASE_GEN\<close>, \<^verbatim>\<open>PR_PROPOGEN\<close>.\<close>

definition check_proposal :: "CReq \<Rightarrow> Message \<Rightarrow> u64 \<Rightarrow> string cpp" where
  "check_proposal r m current_boot =
     do {
       ep \<leftarrow> vec_at (msg_u64_fields m) 3;
       boot \<leftarrow> vec_at (msg_u64_fields m) 7;
       att \<leftarrow> vec_at (msg_u64_fields m) 2;
       basegen \<leftarrow> vec_at (msg_u64_fields m) 6;
       propgen \<leftarrow> vec_at (msg_u64_fields m) 9;
       Some (validate_authority r ep boot att basegen propgen current_boot)
     }"

definition check_verification :: "CReq \<Rightarrow> Message \<Rightarrow> u64 \<Rightarrow> string cpp" where
  "check_verification r m verifier_boot =
     do {
       ep \<leftarrow> vec_at (msg_u64_fields m) 3;
       att \<leftarrow> vec_at (msg_u64_fields m) 2;
       basegen \<leftarrow> vec_at (msg_u64_fields m) 4;
       Some (validate_authority r ep verifier_boot att basegen (cq_prop_gen r) verifier_boot)
     }"

section \<open>A distributed cycle\<close>

record Br =
  cb_branch :: u64
  cb_toks :: "u32 list"
  cb_depth :: u32
  cb_accepted :: u32
  cb_firstrej :: u32
  cb_outcome :: u32

definition proposal_dispatch :: "Coordinator \<Rightarrow> u64 \<Rightarrow> u32 \<Rightarrow> u32 \<Rightarrow> u32 \<Rightarrow> u32 \<Rightarrow> CReq \<Rightarrow> Message" where
  "proposal_dispatch c reqid depth branches aligned b r = default_Message\<lparr>msg_type := Msg_ProposalDispatch,
     msg_u64_fields := [reqid, id_get (cq_seq r), id_get (cq_attempt r), id_get (cq_epoch r), id_get (sr_id (cq_auth_state r)),
       id_get (sr_generation (cq_auth_state r)), id_get (cq_auth_gen r), 1, 1000 + reqid + ucast b, ucast b,
       cd_proposer_boot c, cq_prop_gen r],
     msg_u32_fields := [depth, aligned, branches]\<rparr>"

definition verification_dispatch :: "Coordinator \<Rightarrow> u64 \<Rightarrow> u32 \<Rightarrow> u32 \<Rightarrow> u32 list \<Rightarrow> CReq \<Rightarrow> Message" where
  "verification_dispatch c reqid depth b toks r = default_Message\<lparr>msg_type := Msg_VerificationDispatch,
     msg_u64_fields := [reqid, id_get (cq_seq r), id_get (cq_attempt r), id_get (cq_epoch r), id_get (sr_id (cq_auth_state r)),
       id_get (sr_generation (cq_auth_state r)), id_get (cq_auth_gen r), 1, 2000 + reqid + ucast b, cd_verifier_boot c],
     msg_u32_fields := [9, 4096, depth] @ toks\<rparr>"

text \<open>The exchange with the verifier for one branch, and the whole loop body.\<close>

definition verify_remote :: "Peers \<Rightarrow> Coordinator \<Rightarrow> u64 \<Rightarrow> u32 \<Rightarrow> u32 \<Rightarrow> u32 list \<Rightarrow> CReq \<Rightarrow> (string + Br) cpp" where
  "verify_remote ps c reqid depth b toks r =
     do {
       ve \<leftarrow> result_value (encode (verification_dispatch c reqid depth b toks r));
       (case peer_verifier ps b ve of
          SendFailed \<Rightarrow> Some (Inl ''verifier send failed'')
        | RecvFailed \<Rightarrow> Some (Inl ''verifier recv failed'')
        | Received fr \<Rightarrow>
            (case decode fr of
               Err e \<Rightarrow> Some (Inl ''verifier decode failed'')
             | Ok vr \<Rightarrow> do {
                 rej \<leftarrow> check_verification r vr (cd_verifier_boot c);
                 if rej \<noteq> [] then Some (Inl (''stale:'' @ rej))
                 else do {
                   accepted \<leftarrow> vec_at (msg_u32_fields vr) 1;
                   firstrej \<leftarrow> vec_at (msg_u32_fields vr) 3;
                   out \<leftarrow> vec_at (msg_u32_fields vr) 0;
                   Some (Inr \<lparr>cb_branch = ucast (b + 1), cb_toks = toks, cb_depth = depth, cb_accepted = accepted,
                              cb_firstrej = firstrej, cb_outcome = out\<rparr>)
                 }
               }))
     }"

definition remote_branch :: "Peers \<Rightarrow> Coordinator \<Rightarrow> u64 \<Rightarrow> u32 \<Rightarrow> u32 \<Rightarrow> u32 \<Rightarrow> u32 \<Rightarrow> CReq \<Rightarrow> (string + Br) cpp" where
  "remote_branch ps c reqid depth branches aligned b r =
     do {
       pe \<leftarrow> result_value (encode (proposal_dispatch c reqid depth branches aligned b r));
       (case peer_proposer ps b pe of
          SendFailed \<Rightarrow> Some (Inl ''proposer send failed'')
        | RecvFailed \<Rightarrow> Some (Inl ''proposer recv failed'')
        | Received fr \<Rightarrow>
            (case decode fr of
               Err e \<Rightarrow> Some (Inl ''proposer decode failed'')
             | Ok pr \<Rightarrow> do {
                 rej \<leftarrow> check_proposal r pr (cd_proposer_boot c);
                 if rej \<noteq> [] then Some (Inl (''stale:'' @ rej))
                 else do {
                   out \<leftarrow> vec_at (msg_u32_fields pr) 0;
                   if out \<noteq> kOutcomeSuccess then Some (Inl ''proposal non-success'')
                   else do {
                     toks \<leftarrow> vec_range (msg_u32_fields pr) 2 (unat depth);
                     verify_remote ps c reqid depth b toks r
                   }
                 }
               }))
     }"

fun drive_branches :: "Peers \<Rightarrow> Coordinator \<Rightarrow> u64 \<Rightarrow> u32 \<Rightarrow> u32 \<Rightarrow> u32 \<Rightarrow> nat \<Rightarrow> u32 \<Rightarrow> CReq \<Rightarrow> ((string + Br list) \<times> CReq) cpp" where
  "drive_branches ps c reqid depth branches aligned 0 b r = Some (Inr [], r)"
| "drive_branches ps c reqid depth branches aligned (Suc n) b r =
     (let r1 = r\<lparr>cq_prop_gen := cq_prop_gen r + 1\<rparr> in
      do {
        x \<leftarrow> remote_branch ps c reqid depth branches aligned b r1;
        (case x of
           Inl why \<Rightarrow> Some (Inl why, r1)
         | Inr br \<Rightarrow> do {
             (y, r2) \<leftarrow> drive_branches ps c reqid depth branches aligned n (b + 1) r1;
             Some (case y of Inl why \<Rightarrow> Inl why | Inr brs \<Rightarrow> Inr (br # brs), r2)
           })
      })"

definition best_branch :: "Br list \<Rightarrow> nat" where
  "best_branch brs = foldl (\<lambda>w i.
     if cb_accepted (brs ! w) < cb_accepted (brs ! i) \<or>
        (cb_accepted (brs ! i) = cb_accepted (brs ! w) \<and> cb_branch (brs ! i) < cb_branch (brs ! w)) then i else w)
     0 [1..<length brs]"

definition commit_branch :: "Br \<Rightarrow> CReq \<Rightarrow> CReq cpp" where
  "commit_branch win r =
     do {
       toks \<leftarrow> vec_prefix (unat (cb_accepted win)) (cb_toks win);
       let adv = ucast (cb_accepted win);
       let sgen = StrongId (id_get (sr_generation (cq_auth_state r)) + adv);
       Some (r\<lparr>cq_committed := cq_committed r @ toks, cq_auth_gen := StrongId (id_get (cq_auth_gen r) + adv),
               cq_auth_state := (cq_auth_state r)\<lparr>sr_generation := sgen\<rparr>, cq_state_gen := sgen\<rparr>)
     }"

definition drive_cycle :: "Peers \<Rightarrow> u64 \<Rightarrow> u32 \<Rightarrow> u32 \<Rightarrow> u32 \<Rightarrow> Coordinator \<Rightarrow> (string \<times> Coordinator) cpp" where
  "drive_cycle ps reqid depth branches aligned c =
     (let r0 = (creq_at reqid c)\<lparr>cq_depth := depth, cq_branches := branches, cq_aligned := aligned, cq_epoch := cd_epoch c\<rparr>
      in do {
        (x, r1) \<leftarrow> drive_branches ps c reqid depth branches aligned (unat branches) 0 r0;
        (case x of
           Inl why \<Rightarrow> Some (why, put_creq reqid r1 c)
         | Inr brs \<Rightarrow> do {
             win \<leftarrow> vec_at brs (best_branch brs);
             r2 \<leftarrow> commit_branch win r1;
             Some (''ok:'' @ word_string (cb_accepted win) @ '':'' @ word_string (cb_branch win) @ '':'' @
                     word_string (cb_firstrej win), put_creq reqid r2 c)
           })
      })"

section \<open>Messages of the driver\<close>

datatype CoordReaction = C_silent | C_stop | C_send bytes

definition reply_body :: "Msg \<Rightarrow> string \<Rightarrow> Message" where
  "reply_body ty body = default_Message\<lparr>msg_type := ty, msg_body := body\<rparr>"

definition verdict_reply :: "string \<Rightarrow> Message" where
  "verdict_reply rej = (if rej = [] then reply_body Msg_Info ''no_rejection'' else reply_body Msg_Reject rej)"

text \<open>Sending a message: the value of its encoding goes to the driver, whatever becomes of the send.\<close>

definition answer :: "Message \<Rightarrow> Coordinator \<Rightarrow> (CoordReaction \<times> Coordinator) cpp" where
  "answer m c = map_option (\<lambda>bs. (C_send bs, c)) (result_value (encode m))"

definition on_proposal_result :: "Message \<Rightarrow> Coordinator \<Rightarrow> (CoordReaction \<times> Coordinator) cpp" where
  "on_proposal_result m c =
     (case cd_requests c of
        [] \<Rightarrow> answer (reply_body Msg_Info ''no_request'') c
      | (k, r) # _ \<Rightarrow> do {
          rej \<leftarrow> check_proposal r m (cd_proposer_boot c);
          answer (verdict_reply rej) c
        })"

definition submitted_creq :: "u64 \<Rightarrow> Coordinator \<Rightarrow> CReq" where
  "submitted_creq reqid c = (creq_at reqid c)\<lparr>cq_id := StrongId reqid, cq_seq := StrongId (reqid + 1),
     cq_tenant := StrongId 1, cq_attempt := StrongId 1, cq_epoch := cd_epoch c, cq_auth_gen := StrongId 0,
     cq_auth_state := \<lparr>sr_id = StrongId (reqid * 0x9E3779B97F4A7C15), sr_generation = StrongId 0\<rparr>,
     cq_state_gen := StrongId 0, cq_committed := [], cq_prop_gen := 0\<rparr>"

definition on_submit :: "Peers \<Rightarrow> Message \<Rightarrow> Coordinator \<Rightarrow> (CoordReaction \<times> Coordinator) cpp" where
  "on_submit ps m c =
     do {
       reqid \<leftarrow> vec_at (msg_u64_fields m) 0;
       depth \<leftarrow> vec_at (msg_u32_fields m) 0;
       branches \<leftarrow> vec_at (msg_u32_fields m) 1;
       aligned \<leftarrow> vec_at (msg_u32_fields m) 2;
       (res, c1) \<leftarrow> drive_cycle ps reqid depth branches aligned (put_creq reqid (submitted_creq reqid c) c);
       let r = creq_at reqid c1;
       answer (if prefix ''ok:'' res
               then default_Message\<lparr>msg_type := Msg_Commit,
                      msg_u64_fields := [reqid, id_get (cq_auth_gen r), of_nat (length (cq_committed r))]\<rparr>
               else reply_body Msg_Reject res) c1
     }"

definition probe_authority :: "string \<Rightarrow> CReq \<Rightarrow> Coordinator \<Rightarrow> string" where
  "probe_authority kind r c =
     (let m_epoch = (if kind = ''epoch'' then id_get (cq_epoch r) - 1 else id_get (cq_epoch r));
          m_boot = (if kind = ''boot'' then cd_proposer_boot c + 9999
                    else if kind = ''prevBoot'' then cd_prev_proposer_boot c else cd_proposer_boot c);
          m_attempt = (if kind = ''attempt'' then id_get (cq_attempt r) + 7 else id_get (cq_attempt r));
          m_prop = (if kind = ''generation'' then cq_prop_gen r + 1 else cq_prop_gen r);
          m_base = (if kind = ''base'' then id_get (cq_auth_gen r) + 5 else id_get (cq_auth_gen r))
      in validate_authority r m_epoch m_boot m_attempt m_base m_prop (cd_proposer_boot c))"

definition status_text :: "Coordinator \<Rightarrow> string" where
  "status_text c =
     ''epoch='' @ word_string (id_get (cd_epoch c)) @ '' boot='' @ word_string (cd_proposer_boot c) @
     '' requests='' @ decimal (length (cd_requests c)) @
     concat (map (\<lambda>(k, r). '' req'' @ word_string k @ '' committed='' @ decimal (length (cq_committed r)) @
       '' gen='' @ word_string (id_get (cq_auth_gen r))) (cd_requests c))"

definition on_info :: "string \<Rightarrow> Coordinator \<Rightarrow> (CoordReaction \<times> Coordinator) cpp" where
  "on_info cmd c =
     (if cmd = ''rollEpoch'' then
        let c1 = c\<lparr>cd_epoch := StrongId (id_get (cd_epoch c) + 1)\<rparr>
        in answer (reply_body Msg_Info (''ok epoch='' @ word_string (id_get (cd_epoch c1)))) c1
      else if prefix ''stale:'' cmd then
        (case cd_requests c of
           [] \<Rightarrow> Some (C_silent, c)
         | (k, r) # _ \<Rightarrow> answer (verdict_reply (probe_authority (drop 6 cmd) r c)) c)
      else if cmd = ''status'' then answer (reply_body Msg_Info (status_text c)) c
      else Some (C_silent, c))"

definition on_driver_message :: "Peers \<Rightarrow> Message \<Rightarrow> Coordinator \<Rightarrow> (CoordReaction \<times> Coordinator) cpp" where
  "on_driver_message ps m c =
     (if msg_type m = Msg_Shutdown then Some (C_stop, c)
      else if msg_type m = Msg_ProposalResult then on_proposal_result m c
      else if msg_type m = Msg_SubmitRequest then on_submit ps m c
      else if msg_type m = Msg_Info then on_info (msg_body m) c
      else Some (C_silent, c))"

section \<open>Connections and the main loop\<close>

definition hello_role :: "Message \<Rightarrow> u32" where
  "hello_role h = (case msg_u32_fields h of [] \<Rightarrow> 0 | v # _ \<Rightarrow> v)"

definition hello_boot :: "Message \<Rightarrow> u64" where
  "hello_boot h = (case msg_u64_fields h of [] \<Rightarrow> 0 | v # _ \<Rightarrow> v)"

definition all_roles :: "Coordinator \<Rightarrow> bool" where
  "all_roles c \<longleftrightarrow> 0 \<le> cd_proposer_fd c \<and> 0 \<le> cd_verifier_fd c \<and> 0 \<le> cd_driver_fd c"

text \<open>
  The start-up loop on a sequence of accepted connections, each with its first frame if one was
  received: \<open>None\<close> is the exit of the process. The previous boot is recorded when the loop is left.
\<close>

fun await_roles :: "(int \<times> bytes option) list \<Rightarrow> Coordinator \<Rightarrow> Coordinator option" where
  "await_roles [] c = Some c"
| "await_roles ((fd, frame) # conns) c =
     (if all_roles c then Some c
      else if fd < 0 then await_roles conns c
      else case frame of
        None \<Rightarrow> None
      | Some f \<Rightarrow>
          (case decode f of
             Err e \<Rightarrow> await_roles conns c
           | Ok h \<Rightarrow>
               if msg_type h \<noteq> Msg_Hello then await_roles conns c
               else if hello_role h = kRoleProposer then
                 await_roles conns (c\<lparr>cd_proposer_fd := fd, cd_proposer_boot := hello_boot h\<rparr>)
               else if hello_role h = kRoleVerifier then
                 await_roles conns (c\<lparr>cd_verifier_fd := fd, cd_verifier_boot := hello_boot h\<rparr>)
               else if hello_role h = kRoleDriver then await_roles conns (c\<lparr>cd_driver_fd := fd\<rparr>)
               else await_roles conns c))"

definition enter_service :: "Coordinator \<Rightarrow> Coordinator" where
  "enter_service c = c\<lparr>cd_prev_proposer_boot := cd_proposer_boot c\<rparr>"

definition accept_hello :: "int \<Rightarrow> bytes option \<Rightarrow> Coordinator \<Rightarrow> Coordinator" where
  "accept_hello fd frame c =
     (case frame of
        None \<Rightarrow> c
      | Some f \<Rightarrow>
          (case decode f of
             Err e \<Rightarrow> c
           | Ok h \<Rightarrow>
               if msg_type h \<noteq> Msg_Hello then c
               else if hello_role h = kRoleProposer then
                 c\<lparr>cd_prev_proposer_boot := cd_proposer_boot c, cd_proposer_fd := fd, cd_proposer_boot := hello_boot h\<rparr>
               else if hello_role h = kRoleVerifier then c\<lparr>cd_verifier_fd := fd, cd_verifier_boot := hello_boot h\<rparr>
               else if hello_role h = kRoleDriver \<and> cd_driver_fd c < 0 then c\<lparr>cd_driver_fd := fd\<rparr>
               else c))"

text \<open>The loop ends at the first call of \<^verbatim>\<open>accept_conn\<close> that gives a negative descriptor.\<close>

fun drain_accepts :: "(int \<times> bytes option) list \<Rightarrow> Coordinator \<Rightarrow> Coordinator" where
  "drain_accepts [] c = c"
| "drain_accepts ((fd, frame) # conns) c = (if fd < 0 then c else drain_accepts conns (accept_hello fd frame c))"

text \<open>What the driver's socket gives in one iteration: nothing, the end of the connection, or a frame.\<close>

datatype DriverInput = D_none | D_closed | D_frame bytes

definition serve :: "Peers \<Rightarrow> (int \<times> bytes option) list \<Rightarrow> DriverInput \<Rightarrow> Coordinator \<Rightarrow> (CoordReaction \<times> Coordinator) cpp" where
  "serve ps conns inp c0 =
     (let c = drain_accepts conns c0 in
      if cd_driver_fd c < 0 then Some (C_silent, c)
      else case inp of
        D_none \<Rightarrow> Some (C_silent, c)
      | D_closed \<Rightarrow> Some (C_silent, c\<lparr>cd_driver_fd := - 1\<rparr>)
      | D_frame f \<Rightarrow> (case decode f of Err e \<Rightarrow> Some (C_silent, c) | Ok m \<Rightarrow> on_driver_message ps m c))"

inductive coord_step :: "Coordinator \<Rightarrow> Coordinator \<Rightarrow> bool" where
  "serve ps conns inp c = Some (reaction, c') \<Longrightarrow> reaction \<noteq> C_stop \<Longrightarrow> coord_step c c'"

inductive coord_start :: "Coordinator \<Rightarrow> bool" where
  "await_roles conns new_coordinator = Some c \<Longrightarrow> all_roles c \<Longrightarrow> coord_start (enter_service c)"

text \<open>
  \<^verbatim>\<open>main\<close>: how the process stands after the connections accepted at start-up and the given iterations of
  its loop, each with the workers' answers, the connections accepted and the driver's input, and the
  frames it has sent to the driver. Log lines are left out.
\<close>

datatype CoordStatus = Exited int | Waiting Coordinator | InService Coordinator

fun service_loop :: "(Peers \<times> (int \<times> bytes option) list \<times> DriverInput) list \<Rightarrow> Coordinator \<Rightarrow> (CoordStatus \<times> bytes list) cpp" where
  "service_loop [] c = Some (InService c, [])"
| "service_loop ((ps, conns, inp) # its) c =
     do {
       (reaction, c1) \<leftarrow> serve ps conns inp c;
       (case reaction of
          C_stop \<Rightarrow> Some (Exited 0, [])
        | C_silent \<Rightarrow> service_loop its c1
        | C_send bs \<Rightarrow> map_option (\<lambda>(st, sent). (st, bs # sent)) (service_loop its c1))
     }"

definition coordinator_main :: "(u16 \<Rightarrow> SocketCalls) \<Rightarrow> (int \<times> bytes option) list \<Rightarrow>
    (Peers \<times> (int \<times> bytes option) list \<times> DriverInput) list \<Rightarrow> string list \<Rightarrow> (CoordStatus \<times> bytes list) cpp" where
  "coordinator_main os startup its argv =
     (if length argv < 2 then Some (Exited 1, [])
      else do {
        n \<leftarrow> atoi (argv ! 1);
        let (listener, errtext) = listen_port (os (of_int n)) [];
        if listener < 0 then Some (Exited 1, [])
        else case await_roles startup new_coordinator of
          None \<Rightarrow> Some (Exited 1, [])
        | Some c \<Rightarrow> if all_roles c then service_loop its (enter_service c) else Some (Waiting c, [])
      })"

end
