(* ===== verification/SF_CoordinatorProps.thy ===== *)
theory SF_CoordinatorProps
  imports SF_Coordinator
begin

text \<open>
  What the coordinator guarantees: which replies can commit tokens, what a cycle with CPU workers
  commits, what a submitting driver is answered, how authority probes are judged, and the invariant
  of every reachable coordinator state. The workers are arbitrary except where they are named.
\<close>

section \<open>Lemmas on a distributed cycle\<close>

lemma creq_at_put [simp]: "creq_at k (put_creq k' r c) = (if k = k' then r else creq_at k c)"
  by (simp add: creq_at_def put_creq_def map_of_map_put)

lemma put_creq_simps [simp]:
  "cd_proposer_boot (put_creq k r c) = cd_proposer_boot c" "cd_verifier_boot (put_creq k r c) = cd_verifier_boot c"
  "cd_epoch (put_creq k r c) = cd_epoch c" "cd_requests (put_creq k r c) = map_put k r (cd_requests c)"
  by (simp_all add: put_creq_def)

lemma validate_accepts_iff:
  "validate_authority r ep boot att basegen propgen cur = [] \<longleftrightarrow>
     ep = id_get (cq_epoch r) \<and> boot = cur \<and> att = id_get (cq_attempt r) \<and> basegen = id_get (cq_auth_gen r) \<and> propgen = cq_prop_gen r"
  by (auto simp: validate_authority_def kReasonStaleEpoch_def kReasonStaleBoot_def kReasonStaleAttempt_def
      kReasonWrongBase_def kReasonStaleGeneration_def)

text \<open>A result of a proposer that carries the current authority.\<close>

definition authorised :: "CReq \<Rightarrow> u64 \<Rightarrow> Message \<Rightarrow> bool" where
  "authorised r boot m \<longleftrightarrow> 10 \<le> length (msg_u64_fields m) \<and> msg_u64_fields m ! 3 = id_get (cq_epoch r) \<and>
     msg_u64_fields m ! 7 = boot \<and> msg_u64_fields m ! 2 = id_get (cq_attempt r) \<and>
     msg_u64_fields m ! 6 = id_get (cq_auth_gen r) \<and> msg_u64_fields m ! 9 = cq_prop_gen r"

lemma check_proposal_iff: "check_proposal r m boot = Some [] \<longleftrightarrow> authorised r boot m"
  by (auto simp: check_proposal_def authorised_def bind_eq_Some_conv validate_accepts_iff)

lemma remote_branch_result:
  assumes "remote_branch ps c reqid depth branches aligned b r = Some x"
  shows "case x of Inl why \<Rightarrow> \<not> prefix ''ok:'' why
    | Inr br \<Rightarrow> \<exists>pe fr pr. encode (proposal_dispatch c reqid depth branches aligned b r) = Ok pe \<and>
        peer_proposer ps b pe = Received fr \<and> decode fr = Ok pr \<and> authorised r (cd_proposer_boot c) pr \<and>
        cb_toks br = take (unat depth) (drop 2 (msg_u32_fields pr)) \<and> length (cb_toks br) = unat depth \<and>
        cb_branch br = ucast (b + 1)"
proof -
  have ver: "case y of Inl why \<Rightarrow> \<not> prefix ''ok:'' why | Inr br \<Rightarrow> cb_toks br = toks \<and> cb_branch br = ucast (b + 1)"
    if "verify_remote ps c reqid depth b toks r = Some y" for y toks
    using that by (auto simp: verify_remote_def split: bind_splits Reply.splits Result.splits if_splits)
  from assms obtain pe where pe: "encode (proposal_dispatch c reqid depth branches aligned b r) = Ok pe"
    by (auto simp: remote_branch_def split: bind_splits)
  show ?thesis
  proof (cases "peer_proposer ps b pe")
    case (Received fr)
    show ?thesis
    proof (cases "decode fr")
      case (Ok pr)
      from assms pe Received Ok obtain rej where rej: "check_proposal r pr (cd_proposer_boot c) = Some rej"
        by (auto simp: remote_branch_def split: bind_splits)
      show ?thesis
      proof (cases "rej = []")
        case True
        with assms pe Received Ok rej have x: "x = Inl ''proposal non-success'' \<or> (\<exists>toks. vec_range (msg_u32_fields pr) 2 (unat depth) = Some toks \<and>
            verify_remote ps c reqid depth b toks r = Some x)"
          by (auto simp: remote_branch_def split: bind_splits if_splits)
        from True rej have "authorised r (cd_proposer_boot c) pr" by (simp add: check_proposal_iff)
        with x pe Received Ok ver show ?thesis by (fastforce simp: vec_range_def split: sum.splits if_splits)
      qed (use assms pe Received Ok rej in \<open>auto simp: remote_branch_def\<close>)
    qed (use assms pe Received in \<open>auto simp: remote_branch_def\<close>)
  qed (use assms pe in \<open>auto simp: remote_branch_def\<close>)
qed

lemma drive_branches_result:
  assumes "drive_branches ps c reqid depth branches aligned n b r = Some (x, r')"
  shows "\<exists>g. r' = r\<lparr>cq_prop_gen := g\<rparr>"
    and "case x of Inl why \<Rightarrow> \<not> prefix ''ok:'' why
      | Inr brs \<Rightarrow> length brs = n \<and> (\<forall>i<n. remote_branch ps c reqid depth branches aligned (b + of_nat i)
          (r\<lparr>cq_prop_gen := cq_prop_gen r + of_nat (Suc i)\<rparr>) = Some (Inr (brs ! i)))"
proof -
  have "(\<exists>g. r' = r\<lparr>cq_prop_gen := g\<rparr>) \<and> (case x of Inl why \<Rightarrow> \<not> prefix ''ok:'' why
      | Inr brs \<Rightarrow> length brs = n \<and> (\<forall>i<n. remote_branch ps c reqid depth branches aligned (b + of_nat i)
          (r\<lparr>cq_prop_gen := cq_prop_gen r + of_nat (Suc i)\<rparr>) = Some (Inr (brs ! i))))"
    using assms
  proof (induction n arbitrary: b r x r')
    case 0
    then show ?case by (cases r) auto
  next
    case (Suc n)
    let ?r1 = "r\<lparr>cq_prop_gen := cq_prop_gen r + 1\<rparr>"
    from Suc.prems obtain z where z: "remote_branch ps c reqid depth branches aligned b ?r1 = Some z"
      by (auto simp: Let_def split: bind_splits)
    show ?case
    proof (cases z)
      case (Inl why)
      with Suc.prems z remote_branch_result [OF z] show ?thesis by (auto simp: Let_def)
    next
      case (Inr br)
      with Suc.prems z obtain y where y: "drive_branches ps c reqid depth branches aligned n (b + 1) ?r1 = Some (y, r')"
        "x = (case y of Inl why \<Rightarrow> Inl why | Inr brs \<Rightarrow> Inr (br # brs))"
        by (auto simp: Let_def split: bind_splits)
      note ih = Suc.IH [OF y(1)]
      have "\<exists>g. r' = r\<lparr>cq_prop_gen := g\<rparr>" using ih by auto
      moreover have "case x of Inl why \<Rightarrow> \<not> prefix ''ok:'' why
        | Inr brs \<Rightarrow> length brs = Suc n \<and> (\<forall>i<Suc n. remote_branch ps c reqid depth branches aligned (b + of_nat i)
          (r\<lparr>cq_prop_gen := cq_prop_gen r + of_nat (Suc i)\<rparr>) = Some (Inr (brs ! i)))"
      proof (cases y)
        case (Inr brs)
        with ih y(2) z \<open>z = Inr br\<close> show ?thesis
          by (auto simp: less_Suc_eq_0_disj ac_simps)
      qed (use ih y(2) in auto)
      ultimately show ?thesis by blast
    qed
  qed
  then show "\<exists>g. r' = r\<lparr>cq_prop_gen := g\<rparr>"
    and "case x of Inl why \<Rightarrow> \<not> prefix ''ok:'' why
      | Inr brs \<Rightarrow> length brs = n \<and> (\<forall>i<n. remote_branch ps c reqid depth branches aligned (b + of_nat i)
          (r\<lparr>cq_prop_gen := cq_prop_gen r + of_nat (Suc i)\<rparr>) = Some (Inr (brs ! i)))"
    by blast+
qed

definition outdoes :: "Br list \<Rightarrow> nat \<Rightarrow> nat \<Rightarrow> bool" where
  "outdoes brs w i \<longleftrightarrow> cb_accepted (brs ! i) < cb_accepted (brs ! w) \<or>
     cb_accepted (brs ! i) = cb_accepted (brs ! w) \<and> cb_branch (brs ! w) \<le> cb_branch (brs ! i)"

interpretation branches: tournament "\<lambda>w i.
     if cb_accepted (brs ! w) < cb_accepted (brs ! i) \<or>
        (cb_accepted (brs ! i) = cb_accepted (brs ! w) \<and> cb_branch (brs ! i) < cb_branch (brs ! w)) then i else w" "outdoes brs"
  by unfold_locales (auto simp: outdoes_def)

lemma best_branch_winner:
  "brs \<noteq> [] \<Longrightarrow> best_branch brs < length brs \<and> (\<forall>i<length brs. outdoes brs (best_branch brs) i)"
  using branches.winner [of "length brs" brs] by (simp add: best_branch_def)

definition committed_creq :: "u32 list \<Rightarrow> CReq \<Rightarrow> CReq" where
  "committed_creq xs r = r\<lparr>cq_committed := cq_committed r @ xs, cq_auth_gen := StrongId (id_get (cq_auth_gen r) + of_nat (length xs)),
     cq_auth_state := (cq_auth_state r)\<lparr>sr_generation := StrongId (id_get (sr_generation (cq_auth_state r)) + of_nat (length xs))\<rparr>,
     cq_state_gen := StrongId (id_get (sr_generation (cq_auth_state r)) + of_nat (length xs))\<rparr>"

lemma commit_branch_eq:
  "commit_branch win r = (if unat (cb_accepted win) \<le> length (cb_toks win)
     then Some (committed_creq (take (unat (cb_accepted win)) (cb_toks win)) r) else None)"
  by (simp add: commit_branch_def committed_creq_def vec_prefix_def Let_def)

text \<open>The request as a cycle starts on it.\<close>

definition started :: "u32 \<Rightarrow> u32 \<Rightarrow> u32 \<Rightarrow> Coordinator \<Rightarrow> CReq \<Rightarrow> CReq" where
  "started depth branches aligned c r = r\<lparr>cq_depth := depth, cq_branches := branches, cq_aligned := aligned, cq_epoch := cd_epoch c\<rparr>"

lemma drive_cycle_result:
  assumes "drive_cycle ps reqid depth branches aligned c = Some (res, c')"
  shows "\<exists>g xs. c' = put_creq reqid ((if prefix ''ok:'' res then committed_creq xs else (\<lambda>r. r))
        ((started depth branches aligned c (creq_at reqid c))\<lparr>cq_prop_gen := g\<rparr>)) c \<and>
    (prefix ''ok:'' res \<longrightarrow> (\<exists>brs w. length brs = unat branches \<and> w < length brs \<and> (\<forall>i<length brs. outdoes brs w i) \<and>
       xs = take (unat (cb_accepted (brs ! w))) (cb_toks (brs ! w)) \<and> unat (cb_accepted (brs ! w)) \<le> length (cb_toks (brs ! w)) \<and>
       (\<forall>i<length brs. remote_branch ps c reqid depth branches aligned (of_nat i)
          ((started depth branches aligned c (creq_at reqid c))\<lparr>cq_prop_gen := cq_prop_gen (creq_at reqid c) + of_nat (Suc i)\<rparr>) =
          Some (Inr (brs ! i)))))"
proof -
  let ?r0 = "started depth branches aligned c (creq_at reqid c)"
  have gen0: "cq_prop_gen ?r0 = cq_prop_gen (creq_at reqid c)" by (simp add: started_def)
  from assms obtain x r1 where x: "drive_branches ps c reqid depth branches aligned (unat branches) 0 ?r0 = Some (x, r1)"
    by (auto simp: drive_cycle_def Let_def started_def split: bind_splits)
  note d = drive_branches_result [OF x]
  from d(1) obtain g where g: "r1 = ?r0\<lparr>cq_prop_gen := g\<rparr>" by blast
  show ?thesis
  proof (cases x)
    case (Inl why)
    with assms x have "res = why" "c' = put_creq reqid r1 c" by (simp_all add: drive_cycle_def Let_def started_def)
    moreover have "\<not> prefix ''ok:'' why" using d(2) Inl by simp
    ultimately show ?thesis unfolding g by (intro exI [of _ g]) simp
  next
    case (Inr brs)
    let ?w = "best_branch brs"
    from assms x Inr have w: "?w < length brs" "unat (cb_accepted (brs ! ?w)) \<le> length (cb_toks (brs ! ?w))"
      and c': "c' = put_creq reqid (committed_creq (take (unat (cb_accepted (brs ! ?w))) (cb_toks (brs ! ?w))) r1) c"
      and res: "prefix ''ok:'' res"
      by (auto simp: drive_cycle_def Let_def started_def commit_branch_eq split: bind_splits if_splits)
    let ?xs = "take (unat (cb_accepted (brs ! ?w))) (cb_toks (brs ! ?w))"
    have best: "\<forall>i<length brs. outdoes brs ?w i" using w(1) best_branch_winner [of brs] by (cases brs) simp_all
    have runs: "length brs = unat branches" "\<forall>i<length brs. remote_branch ps c reqid depth branches aligned (of_nat i)
        (?r0\<lparr>cq_prop_gen := cq_prop_gen (creq_at reqid c) + of_nat (Suc i)\<rparr>) = Some (Inr (brs ! i))"
      using d(2) Inr gen0 by simp_all
    have "c' = put_creq reqid ((if prefix ''ok:'' res then committed_creq ?xs else (\<lambda>r. r)) (?r0\<lparr>cq_prop_gen := g\<rparr>)) c"
      using c' res g by simp
    with runs(1) w(1) best w(2) runs(2) show ?thesis by (intro exI conjI impI) (assumption | rule refl)+
  qed
qed

section \<open>Properties of the coordinator\<close>

text \<open>
  C13 (distributed_commit_authorised): whatever the workers answer, a distributed cycle leaves all other
  requests alone and either commits nothing, or appends tokens of one proposal result that carries
  the request's current epoch, attempt and base generation, the boot identifier of the connected
  proposer and the generation of that branch's dispatch; both generations then advance by the number of
  tokens appended.
\<close>

theorem distributed_commit_authorised:
  assumes "drive_cycle ps reqid depth branches aligned c = Some (res, c')"
    and "r = creq_at reqid c" and "r' = creq_at reqid c'"
  shows "(\<forall>k. k \<noteq> reqid \<longrightarrow> creq_at k c' = creq_at k c) \<and>
    (\<exists>xs. cq_committed r' = cq_committed r @ xs \<and> id_get (cq_auth_gen r') = id_get (cq_auth_gen r) + of_nat (length xs) \<and>
       id_get (sr_generation (cq_auth_state r')) = id_get (sr_generation (cq_auth_state r)) + of_nat (length xs) \<and>
       (xs \<noteq> [] \<longrightarrow> prefix ''ok:'' res \<and> (\<exists>b pe fr pr. b < unat branches \<and> peer_proposer ps (of_nat b) pe = Received fr \<and>
          decode fr = Ok pr \<and> prefix xs (drop 2 (msg_u32_fields pr)) \<and> length xs \<le> unat depth \<and>
          authorised (r\<lparr>cq_epoch := cd_epoch c, cq_prop_gen := cq_prop_gen r + of_nat (Suc b)\<rparr>) (cd_proposer_boot c) pr)))"
proof (cases "prefix ''ok:'' res")
  case False
  with drive_cycle_result [OF assms(1)] show ?thesis
    unfolding assms(2,3) by (auto simp: started_def)
next
  case True
  from drive_cycle_result [OF assms(1)] True obtain g xs brs w where
    c': "c' = put_creq reqid (committed_creq xs ((started depth branches aligned c r)\<lparr>cq_prop_gen := g\<rparr>)) c"
    and w: "length brs = unat branches" "w < length brs" and xs: "xs = take (unat (cb_accepted (brs ! w))) (cb_toks (brs ! w))"
    and b: "remote_branch ps c reqid depth branches aligned (of_nat w)
          ((started depth branches aligned c r)\<lparr>cq_prop_gen := cq_prop_gen r + of_nat (Suc w)\<rparr>) = Some (Inr (brs ! w))"
    unfolding assms(2) by auto
  from remote_branch_result [OF b] obtain pe fr pr where
    p: "peer_proposer ps (of_nat w) pe = Received fr" "decode fr = Ok pr"
      "authorised ((started depth branches aligned c r)\<lparr>cq_prop_gen := cq_prop_gen r + of_nat (Suc w)\<rparr>) (cd_proposer_boot c) pr"
      "cb_toks (brs ! w) = take (unat depth) (drop 2 (msg_u32_fields pr))" by auto
  have "prefix xs (drop 2 (msg_u32_fields pr))" "length xs \<le> unat depth"
    unfolding xs p(4) take_take by (simp_all add: take_is_prefix)
  moreover have "authorised (r\<lparr>cq_epoch := cd_epoch c, cq_prop_gen := cq_prop_gen r + of_nat (Suc w)\<rparr>) (cd_proposer_boot c) pr"
    using p(3) by (simp add: authorised_def started_def)
  moreover have "r' = committed_creq xs ((started depth branches aligned c r)\<lparr>cq_prop_gen := g\<rparr>)" "\<forall>k. k \<noteq> reqid \<longrightarrow> creq_at k c' = creq_at k c"
    unfolding assms(3) c' by simp_all
  ultimately show ?thesis using True w p(1,2) by (auto simp: committed_creq_def started_def)
qed

section \<open>A cycle with CPU workers\<close>

text \<open>
  What the coordinator receives from a CPU worker it has sent a frame to. A worker that ignores the
  frame or stops sends nothing. A worker whose behaviour is undefined may send anything: what the
  coordinator gets then is the parameter \<open>lost\<close>, and the lemmas hold for each.
\<close>

definition worker_exchange :: "(bytes \<Rightarrow> Reply) \<Rightarrow> bytes \<Rightarrow> Reply" where
  "worker_exchange lost frame =
     (case worker_handle frame of
        None \<Rightarrow> lost frame
      | Some (W_send bs) \<Rightarrow> Received bs
      | Some W_ignore \<Rightarrow> RecvFailed
      | Some W_stop \<Rightarrow> RecvFailed)"

definition cpu_peers :: "(bytes \<Rightarrow> Reply) \<Rightarrow> Peers" where
  "cpu_peers lost = \<lparr>peer_proposer = (\<lambda>b. worker_exchange lost), peer_verifier = (\<lambda>b. worker_exchange lost)\<rparr>"

definition silent :: "bytes \<Rightarrow> Reply" where
  "silent frame = RecvFailed"

definition coord_seed :: "CReq \<Rightarrow> u32 \<Rightarrow> u64" where
  "coord_seed r depth = proposal_seed (default_ProposalInput\<lparr>pin_base_state := cq_auth_state r,
     pin_base_generation := cq_auth_gen r, pin_depth := depth,
     pin_provenance := default_ProposalProvenance\<lparr>pv_proposer_model := default_ModelIdentity\<lparr>mi_revision := StrongId 1\<rparr>\<rparr>\<rparr>)"

lemma cpu_peers_simps [simp]: "peer_proposer (cpu_peers lost) b = worker_exchange lost" "peer_verifier (cpu_peers lost) b = worker_exchange lost"
  by (simp_all add: cpu_peers_def)

lemma coord_seed_update [simp]: "coord_seed (r\<lparr>cq_prop_gen := g\<rparr>) depth = coord_seed r depth"
  by (simp add: coord_seed_def)

lemma dispatch_encoded:
  assumes "length toks \<le> 61"
  obtains pe ve where "encode (proposal_dispatch c reqid depth branches aligned b r) = Ok pe"
    "decode pe = Ok (proposal_dispatch c reqid depth branches aligned b r)"
    "encode (verification_dispatch c reqid depth b toks r) = Ok ve" "decode ve = Ok (verification_dispatch c reqid depth b toks r)"
proof -
  have "in_limits (proposal_dispatch c reqid depth branches aligned b r)" "in_limits (verification_dispatch c reqid depth b toks r)"
    using assms by (simp_all add: in_limits_def msg_valid_def proposal_dispatch_def verification_dispatch_def default_Message_def)
  then show thesis using that decode_encode encode_Ok_iff by blast
qed

lemma proposer_answers:
  fixes aligned :: u32
  assumes "0 < unat depth" and "unat depth \<le> 61"
  defines "k \<equiv> min (unat aligned) (unat depth)"
  obtains pe fr pr toks where "encode (proposal_dispatch c reqid depth branches aligned b r) = Ok pe"
    "worker_exchange lost pe = Received fr" "decode fr = Ok pr" "authorised r (cd_proposer_boot c) pr"
    "msg_u32_fields pr = [kOutcomeSuccess, depth] @ toks" "length toks = unat depth"
    "take k toks = take k (target_sequence (coord_seed r depth) (unat depth))" "toks = cpu_draft (coord_seed r depth) depth aligned b"
proof -
  let ?m = "proposal_dispatch c reqid depth branches aligned b r"
  obtain pe where pe: "encode ?m = Ok pe" "decode pe = Ok ?m" by (rule dispatch_encoded [of "[]"]) auto
  obtain d where d: "pd_fields ?m = Some d" "pd_epoch d = id_get (cq_epoch r)" "pd_proposer_boot d = cd_proposer_boot c"
    "pd_attempt d = id_get (cq_attempt r)" "pd_base_gen d = id_get (cq_auth_gen r)" "pd_propogen d = cq_prop_gen r"
    "pd_base_state_id d = id_get (sr_id (cq_auth_state r))" "pd_base_state_gen d = id_get (sr_generation (cq_auth_state r))"
    "pd_proposer_rev d = 1" "pd_branch d = ucast b"
    by (simp add: pd_fields_def proposal_dispatch_def)
  have m: "msg_type ?m = Msg_ProposalDispatch" "msg_u32_fields ?m = [depth, aligned, branches]" by (simp_all add: proposal_dispatch_def)
  have "unat depth \<le> 62" using assms(2) by simp
  then obtain bs pr toks ns where
    h: "worker_handle pe = Some (W_send bs)" "decode bs = Ok pr"
      "msg_u64_fields pr = [pd_request d, pd_sequence d, pd_attempt d, pd_epoch d, pd_dispatch d, pd_branch d,
         pd_base_gen d, pd_proposer_boot d, pd_proposer_rev d, pd_propogen d, ns]"
      "msg_u32_fields pr = [kOutcomeSuccess, depth] @ toks" "length toks = unat depth"
      "take k toks = take k (target_sequence (proposal_seed (worker_proposal_input d depth branches)) (unat depth))"
      "toks = cpu_draft (proposal_seed (worker_proposal_input d depth branches)) depth aligned (ucast (pd_branch d))"
    unfolding k_def by (rule worker_drafts [OF pe(2) m(1) d(1) m(2) assms(1)])
  have seed: "proposal_seed (worker_proposal_input d depth branches) = coord_seed r depth"
    by (simp add: coord_seed_def worker_proposal_input_def proposal_seed_def d)
  have auth: "authorised r (cd_proposer_boot c) pr" by (simp add: authorised_def h(3) d)
  have ex: "worker_exchange lost pe = Received bs" using h(1) by (simp add: worker_exchange_def)
  have "(ucast (ucast b :: u64) :: u32) = b" by (rule bit_word_eqI) (simp add: bit_unsigned_iff)
  then show thesis using that [OF pe(1) ex h(2) auth h(4,5)] h(6,7) seed d(10) by simp
qed

lemma verifier_answers:
  fixes r :: CReq
  assumes "0 < unat depth" and "unat depth \<le> 61" and "length toks = unat depth"
  defines "es \<equiv> target_sequence (coord_seed r depth) (unat depth)"
  obtains ve fr vr code first where "encode (verification_dispatch c reqid depth b toks r) = Ok ve"
    "worker_exchange lost ve = Received fr" "decode fr = Ok vr" "check_verification r vr (cd_verifier_boot c) = Some []"
    "msg_u32_fields vr = [code, of_nat (agreements es toks), depth, first]"
proof -
  let ?m = "verification_dispatch c reqid depth b toks r"
  obtain ve where ve: "encode ?m = Ok ve" "decode ve = Ok ?m" by (rule dispatch_encoded [of toks]) (use assms(2,3) in auto)
  obtain d where d: "vd_fields ?m = Some d" "vd_epoch d = id_get (cq_epoch r)" "vd_attempt d = id_get (cq_attempt r)"
    "vd_base_gen d = id_get (cq_auth_gen r)" "vd_state_id d = id_get (sr_id (cq_auth_state r))"
    "vd_state_gen d = id_get (sr_generation (cq_auth_state r))" "vd_proposer_rev d = 1"
    by (simp add: vd_fields_def verification_dispatch_def)
  have m: "msg_type ?m = Msg_VerificationDispatch" "msg_u32_fields ?m = [9, 4096, depth] @ toks" by (simp_all add: verification_dispatch_def)
  let ?v = "worker_verification_input d 9 4096 toks"
  obtain bs vr a where h: "worker_handle ve = Some (W_send bs)" "decode bs = Ok vr" "cpu_verify ?v = Ok a"
    "msg_u64_fields vr = [vd_request d, vd_sequence d, vd_attempt d, vd_epoch d, vd_base_gen d, vd_dispatch d, vd_state_id d, vd_state_gen d]"
    "msg_u32_fields vr = [acceptance_code (Ok a), acc_accepted_prefix a, depth, acc_first_rejection_index a]"
    by (rule worker_verifies [OF ve(2) m(1) d(1) m(2) assms(3,1)]) auto
  have cand: "vin_candidate ?v = \<lparr>cs_tokens = map mk_token toks\<rparr>" by (simp add: worker_verification_input_def)
  have ids: "cs_ids (vin_candidate ?v) = toks" "cs_size (vin_candidate ?v) = unat depth"
    using assms(3) by (simp_all add: cand cs_ids_def cs_size_def mk_token_def o_def)
  have ready: "ready_to_verify ?v"
    using assms(1,3) by (auto simp: ready_to_verify_def worker_verification_input_def cs_empty_def null_id_def)
  have seed: "verification_seed ?v = coord_seed r depth"
    using ids(2) by (simp add: verification_seed_def coord_seed_def proposal_seed_def worker_verification_input_def d)
  have n: "unat (of_nat (cs_size (vin_candidate ?v)) :: u32) = unat depth" using ids(2) by simp
  have tk: "take (unat depth) (cs_ids (vin_candidate ?v)) = toks" using ids assms(3) by simp
  have "acc_accepted_prefix a = of_nat (agreements es toks)"
    using cpu_verify_ready [OF ready, unfolded n tk seed] h(3) by (metis Result.inject(1) es_def)
  moreover have "check_verification r vr (cd_verifier_boot c) = Some []"
    by (simp add: check_verification_def vec_at_def h(4) d validate_accepts_iff)
  moreover have "worker_exchange lost ve = Received bs" using h(1) by (simp add: worker_exchange_def)
  ultimately show thesis using that [OF ve(1) _ h(2)] h(5) by simp
qed

lemma cpu_remote_branch:
  fixes r :: CReq and aligned :: u32
  assumes "0 < unat depth" and "unat depth \<le> 61"
  defines "k \<equiv> min (unat aligned) (unat depth)" and "es \<equiv> target_sequence (coord_seed r depth) (unat depth)"
  obtains br where "remote_branch (cpu_peers lost) c reqid depth branches aligned b r = Some (Inr br)" "length (cb_toks br) = unat depth"
    "take k (cb_toks br) = take k es" "unat (cb_accepted br) = agreements es (cb_toks br)"
    "cb_toks br = cpu_draft (coord_seed r depth) depth aligned b"
proof -
  obtain pe fr pr toks where p: "encode (proposal_dispatch c reqid depth branches aligned b r) = Ok pe"
    "worker_exchange lost pe = Received fr" "decode fr = Ok pr" "authorised r (cd_proposer_boot c) pr"
    "msg_u32_fields pr = [kOutcomeSuccess, depth] @ toks" "length toks = unat depth"
    "take k toks = take k es" "toks = cpu_draft (coord_seed r depth) depth aligned b"
    unfolding k_def es_def by (rule proposer_answers [OF assms(1,2)])
  obtain ve fr' vr code first where v: "encode (verification_dispatch c reqid depth b toks r) = Ok ve"
    "worker_exchange lost ve = Received fr'" "decode fr' = Ok vr" "check_verification r vr (cd_verifier_boot c) = Some []"
    "msg_u32_fields vr = [code, of_nat (agreements es toks), depth, first]"
    unfolding es_def by (rule verifier_answers [OF assms(1,2) p(6)])
  let ?br = "\<lparr>cb_branch = ucast (b + 1), cb_toks = toks, cb_depth = depth, cb_accepted = of_nat (agreements es toks),
    cb_firstrej = first, cb_outcome = code\<rparr>"
  have ver: "verify_remote (cpu_peers lost) c reqid depth b toks r = Some (Inr ?br)"
    by (simp add: verify_remote_def v vec_at_def)
  have "remote_branch (cpu_peers lost) c reqid depth branches aligned b r = Some (Inr ?br)"
    using ver p(4,6) by (simp add: remote_branch_def p(1-3,5) check_proposal_iff [symmetric] vec_at_def vec_range_def)
  moreover have "agreements es toks < 2 ^ 32" using agreements_le [of es toks] p(6) assms(2) by simp
  ultimately show thesis using that [of ?br] p(6-8) by (simp add: unat_of_nat take_bit_eq_mod)
qed

text \<open>The loop over the branches, with a property every branch has.\<close>

lemma drive_branches_total:
  assumes "\<And>b g. \<exists>br. remote_branch ps c reqid depth branches aligned b (r\<lparr>cq_prop_gen := g\<rparr>) = Some (Inr br) \<and> P b br"
  shows "\<exists>brs g. drive_branches ps c reqid depth branches aligned n b (r\<lparr>cq_prop_gen := g0\<rparr>) =
    Some (Inr brs, r\<lparr>cq_prop_gen := g\<rparr>) \<and> length brs = n \<and> (\<forall>i<n. P (b + of_nat i) (brs ! i))"
proof (induction n arbitrary: b g0)
  case (Suc n)
  obtain brs g where ih: "drive_branches ps c reqid depth branches aligned n (b + 1) (r\<lparr>cq_prop_gen := g0 + 1\<rparr>) =
      Some (Inr brs, r\<lparr>cq_prop_gen := g\<rparr>)" "length brs = n" "\<forall>i<n. P (b + 1 + of_nat i) (brs ! i)"
    using Suc.IH [of "b + 1" "g0 + 1"] by blast
  obtain br where br: "remote_branch ps c reqid depth branches aligned b (r\<lparr>cq_prop_gen := g0 + 1\<rparr>) = Some (Inr br)" "P b br"
    using assms by blast
  have "\<forall>i<Suc n. P (b + of_nat i) ((br # brs) ! i)" using ih(3) br(2) by (auto simp: less_Suc_eq_0_disj ac_simps)
  with ih(1,2) br(1) show ?case by (intro exI [of _ "br # brs"] exI [of _ g]) (simp add: Let_def)
qed auto

lemma started_update: "started depth branches aligned c r = (started depth branches aligned c r)\<lparr>cq_prop_gen := cq_prop_gen r\<rparr>"
  by (simp add: started_def)

lemma cpu_cycle:
  assumes "0 < unat depth" and "unat depth \<le> 61" and "0 < unat branches" and "m = min (unat aligned) (unat depth)"
    and "r = creq_at reqid c" and "es = target_sequence (coord_seed r depth) (unat depth)"
  shows "\<exists>res c' xs. drive_cycle (cpu_peers lost) reqid depth branches aligned c = Some (res, c') \<and> prefix ''ok:'' res \<and>
    cq_committed (creq_at reqid c') = cq_committed r @ xs \<and> m \<le> length xs \<and> length xs \<le> unat depth \<and> take m xs = take m es \<and>
    id_get (cq_auth_gen (creq_at reqid c')) = id_get (cq_auth_gen r) + of_nat (length xs) \<and>
    length xs = best_agreement (coord_seed r depth) depth branches aligned \<and> (unat depth \<le> unat aligned \<longrightarrow> xs = es)"
proof -
  let ?r0 = "started depth branches aligned c r"
  have seed: "coord_seed (?r0\<lparr>cq_prop_gen := g\<rparr>) depth = coord_seed r depth" for g by (simp add: coord_seed_def started_def)
  let ?P = "\<lambda>b br. cb_toks br = cpu_draft (coord_seed r depth) depth aligned b \<and> length (cb_toks br) = unat depth \<and> take m (cb_toks br) = take m es \<and>
      unat (cb_accepted br) = agreements es (cb_toks br)"
  have "\<exists>br. remote_branch (cpu_peers lost) c reqid depth branches aligned b (?r0\<lparr>cq_prop_gen := g\<rparr>) = Some (Inr br) \<and> ?P b br" for b g
    unfolding assms(4,6) by (rule cpu_remote_branch [OF assms(1,2), where r = "?r0\<lparr>cq_prop_gen := g\<rparr>" and aligned = aligned, unfolded seed]) blast
  from drive_branches_total [where r = ?r0 and P = ?P and n = "unat branches" and b = 0 and ?g0.0 = "cq_prop_gen r", OF this] obtain brs g where
    d: "drive_branches (cpu_peers lost) c reqid depth branches aligned (unat branches) 0 ?r0 = Some (Inr brs, ?r0\<lparr>cq_prop_gen := g\<rparr>)"
    and brs: "length brs = unat branches" "\<forall>i<unat branches. ?P (of_nat i) (brs ! i)"
    unfolding started_update [symmetric] by auto
  let ?win = "brs ! best_branch brs"
  have "brs \<noteq> []" using brs(1) assms(3) by auto
  then have w: "best_branch brs < length brs" "\<forall>i<length brs. outdoes brs (best_branch brs) i" using best_branch_winner by blast+
  with brs(2) have P: "length (cb_toks ?win) = unat depth \<and> take m (cb_toks ?win) = take m es \<and>
      unat (cb_accepted ?win) = agreements es (cb_toks ?win)" unfolding brs(1) by blast
  have acc: "unat (cb_accepted (brs ! i)) = branch_agreement (coord_seed r depth) depth aligned (of_nat i)" if "i < unat branches" for i
    using brs(2) that by (simp add: branch_agreement_def assms(6))
  have "unat (cb_accepted (brs ! i)) \<le> unat (cb_accepted ?win)" if "i < unat branches" for i
    using w(2) that brs(1) unfolding outdoes_def word_less_nat_alt by fastforce
  then have best: "unat (cb_accepted ?win) = best_agreement (coord_seed r depth) depth branches aligned"
    using best_agreement_eq [of "best_branch brs" branches "coord_seed r depth" depth aligned] w(1) brs(1) acc by simp
  have len: "unat (cb_accepted ?win) \<le> length (cb_toks ?win)" using P agreements_le [of es "cb_toks ?win"] by simp
  let ?xs = "take (unat (cb_accepted ?win)) (cb_toks ?win)"
  have "\<exists>res. drive_cycle (cpu_peers lost) reqid depth branches aligned c =
      Some (res, put_creq reqid (committed_creq ?xs (?r0\<lparr>cq_prop_gen := g\<rparr>)) c) \<and> prefix ''ok:'' res"
    using d w(1) len by (auto simp: drive_cycle_def Let_def assms(5) started_def commit_branch_eq vec_at_def)
  then obtain res where res: "drive_cycle (cpu_peers lost) reqid depth branches aligned c =
      Some (res, put_creq reqid (committed_creq ?xs (?r0\<lparr>cq_prop_gen := g\<rparr>)) c)" "prefix ''ok:'' res" by blast
  have les: "length es = unat depth" by (simp add: assms(6))
  have mle: "m \<le> unat (cb_accepted ?win)"
    using agree_prefix_ge [of m es "cb_toks ?win"] agree_prefix_le_agreements [of es "cb_toks ?win"] P les assms(4) by simp
  then have "take m ?xs = take m es" "m \<le> length ?xs" "length ?xs \<le> unat depth" using P len by (simp_all add: min_absorb1)
  moreover have "?xs = es" if "unat depth \<le> unat aligned"
  proof -
    have "m = unat depth" using that assms(4) by simp
    with P les have "cb_toks ?win = es" by (metis order_refl take_all)
    with P les show ?thesis using agreements_full [of es es] by simp
  qed
  moreover have "cq_committed (creq_at reqid (put_creq reqid (committed_creq ?xs (?r0\<lparr>cq_prop_gen := g\<rparr>)) c)) = cq_committed r @ ?xs"
    "id_get (cq_auth_gen (creq_at reqid (put_creq reqid (committed_creq ?xs (?r0\<lparr>cq_prop_gen := g\<rparr>)) c))) = id_get (cq_auth_gen r) + of_nat (length ?xs)"
    by (simp_all add: committed_creq_def started_def)
  moreover have "length ?xs = best_agreement (coord_seed r depth) depth branches aligned" using best len by simp
  ultimately show ?thesis using res by blast
qed

text \<open>
  C12 (distributed_cycle_cpu): with the CPU workers answering through the wire format, a submission of
  depth 1 to 61 with at least one branch is driven to a commit: the committed sequence grows by at
  least the aligned part of the draft, which is the target model's own sequence; the number of tokens
  is the largest number of positions in which a branch agrees with the target, the generation advances
  by it, and with a draft that is aligned throughout exactly the target
  sequence is appended. It holds whatever a worker with undefined behaviour would send.
\<close>

theorem distributed_cycle_cpu:
  assumes "0 < unat depth" and "unat depth \<le> 61" and "0 < unat branches" and "m = min (unat aligned) (unat depth)"
    and "r = creq_at reqid c" and "es = target_sequence (coord_seed r depth) (unat depth)"
  shows "\<exists>res c' xs. drive_cycle (cpu_peers lost) reqid depth branches aligned c = Some (res, c') \<and> prefix ''ok:'' res \<and>
    cq_committed (creq_at reqid c') = cq_committed r @ xs \<and> m \<le> length xs \<and> length xs \<le> unat depth \<and> take m xs = take m es \<and>
    id_get (cq_auth_gen (creq_at reqid c')) = id_get (cq_auth_gen r) + of_nat (length xs) \<and>
    length xs = best_agreement (coord_seed r depth) depth branches aligned \<and> (unat depth \<le> unat aligned \<longrightarrow> xs = es)"
  using cpu_cycle [OF assms] .

definition sample_coordinator :: Coordinator where
  "sample_coordinator = put_creq 5 (submitted_creq 5 new_coordinator) (new_coordinator\<lparr>cd_proposer_boot := 71\<rparr>)"

lemma sample_coordinator_committed: "cq_committed (creq_at 5 sample_coordinator) = []"
  by (simp add: sample_coordinator_def submitted_creq_def)

lemma sample_sizes: "0 < unat (4 :: u32)" "unat (4 :: u32) \<le> 61" "0 < unat (1 :: u32)" "unat (4 :: u32) \<le> unat (4 :: u32)"
  by simp_all

theorem distributed_cycle_cpu_witness:
  "\<exists>res c'. drive_cycle (cpu_peers silent) 5 4 1 4 sample_coordinator = Some (res, c') \<and> prefix ''ok:'' res \<and>
     cq_committed (creq_at 5 c') = target_sequence (coord_seed (creq_at 5 sample_coordinator) 4) (unat (4 :: u32))"
proof -
  obtain res c' xs where "drive_cycle (cpu_peers silent) 5 4 1 4 sample_coordinator = Some (res, c')" "prefix ''ok:'' res"
    "cq_committed (creq_at 5 c') = cq_committed (creq_at 5 sample_coordinator) @ xs"
    "xs = target_sequence (coord_seed (creq_at 5 sample_coordinator) 4) (unat (4 :: u32))"
    using distributed_cycle_cpu [OF sample_sizes(1-3) refl refl refl, of silent 5 4 sample_coordinator] sample_sizes(4) by blast
  then show ?thesis unfolding sample_coordinator_committed append_Nil by blast
qed

theorem distributed_commit_authorised_witness:
  "\<exists>res c' b pe fr pr. drive_cycle (cpu_peers silent) 5 4 1 4 sample_coordinator = Some (res, c') \<and>
     cq_committed (creq_at 5 c') \<noteq> [] \<and> peer_proposer (cpu_peers silent) b pe = Received fr \<and> decode fr = Ok pr \<and>
     prefix (cq_committed (creq_at 5 c')) (drop 2 (msg_u32_fields pr)) \<and> msg_u64_fields pr ! 7 = 71"
proof -
  obtain res c' xs where c': "drive_cycle (cpu_peers silent) 5 4 1 4 sample_coordinator = Some (res, c')"
    "cq_committed (creq_at 5 c') = cq_committed (creq_at 5 sample_coordinator) @ xs"
    "xs = target_sequence (coord_seed (creq_at 5 sample_coordinator) 4) (unat (4 :: u32))"
    using cpu_cycle [OF sample_sizes(1-3) refl refl refl, of silent 5 4 sample_coordinator] sample_sizes(4) by blast
  have xs: "xs \<noteq> []" "cq_committed (creq_at 5 c') = xs"
    using sample_sizes(1) c'(2) length_target_sequence [of "coord_seed (creq_at 5 sample_coordinator) 4" "unat (4 :: u32)"]
    unfolding sample_coordinator_committed c'(3) by (metis less_numeral_extra(3) list.size(3), simp)
  have boot: "cd_proposer_boot sample_coordinator = 71" by (simp add: sample_coordinator_def)
  let ?r = "creq_at 5 sample_coordinator"
  from distributed_commit_authorised [OF c'(1) refl refl] obtain ys where
    ys: "cq_committed (creq_at 5 c') = cq_committed ?r @ ys"
    and imp: "ys \<noteq> [] \<longrightarrow> prefix ''ok:'' res \<and> (\<exists>b pe fr pr. b < unat (1 :: u32) \<and> peer_proposer (cpu_peers silent) (of_nat b) pe = Received fr \<and>
       decode fr = Ok pr \<and> prefix ys (drop 2 (msg_u32_fields pr)) \<and> length ys \<le> unat (4 :: u32) \<and>
       authorised (?r\<lparr>cq_epoch := cd_epoch sample_coordinator, cq_prop_gen := cq_prop_gen ?r + of_nat (Suc b)\<rparr>)
         (cd_proposer_boot sample_coordinator) pr)"
    by (elim conjE exE) (rule that)
  have "ys = xs" using ys xs(2) unfolding sample_coordinator_committed append_Nil by simp
  with imp xs(1) obtain b pe fr pr g where "peer_proposer (cpu_peers silent) (of_nat b) pe = Received fr" "decode fr = Ok pr"
    "prefix xs (drop 2 (msg_u32_fields pr))" "authorised (?r\<lparr>cq_epoch := cd_epoch sample_coordinator, cq_prop_gen := g\<rparr>)
         (cd_proposer_boot sample_coordinator) pr" by blast
  moreover from this have "msg_u64_fields pr ! 7 = 71" by (simp add: authorised_def boot)
  ultimately show ?thesis using c'(1) xs(1) unfolding xs(2) [symmetric] by blast
qed

section \<open>The coordinator as a process\<close>

lemma answer_encoded:
  assumes "in_limits m"
  obtains bs where "answer m c = Some (C_send bs, c)" "decode bs = Ok m"
proof -
  obtain bs where bs: "encode m = Ok bs" using assms encode_Ok_iff by blast
  then show thesis using that decode_encode [OF bs] by (simp add: answer_def)
qed

lemma put_creq_again: "put_creq k r (put_creq k r' c) = put_creq k r c"
  by (simp add: put_creq_def map_put_again)

text \<open>The seed of a new submission.\<close>

definition fresh_seed :: "u64 \<Rightarrow> u32 \<Rightarrow> u64" where
  "fresh_seed reqid depth = coord_seed (submitted_creq reqid new_coordinator) depth"

text \<open>The answer to a submission, and the coordinator after it.\<close>

lemma submit_answered:
  assumes "msg_u64_fields m = reqid # more64" and "msg_u32_fields m = depth # branches # aligned # more32"
    and "0 < unat depth" and "unat depth \<le> 61" and "0 < unat branches"
  obtains bs r' where "on_submit (cpu_peers lost) m c = Some (C_send bs, put_creq reqid r' c)"
    "decode bs = Ok (default_Message\<lparr>msg_type := Msg_Commit,
       msg_u64_fields := [reqid, of_nat (length (cq_committed r')), of_nat (length (cq_committed r'))]\<rparr>)"
    "min (unat aligned) (unat depth) \<le> length (cq_committed r')" "length (cq_committed r') \<le> unat depth" "cq_epoch r' = cd_epoch c"
    "length (cq_committed r') = best_agreement (fresh_seed reqid depth) depth branches aligned"
proof -
  let ?c = "put_creq reqid (submitted_creq reqid c) c"
  obtain res c' xs where d: "drive_cycle (cpu_peers lost) reqid depth branches aligned ?c = Some (res, c')" "prefix ''ok:'' res"
    "cq_committed (creq_at reqid c') = cq_committed (creq_at reqid ?c) @ xs" "min (unat aligned) (unat depth) \<le> length xs"
    "length xs \<le> unat depth" "id_get (cq_auth_gen (creq_at reqid c')) = id_get (cq_auth_gen (creq_at reqid ?c)) + of_nat (length xs)"
    "length xs = best_agreement (coord_seed (creq_at reqid ?c) depth) depth branches aligned"
    using cpu_cycle [OF assms(3-5) refl refl refl, of lost reqid aligned ?c] by blast
  have xs: "cq_committed (creq_at reqid c') = xs" "id_get (cq_auth_gen (creq_at reqid c')) = of_nat (length xs)"
    using d(3,6) by (simp_all add: submitted_creq_def)
  obtain g ys where "c' = put_creq reqid (committed_creq ys
      ((started depth branches aligned ?c (creq_at reqid ?c))\<lparr>cq_prop_gen := g\<rparr>)) ?c"
    using drive_cycle_result [OF d(1)] d(2) by auto
  then have c': "c' = put_creq reqid (creq_at reqid c') c" "cq_epoch (creq_at reqid c') = cd_epoch c"
    by (simp_all add: put_creq_again committed_creq_def started_def)
  let ?m = "default_Message\<lparr>msg_type := Msg_Commit, msg_u64_fields := [reqid, of_nat (length xs), of_nat (length xs)]\<rparr>"
  obtain bs where bs: "answer ?m c' = Some (C_send bs, c')" "decode bs = Ok ?m"
    by (rule answer_encoded [of ?m]) (auto simp: in_limits_def msg_valid_def default_Message_def)
  have "on_submit (cpu_peers lost) m c = Some (C_send bs, c')"
    using assms(1,2) d(1,2) bs(1) xs by (simp add: on_submit_def vec_at_def Let_def)
  moreover have "coord_seed (creq_at reqid ?c) depth = fresh_seed reqid depth" by (simp add: fresh_seed_def coord_seed_def submitted_creq_def)
  ultimately show thesis using that [of bs "creq_at reqid c'"] bs(2) d(4,5,7) c' xs(1) by simp
qed

text \<open>
  C30 (submission_served): a connected driver that submits a request of depth 1 to 61 with at least one
  branch gets a commit message, when CPU workers serve the coordinator: the message names the request,
  its new generation and the number of its committed tokens, which is at least the aligned part of
  the draft, whatever a worker with undefined behaviour would send. Tokens committed for an earlier
  submission under the same identifier are gone.
\<close>

theorem submission_served:
  assumes "0 \<le> cd_driver_fd c" and "decode f = Ok m" and "msg_type m = Msg_SubmitRequest"
    and "msg_u64_fields m = reqid # more64" and "msg_u32_fields m = depth # branches # aligned # more32"
    and "0 < unat depth" and "unat depth \<le> 61" and "0 < unat branches"
  shows "\<exists>bs c' n. serve (cpu_peers lost) [] (D_frame f) c = Some (C_send bs, c') \<and>
    decode bs = Ok (default_Message\<lparr>msg_type := Msg_Commit, msg_u64_fields := [reqid, of_nat n, of_nat n]\<rparr>) \<and>
    n = length (cq_committed (creq_at reqid c')) \<and> min (unat aligned) (unat depth) \<le> n \<and> n \<le> unat depth"
proof -
  obtain bs r' where s: "on_submit (cpu_peers lost) m c = Some (C_send bs, put_creq reqid r' c)"
    "decode bs = Ok (default_Message\<lparr>msg_type := Msg_Commit,
       msg_u64_fields := [reqid, of_nat (length (cq_committed r')), of_nat (length (cq_committed r'))]\<rparr>)"
    "min (unat aligned) (unat depth) \<le> length (cq_committed r')" "length (cq_committed r') \<le> unat depth"
    by (rule submit_answered [OF assms(4-8)])
  then have "serve (cpu_peers lost) [] (D_frame f) c = Some (C_send bs, put_creq reqid r' c)"
    using assms(1-3) by (simp add: serve_def on_driver_message_def)
  with s(2-4) show ?thesis by (intro exI [of _ bs] exI [of _ "put_creq reqid r' c"] exI [of _ "length (cq_committed r')"]) simp
qed

text \<open>A coordinator to which a proposer, a verifier and a driver have connected.\<close>

definition driver_hello :: Message where
  "driver_hello = default_Message\<lparr>msg_type := Msg_Hello, msg_u32_fields := [kRoleDriver]\<rparr>"

lemma sample_start:
  obtains c where "coord_start c" "0 \<le> cd_driver_fd c" "cd_requests c = []" "cd_proposer_boot c = 71" "cd_prev_proposer_boot c = 71"
proof -
  let ?p = "worker_hello ''proposer'' 71" and ?v = "worker_hello ''verifier'' 72"
  have "in_limits ?p" "in_limits ?v" "in_limits driver_hello"
    by (simp_all add: in_limits_def msg_valid_def worker_hello_def driver_hello_def default_Message_def)
  then obtain p v d where "decode p = Ok ?p" "decode v = Ok ?v" "decode d = Ok driver_hello"
    by (meson encode_Ok_iff decode_encode)
  then obtain c where c: "await_roles [(3, Some p), (4, Some v), (5, Some d)] new_coordinator = Some c" "all_roles c"
    "cd_driver_fd c = 5" "cd_requests c = []" "cd_proposer_boot c = 71"
    by (simp add: worker_hello_def driver_hello_def new_coordinator_def all_roles_def hello_role_def hello_boot_def
        kRoleProposer_def kRoleVerifier_def kRoleDriver_def)
  from coord_start.intros [OF c(1,2)] c(3-5) show thesis using that [of "enter_service c"] by (simp add: enter_service_def)
qed

definition sample_submission :: Message where
  "sample_submission = default_Message\<lparr>msg_type := Msg_SubmitRequest, msg_u64_fields := [5], msg_u32_fields := [4, 1, 4]\<rparr>"

lemma sample_submission_frame: obtains f where "decode f = Ok sample_submission"
proof -
  have "in_limits sample_submission" by (simp add: in_limits_def msg_valid_def sample_submission_def default_Message_def)
  then show thesis using that by (meson encode_Ok_iff decode_encode)
qed

lemma sample_submission_fields: "msg_type sample_submission = Msg_SubmitRequest" "msg_u64_fields sample_submission = [5]"
  "msg_u32_fields sample_submission = [4, 1, 4]"
  by (simp_all add: sample_submission_def)

theorem submission_served_witness:
  "\<exists>f c bs c'. coord_start c \<and> serve (cpu_peers silent) [] (D_frame f) c = Some (C_send bs, c') \<and> length (cq_committed (creq_at 5 c')) = 4"
proof -
  obtain c where c: "coord_start c" "0 \<le> cd_driver_fd c" by (rule sample_start)
  obtain f where f: "decode f = Ok sample_submission" by (rule sample_submission_frame)
  from submission_served [OF c(2) f sample_submission_fields] obtain bs c' n where
    s: "serve (cpu_peers silent) [] (D_frame f) c = Some (C_send bs, c')" "n = length (cq_committed (creq_at 5 c'))"
    "min (unat (4 :: u32)) (unat (4 :: u32)) \<le> n" "n \<le> unat (4 :: u32)" using sample_sizes by blast
  then have "length (cq_committed (creq_at 5 c')) = 4" by simp
  with c(1) s(1) show ?thesis by blast
qed

definition stale_reasons :: "(string \<times> string) list" where
  "stale_reasons = [(''epoch'', kReasonStaleEpoch), (''boot'', kReasonStaleBoot), (''attempt'', kReasonStaleAttempt),
     (''base'', kReasonWrongBase), (''generation'', kReasonStaleGeneration)]"

definition probe_reply :: "string \<Rightarrow> Coordinator \<Rightarrow> Message option" where
  "probe_reply kind c =
     (case map_of stale_reasons kind of
        Some reason \<Rightarrow> Some (reply_body Msg_Reject reason)
      | None \<Rightarrow> if kind = ''prevBoot'' then
          Some (if cd_prev_proposer_boot c = cd_proposer_boot c then reply_body Msg_Info ''no_rejection''
                else reply_body Msg_Reject kReasonStaleBoot)
        else None)"

lemma reasons: "kReasonStaleEpoch \<noteq> []" "kReasonStaleBoot \<noteq> []" "kReasonStaleAttempt \<noteq> []" "kReasonWrongBase \<noteq> []" "kReasonStaleGeneration \<noteq> []"
  by (simp_all add: kReasonStaleEpoch_def kReasonStaleBoot_def kReasonStaleAttempt_def kReasonWrongBase_def kReasonStaleGeneration_def)

lemma probe_verdict:
  assumes "probe_reply kind c = Some m" shows "verdict_reply (probe_authority kind r c) = m"
proof -
  have sums: "(x :: u64) - 1 \<noteq> x" "x + 9999 \<noteq> x" "x + 7 \<noteq> x" "x + 5 \<noteq> x" "x + 1 \<noteq> x" for x by simp_all
  show ?thesis
    using assms reasons sums
    by (auto simp: probe_reply_def stale_reasons_def probe_authority_def validate_authority_def verdict_reply_def Let_def
        split: if_splits)
qed

lemma probe_answered:
  assumes "cd_requests c = (k, r) # rest" and "probe_reply kind c = Some m"
  obtains bs where "on_info (''stale:'' @ kind) c = Some (C_send bs, c)" "decode bs = Ok m"
proof -
  have "in_limits m"
    using assms(2) by (auto simp: probe_reply_def stale_reasons_def reply_body_def in_limits_def msg_valid_def default_Message_def
        kReasonStaleEpoch_def kReasonStaleBoot_def kReasonStaleAttempt_def kReasonWrongBase_def kReasonStaleGeneration_def split: if_splits)
  then obtain bs where "answer m c = Some (C_send bs, c)" "decode bs = Ok m" by (rule answer_encoded)
  with probe_verdict [OF assms(2), of r] assms(1) show thesis using that by (simp add: on_info_def)
qed

text \<open>
  C32 (stale_probe_rejected): the driver's authority probes answer as documented. For the first request,
  a probe with an older epoch, a foreign boot identifier, another attempt, another base generation or
  another proposal generation is rejected with exactly the reason for that field; the probe with
  the previous boot identifier is rejected exactly when the proposer has reconnected with a new one.
  No probe changes the coordinator.
\<close>

theorem stale_probe_rejected:
  assumes "cd_requests c = (k, r) # rest" and "probe_reply kind c = Some m"
  shows "\<exists>bs. on_info (''stale:'' @ kind) c = Some (C_send bs, c) \<and> decode bs = Ok m"
  using probe_answered [OF assms] by blast

theorem stale_probe_rejected_witness:
  "\<exists>bs. on_info (''stale:'' @ ''base'') sample_coordinator = Some (C_send bs, sample_coordinator) \<and>
     decode bs = Ok (reply_body Msg_Reject ''wrong_base_generation'')"
proof -
  have "cd_requests sample_coordinator = (5, submitted_creq 5 new_coordinator) # []" by (simp add: sample_coordinator_def new_coordinator_def)
  moreover have "probe_reply ''base'' sample_coordinator = Some (reply_body Msg_Reject ''wrong_base_generation'')"
    by (simp add: probe_reply_def stale_reasons_def kReasonWrongBase_def)
  ultimately show ?thesis by (rule stale_probe_rejected)
qed

section \<open>Every reachable coordinator\<close>

definition creq_wf :: "u64 \<Rightarrow> CReq \<Rightarrow> bool" where
  "creq_wf k r \<longleftrightarrow> cq_id r = StrongId k \<and> cq_seq r = StrongId (k + 1) \<and> cq_attempt r = StrongId 1 \<and>
     cq_auth_gen r = StrongId (of_nat (length (cq_committed r))) \<and>
     cq_auth_state r = \<lparr>sr_id = StrongId (k * 0x9E3779B97F4A7C15), sr_generation = StrongId (of_nat (length (cq_committed r)))\<rparr> \<and>
     cq_state_gen r = StrongId (of_nat (length (cq_committed r)))"

definition coordinator_wf :: "Coordinator \<Rightarrow> bool" where
  "coordinator_wf c \<longleftrightarrow> map_ordered (cd_requests c) \<and> (\<forall>k r. map_of (cd_requests c) k = Some r \<longrightarrow> creq_wf k r)"

lemma wf_put_creq: "coordinator_wf c \<Longrightarrow> creq_wf k r \<Longrightarrow> coordinator_wf (put_creq k r c)"
  by (auto simp: coordinator_wf_def map_ordered_put map_of_map_put)

lemma wf_same_requests: "cd_requests c' = cd_requests c \<Longrightarrow> coordinator_wf c' = coordinator_wf c"
  by (simp add: coordinator_wf_def)

lemma submitted_wf: "creq_wf reqid (submitted_creq reqid c)"
  by (simp add: creq_wf_def submitted_creq_def)

lemma started_wf: "creq_wf k r \<Longrightarrow> creq_wf k ((started depth branches aligned c r)\<lparr>cq_prop_gen := g\<rparr>)"
  by (simp add: creq_wf_def started_def)

lemma committed_wf: "creq_wf k r \<Longrightarrow> creq_wf k (committed_creq xs r)"
  by (simp add: creq_wf_def committed_creq_def)

lemma drive_cycle_wf:
  assumes "drive_cycle ps reqid depth branches aligned c = Some (res, c')" and "coordinator_wf c" and "creq_wf reqid (creq_at reqid c)"
  shows "coordinator_wf c'"
proof -
  from drive_cycle_result [OF assms(1)] obtain g xs where
    "c' = put_creq reqid ((if prefix ''ok:'' res then committed_creq xs else (\<lambda>r. r))
      ((started depth branches aligned c (creq_at reqid c))\<lparr>cq_prop_gen := g\<rparr>)) c" by blast
  with assms(2,3) show ?thesis by (auto intro!: wf_put_creq committed_wf started_wf)
qed

lemma answer_state: "answer m c = Some (reaction, c') \<Longrightarrow> c' = c"
  by (auto simp: answer_def)

lemma on_submit_wf:
  assumes "on_submit ps m c = Some (reaction, c')" and "coordinator_wf c" shows "coordinator_wf c'"
proof -
  from assms(1) obtain reqid depth branches aligned res where
    "drive_cycle ps reqid depth branches aligned (put_creq reqid (submitted_creq reqid c) c) = Some (res, c')"
    by (auto simp: on_submit_def Let_def split: bind_splits dest: answer_state)
  then show ?thesis
    using wf_put_creq [OF assms(2) submitted_wf] by (rule drive_cycle_wf) (simp add: submitted_wf)
qed

lemma on_driver_message_wf:
  assumes "on_driver_message ps m c = Some (reaction, c')" and "coordinator_wf c" shows "coordinator_wf c'"
proof -
  have "cd_requests c' = cd_requests c" if "msg_type m \<noteq> Msg_SubmitRequest"
    using assms(1) that
    by (auto simp: on_driver_message_def on_proposal_result_def on_info_def Let_def dest!: answer_state
        split: if_splits list.splits bind_splits prod.splits)
  moreover have "on_submit ps m c = Some (reaction, c')" if "msg_type m = Msg_SubmitRequest"
    using assms(1) that by (simp add: on_driver_message_def)
  ultimately show ?thesis using assms(2) wf_same_requests on_submit_wf by blast
qed

lemma accept_requests [simp]: "cd_requests (accept_hello fd frame c) = cd_requests c"
  by (simp add: accept_hello_def split: option.splits Result.splits)

lemma drain_requests [simp]: "cd_requests (drain_accepts conns c) = cd_requests c"
  by (induction conns c rule: drain_accepts.induct) simp_all

lemma serve_wf:
  assumes "serve ps conns inp c = Some (reaction, c')" and "coordinator_wf c" shows "coordinator_wf c'"
proof -
  have "coordinator_wf (drain_accepts conns c)" using assms(2) wf_same_requests [of "drain_accepts conns c" c] by simp
  with assms show ?thesis
    by (auto simp: serve_def Let_def wf_same_requests [of "_\<lparr>cd_driver_fd := _\<rparr>"] dest: on_driver_message_wf
        split: if_splits DriverInput.splits Result.splits)
qed

lemma await_requests: "await_roles conns c = Some c' \<Longrightarrow> cd_requests c' = cd_requests c"
  by (induction conns c rule: await_roles.induct) (auto split: if_splits option.splits Result.splits)

lemma coord_start_wf: "coord_start c \<Longrightarrow> coordinator_wf c"
  by (auto simp: enter_service_def coordinator_wf_def new_coordinator_def map_ordered_def
      dest!: await_requests elim!: coord_start.cases)

interpretation coordinator: invariant_system coord_start coord_step coordinator_wf
  by unfold_locales (auto simp: coord_start_wf elim!: coord_step.cases intro: serve_wf)

text \<open>Every state in which \<^verbatim>\<open>main\<close> serves the driver is reachable in this sense.\<close>

lemma service_loop_steps: "service_loop its c = Some (InService c', sent) \<Longrightarrow> coord_step\<^sup>*\<^sup>* c c'"
proof (induction its c arbitrary: sent rule: service_loop.induct)
  case (2 ps conns inp its c)
  then obtain reaction c1 where s: "serve ps conns inp c = Some (reaction, c1)" "reaction \<noteq> C_stop"
    by (auto split: bind_splits CoordReaction.splits)
  then have step: "coord_step c c1" by (rule coord_step.intros)
  from 2(3) s obtain sent' where "service_loop its c1 = Some (InService c', sent')"
    by (auto split: CoordReaction.splits)
  with 2(1,2) s(1) have "coord_step\<^sup>*\<^sup>* c1 c'" using s(2) by (cases reaction) auto
  with step show ?case by (rule converse_rtranclp_into_rtranclp)
qed simp

lemma coordinator_main_reachable:
  assumes "coordinator_main os startup its argv = Some (InService c, sent)"
  obtains c0 where "coord_start c0" "coord_step\<^sup>*\<^sup>* c0 c"
proof -
  from assms obtain c0 where c0: "await_roles startup new_coordinator = Some c0" "all_roles c0"
    "service_loop its (enter_service c0) = Some (InService c, sent)"
    by (auto simp: coordinator_main_def split: if_splits bind_splits option.splits prod.splits)
  show thesis using that [OF coord_start.intros [OF c0(1,2)] service_loop_steps [OF c0(3)]] .
qed

text \<open>
  C31 (coordinator_invariant): whatever workers and drivers connect and send, in every state the
  coordinator process reaches, each request keeps the identity derived from its key, and its
  authoritative generation, the generation of its state and its state generation all equal the number
  of committed tokens (modulo \<open>2^64\<close>).
\<close>

theorem coordinator_invariant:
  assumes "coord_start c0" and "coord_step\<^sup>*\<^sup>* c0 c" and "map_of (cd_requests c) k = Some r"
  shows "cq_id r = StrongId k \<and> cq_seq r = StrongId (k + 1) \<and> cq_attempt r = StrongId 1 \<and>
     cq_auth_gen r = StrongId (of_nat (length (cq_committed r))) \<and>
     sr_generation (cq_auth_state r) = StrongId (of_nat (length (cq_committed r))) \<and>
     cq_state_gen r = StrongId (of_nat (length (cq_committed r))) \<and> map_ordered (cd_requests c)"
  using coordinator.reachable_inv [OF assms(1,2)] assms(3) by (auto simp: coordinator_wf_def creq_wf_def)

theorem coordinator_invariant_witness:
  "\<exists>c0 c r. coord_start c0 \<and> coord_step\<^sup>*\<^sup>* c0 c \<and> map_of (cd_requests c) 5 = Some r \<and> cq_seq r = StrongId 6"
proof -
  obtain c0 where c0: "coord_start c0" "0 \<le> cd_driver_fd c0" by (rule sample_start)
  obtain f where f: "decode f = Ok sample_submission" by (rule sample_submission_frame)
  let ?c = "put_creq 5 (submitted_creq 5 c0) c0"
  from cpu_cycle [OF sample_sizes(1-3) refl refl refl, of silent 5 4 ?c] obtain res c where
    d: "drive_cycle (cpu_peers silent) 5 4 1 4 ?c = Some (res, c)" "prefix ''ok:'' res" by blast
  let ?m = "default_Message\<lparr>msg_type := Msg_Commit,
      msg_u64_fields := [5, id_get (cq_auth_gen (creq_at 5 c)), of_nat (length (cq_committed (creq_at 5 c)))]\<rparr>"
  obtain bs where "answer ?m c = Some (C_send bs, c)"
    by (rule answer_encoded [of ?m]) (auto simp: in_limits_def msg_valid_def default_Message_def)
  with d have "on_submit (cpu_peers silent) sample_submission c0 = Some (C_send bs, c)"
    by (simp add: on_submit_def vec_at_def Let_def sample_submission_fields)
  then have "serve (cpu_peers silent) [] (D_frame f) c0 = Some (C_send bs, c)"
    using c0(2) f by (simp add: serve_def on_driver_message_def sample_submission_fields)
  then have step: "coord_step\<^sup>*\<^sup>* c0 c" by (intro r_into_rtranclp coord_step.intros) auto
  from drive_cycle_result [OF d(1)] obtain r where r: "map_of (cd_requests c) 5 = Some r" by (auto simp: map_of_map_put)
  from coordinator_invariant [OF c0(1) step r] c0(1) step r show ?thesis by auto
qed

end
