(* ===== verification/SF_Cuda.thy ===== *)
theory SF_Cuda
  imports SF_Executors
begin

text \<open>
  The CUDA executors (\<^verbatim>\<open>cuda_executor.cu\<close>). A kernel is launched with one block of sixteen threads;
  between two barriers every thread runs the same code on the shared and device memory of the block.
  A phase is the code between barriers, and a schedule gives for every phase the order in which the
  threads run it; within a phase no thread reads what another one writes, so a thread runs its
  phase as a whole. The calls of the CUDA runtime are parameters: which of them succeed, what memory
  they hand out, and the schedule. The facts show that the kernels compute the CPU model.
\<close>

section \<open>Host helpers\<close>

definition kNW :: nat where "kNW = 16"
definition kVocab :: u32 where "kVocab = 4096"
definition kTargetSeed :: u32 where "kTargetSeed = 0x5A17B0C"
definition kMA :: u32 where "kMA = 0x9E3779B9"
definition kMB :: u32 where "kMB = 0x85EBCA6B"

definition splitmix :: "u64 \<Rightarrow> u32 \<times> u64" where
  "splitmix x =
     (let x = x + 0x9E3779B97F4A7C15;
          z = x;
          z = (z XOR drop_bit 30 z) * 0xBF58476D1CE4E5B9;
          z = (z XOR drop_bit 27 z) * 0x94D049BB133111EB;
          z = z XOR drop_bit 31 z
      in (ucast z, x))"

text \<open>\<open>n\<close> draws, each written through \<open>f\<close> to the next index of an array.\<close>

fun fill_draws :: "(u32 \<Rightarrow> u32) \<Rightarrow> nat \<Rightarrow> nat \<Rightarrow> u64 \<Rightarrow> u32 list \<Rightarrow> u32 list \<times> u64" where
  "fill_draws f 0 k x a = (a, x)"
| "fill_draws f (Suc n) k x a = (let (v, x1) = splitmix x in fill_draws f n (Suc k) x1 (a[k := f v]))"

fun target_fill :: "nat \<Rightarrow> nat \<Rightarrow> u64 \<Rightarrow> u32 list \<Rightarrow> u32 list \<Rightarrow> u32 list \<times> u32 list" where
  "target_fill 0 i x w b = (w, b)"
| "target_fill (Suc n) i x w b =
     (let (w1, x1) = fill_draws (\<lambda>v. v AND 0xFFFF) kNW (i * kNW) x w;
          (v, x2) = splitmix x1
      in target_fill n (Suc i) x2 w1 (b[i := v AND 0xFFFF]))"

definition build_target :: "u32 list \<Rightarrow> u32 list \<Rightarrow> u32 list \<times> u32 list" where
  "build_target w b = target_fill kNW 0 (ucast kTargetSeed OR push_bit 32 1) w b"

definition cuda_mix64 :: "u64 \<Rightarrow> u64 \<Rightarrow> u64 \<Rightarrow> u64 \<Rightarrow> u64" where
  "cuda_mix64 a b c d =
     (let x = (a * 0x9E3779B97F4A7C15) XOR b;
          x = (x XOR drop_bit 27 x) * 0xBF58476D1CE4E5B9;
          x = (x XOR drop_bit 31 x) * 0x94D049BB133111EB;
          x = (x XOR drop_bit 27 x) + c * 0x9E3779B97F4A7C15;
          x = x XOR d;
          x = (x XOR drop_bit 30 x) * 0xBF58476D1CE4E5B9;
          x = (x XOR drop_bit 29 x) * 0x94D049BB133111EB
      in x XOR drop_bit 32 x)"

section \<open>Kernels\<close>

record Block =
  bk_state :: "u32 list"
  bk_next :: "u32 list"
  bk_prev :: u32

record ProposeBlock = Block +
  bk_tokens :: "u32 list"

record VerifyBlock = Block +
  bk_perpos :: "u32 list"
  bk_accepted :: u32
  bk_firstrej :: u32

type_synonym schedule = "nat \<Rightarrow> nat list"

text \<open>All threads run one phase, in the given order.\<close>

definition run_phase :: "(nat \<Rightarrow> 'b \<Rightarrow> 'b) \<Rightarrow> nat list \<Rightarrow> 'b \<Rightarrow> 'b" where
  "run_phase code order blk = foldl (\<lambda>blk t. code t blk) blk order"

definition seed_thread :: "u64 \<Rightarrow> nat \<Rightarrow> 'a Block_scheme \<Rightarrow> 'a Block_scheme" where
  "seed_thread seed t blk =
     (if t = 0 then blk\<lparr>bk_state := fst (fill_draws (\<lambda>v. v) kNW 0 seed (bk_state blk)), bk_prev := 0\<rparr> else blk)"

definition expected_token :: "'a Block_scheme \<Rightarrow> u32 \<Rightarrow> u32 \<Rightarrow> u32" where
  "expected_token blk i vocab =
     (let raw = bk_state blk ! 0 XOR bk_state blk ! 7 XOR bk_state blk ! 13 XOR (kMA * (i + 1)) XOR kMB XOR bk_prev blk
      in raw mod vocab)"

definition next_thread :: "u32 list \<Rightarrow> u32 list \<Rightarrow> nat \<Rightarrow> 'a Block_scheme \<Rightarrow> 'a Block_scheme" where
  "next_thread w b t blk =
     blk\<lparr>bk_next := (bk_next blk)[t := foldl (\<lambda>acc j. (acc * kMB) XOR (bk_state blk ! j * w ! (t * kNW + j)))
           (b ! t XOR (kMA * bk_prev blk)) [0..<kNW]]\<rparr>"

definition copy_thread :: "nat \<Rightarrow> 'a Block_scheme \<Rightarrow> 'a Block_scheme" where
  "copy_thread t blk = blk\<lparr>bk_state := (bk_state blk)[t := bk_next blk ! t]\<rparr>"

definition draft_thread :: "u32 \<Rightarrow> u32 \<Rightarrow> u32 \<Rightarrow> u32 \<Rightarrow> nat \<Rightarrow> ProposeBlock \<Rightarrow> ProposeBlock" where
  "draft_thread vocab aligned branch i t blk =
     (if t = 0 then
        let expected = expected_token blk i vocab;
            tok = (if i < aligned then expected else (expected + 1 + branch) mod vocab)
        in blk\<lparr>bk_tokens := (bk_tokens blk)[unat i := tok], bk_prev := tok\<rparr>
      else blk)"

text \<open>The loop of the proposer kernel; \<open>p\<close> is the number of the phase, \<open>n\<close> the iterations left.\<close>

fun propose_rounds :: "schedule \<Rightarrow> u32 list \<Rightarrow> u32 list \<Rightarrow> u32 \<Rightarrow> u32 \<Rightarrow> u32 \<Rightarrow> nat \<Rightarrow> nat \<Rightarrow> u32 \<Rightarrow> ProposeBlock \<Rightarrow> ProposeBlock" where
  "propose_rounds sched w b vocab aligned branch p 0 i blk = blk"
| "propose_rounds sched w b vocab aligned branch p (Suc n) i blk =
     propose_rounds sched w b vocab aligned branch (p + 3) n (i + 1)
       (run_phase copy_thread (sched (p + 2))
         (run_phase (next_thread w b) (sched (p + 1))
           (run_phase (draft_thread vocab aligned branch i) (sched p) blk)))"

definition proposeKernel :: "schedule \<Rightarrow> u32 list \<Rightarrow> u32 list \<Rightarrow> u64 \<Rightarrow> u32 \<Rightarrow> u32 \<Rightarrow> u32 \<Rightarrow> u32 \<Rightarrow> ProposeBlock \<Rightarrow> ProposeBlock" where
  "proposeKernel sched w b seed depth vocab aligned branch blk =
     propose_rounds sched w b vocab aligned branch 1 (unat depth) 0 (run_phase (seed_thread seed) (sched 0) blk)"

definition verify_seed_thread :: "u64 \<Rightarrow> u32 \<Rightarrow> nat \<Rightarrow> VerifyBlock \<Rightarrow> VerifyBlock" where
  "verify_seed_thread seed len t blk =
     (if t = 0 then (seed_thread seed t blk)\<lparr>bk_accepted := 0, bk_firstrej := len\<rparr> else blk)"

definition compare_thread :: "u32 list \<Rightarrow> u32 \<Rightarrow> u32 \<Rightarrow> u32 \<Rightarrow> nat \<Rightarrow> VerifyBlock \<Rightarrow> VerifyBlock" where
  "compare_thread cand len vocab i t blk =
     (if t = 0 then
        let expected = expected_token blk i vocab;
            acc = (expected = cand ! unat i);
            blk1 = blk\<lparr>bk_perpos := (bk_perpos blk)[unat i := if acc then 1 else 0]\<rparr>;
            blk2 = (if acc then blk1\<lparr>bk_accepted := bk_accepted blk1 + 1\<rparr>
                    else if bk_firstrej blk1 = len then blk1\<lparr>bk_firstrej := i\<rparr> else blk1)
        in blk2\<lparr>bk_prev := expected\<rparr>
      else blk)"

fun verify_rounds :: "schedule \<Rightarrow> u32 list \<Rightarrow> u32 list \<Rightarrow> u32 list \<Rightarrow> u32 \<Rightarrow> u32 \<Rightarrow> nat \<Rightarrow> nat \<Rightarrow> u32 \<Rightarrow> VerifyBlock \<Rightarrow> VerifyBlock" where
  "verify_rounds sched w b cand len vocab p 0 i blk = blk"
| "verify_rounds sched w b cand len vocab p (Suc n) i blk =
     verify_rounds sched w b cand len vocab (p + 3) n (i + 1)
       (run_phase copy_thread (sched (p + 2))
         (run_phase (next_thread w b) (sched (p + 1))
           (run_phase (compare_thread cand len vocab i) (sched p) blk)))"

definition verifyKernel :: "schedule \<Rightarrow> u32 list \<Rightarrow> u32 list \<Rightarrow> u32 list \<Rightarrow> u64 \<Rightarrow> u32 \<Rightarrow> u32 \<Rightarrow> VerifyBlock \<Rightarrow> VerifyBlock" where
  "verifyKernel sched w b cand seed len vocab blk =
     verify_rounds sched w b cand len vocab 1 (unat len) 0 (run_phase (verify_seed_thread seed len) (sched 0) blk)"

section \<open>Executors\<close>

text \<open>
  What the CUDA runtime does in one call: whether the device is selected, which of the numbered
  allocations and copies succeed, the error of the launch if any, what the allocated and shared memory
  holds (by buffer number and size in words), and the schedule of the kernel.
\<close>

record CudaRuntime =
  cu_set_device :: bool
  cu_malloc :: "nat \<Rightarrow> bool"
  cu_copy_in :: "nat \<Rightarrow> bool"
  cu_launch_error :: "string option"
  cu_copy_out :: "nat \<Rightarrow> bool"
  cu_memory :: "nat \<Rightarrow> nat \<Rightarrow> u32 list"
  cu_schedule :: schedule

definition cuda_proposer_identity :: ExecutorIdentity where
  "cuda_proposer_identity = \<lparr>exe_id = StrongId 0x43555052, exe_name = ''cuda-proposer'', exe_kind = EK_CUDA,
     exe_protocol_version = 1\<rparr>"

definition cuda_propose :: "CudaRuntime \<Rightarrow> u32 \<Rightarrow> u32 \<Rightarrow> proposer" where
  "cuda_propose cu aligned branch inp =
     (let depth = pin_depth inp; failed = (\<lambda>e d. Ok (proposal_failure PO_NonRetryableFailure e d)) in
      if depth = 0 then failed (Validation EC_invalid_zero_depth) ''proposal depth must be positive''
      else if 256 < depth then failed (Validation EC_invalid_depth) ''proposal depth exceeds CUDA bound''
      else if \<not> cu_set_device cu then failed (Compatibility EC_incompatible_device) ''could not select CUDA device 0''
      else
        let (w, b) = build_target (replicate (kNW * kNW) 0) (replicate kNW 0);
            base = pin_base_state inp;
            seed = cuda_mix64 ((id_get (sr_id base) * 0x9E3779B97F4A7C15) XOR (id_get (sr_generation base) * 0x94D049BB133111EB))
                     (id_get (pin_base_generation inp)) (id_get (mi_revision (pv_proposer_model (pin_provenance inp))))
                     (ucast depth * 0x100000001B3)
        in if \<not> list_all (cu_malloc cu) [0, 1, 2, 3] then failed (General EC_internal) ''CUDA device allocation failed''
        else if \<not> list_all (cu_copy_in cu) [0, 1] then failed (General EC_internal) ''CUDA copy to device failed''
        else case cu_launch_error cu of
          Some e \<Rightarrow> failed (General EC_internal) (''CUDA proposer kernel failed: '' @ e)
        | None \<Rightarrow>
          let blk = proposeKernel (cu_schedule cu) w b seed depth kVocab aligned branch
                      \<lparr>bk_state = cu_memory cu 2 kNW, bk_next = cu_memory cu 4 kNW, bk_prev = 0,
                       bk_tokens = cu_memory cu 3 (unat depth)\<rparr>
          in if \<not> cu_copy_out cu 0 then failed (General EC_internal) ''CUDA copy from device failed''
          else
            let held = ucast depth * 64;
                ss = default_StateDescriptor\<lparr>
                       sd_ref := base\<lparr>sr_generation := StrongId (id_get (sr_generation base) + 1)\<rparr>,
                       sd_role := Role_Speculative, sd_reservation := RS_Used, sd_owner := SO_Proposal,
                       sd_bytes_held := held\<rparr>
            in Ok (default_ProposalResult\<lparr>
                     pres_outcome := PO_Success, pres_candidate := Some \<lparr>cs_tokens = map mk_token (bk_tokens blk)\<rparr>,
                     pres_speculative_state := Some ss, pres_compute_spent := ucast depth * 4,
                     pres_memory_held := held, pres_execution_measured_ns := ucast depth * 2,
                     pres_detail := ''cuda-proposer produced '' @ word_string depth @ '' tokens''\<rparr>))"

definition cuda_verifier_identity :: ExecutorIdentity where
  "cuda_verifier_identity = \<lparr>exe_id = StrongId 0x43564552, exe_name = ''cuda-verifier'', exe_kind = EK_CUDA,
     exe_protocol_version = 1\<rparr>"

definition cuda_acceptance :: "VerificationInput \<Rightarrow> VerifyBlock \<Rightarrow> AcceptanceResult" where
  "cuda_acceptance inp blk =
     (let len = of_nat (cs_size (vin_candidate inp)); accepted = bk_accepted blk; st = vin_authoritative_state inp;
          next_sgen = StrongId (id_get (sr_generation st) + ucast accepted)
      in default_AcceptanceResult\<lparr>
           acc_outcome := (if accepted = len then AO_FullAccept
                           else if accepted = 0 then AO_RejectAll else AO_PartialAccept),
           acc_candidate_length := len, acc_accepted_prefix := accepted, acc_first_rejection_index := bk_firstrej blk,
           acc_per_position := map ucast (bk_perpos blk),
           acc_next_generation := StrongId (id_get (vin_authoritative_generation inp) + ucast accepted),
           acc_next_state := st\<lparr>sr_generation := next_sgen\<rparr>, acc_next_state_generation := next_sgen,
           acc_execution_measured_ns := ucast len * 2,
           acc_verifier_note := ''cuda-verifier accepted '' @ word_string accepted @ ''/'' @ word_string len\<rparr>)"

definition cuda_verify :: "CudaRuntime \<Rightarrow> verifier" where
  "cuda_verify cu inp =
     (let cand = vin_candidate inp; len = of_nat (cs_size cand) :: u32 in
      if cs_empty cand then Ok (verifier_failure inp True ''candidate is empty'')
      else if \<not> cu_set_device cu then Ok (verifier_failure inp False ''could not select CUDA device 0'')
      else
        let (w, b) = build_target (replicate (kNW * kNW) 0) (replicate kNW 0);
            st = vin_authoritative_state inp;
            seed = cuda_mix64 ((id_get (sr_id st) * 0x9E3779B97F4A7C15) XOR (id_get (sr_generation st) * 0x94D049BB133111EB))
                     (id_get (vin_authoritative_generation inp)) (id_get (mi_revision (vin_proposer inp)))
                     (of_nat (cs_size cand) * 0x100000001B3);
            tokens = take (unat len) (cs_ids cand)
        in if \<not> list_all (cu_malloc cu) [0, 1, 2, 3, 4, 5, 6] then
             Ok (verifier_failure inp False ''CUDA device allocation failed'')
        else if \<not> list_all (cu_copy_in cu) [0, 1, 2] then Ok (verifier_failure inp False ''CUDA copy to device failed'')
        else case cu_launch_error cu of
          Some e \<Rightarrow> Ok (verifier_failure inp False (''CUDA verifier kernel failed: '' @ e))
        | None \<Rightarrow>
          let blk = verifyKernel (cu_schedule cu) w b tokens seed len kVocab
                      \<lparr>bk_state = cu_memory cu 3 kNW, bk_next = cu_memory cu 7 kNW, bk_prev = 0,
                       bk_perpos = cu_memory cu 4 (unat len), bk_accepted = 0, bk_firstrej = 0\<rparr>
          in if \<not> list_all (cu_copy_out cu) [0, 1, 2] then
               Ok (verifier_failure inp False ''CUDA copy from device failed'')
             else Ok (cuda_acceptance inp blk))"

section \<open>The target model on the device\<close>

lemma splitmix_cpu: "splitmix x = splitmix64_update x"
  by (simp add: splitmix_def splitmix64_update_def Let_def)

lemma cuda_mix64_cpu: "cuda_mix64 a b c d = mix64 a b c d"
  by (simp add: cuda_mix64_def mix64_def Let_def)

lemma fill_draws_eq:
  "k + n \<le> length a \<Longrightarrow>
   fill_draws f n k x a = (take k a @ map f (fst (draws n x)) @ drop (k + n) a, snd (draws n x))"
proof (induction n arbitrary: k x a)
  case (Suc n)
  obtain v x1 where v: "splitmix64_update x = (v, x1)" by fastforce
  obtain vs x2 where vs: "draws n x1 = (vs, x2)" by fastforce
  have "take (Suc k) (a[k := f v]) = take k a @ [f v]" using Suc.prems by (simp add: take_Suc_conv_app_nth)
  with Suc.prems Suc.IH [of "Suc k" "a[k := f v]" x1] v vs show ?case by (simp add: splitmix_cpu)
qed simp

lemma target_fill_eq:
  "16 * (i + n) \<le> length w \<Longrightarrow> i + n \<le> length b \<Longrightarrow>
   target_fill n i x w b =
     (take (16 * i) w @ concat (map fst (model_rows n x)) @ drop (16 * (i + n)) w,
      take i b @ map snd (model_rows n x) @ drop (i + n) b)"
proof (induction n arbitrary: i x w b)
  case (Suc n)
  obtain ws x1 where ws: "draws 16 x = (ws, x1)" by fastforce
  then have len: "length ws = 16" using length_draws [of 16 x] by simp
  obtain v x2 where v: "splitmix64_update x1 = (v, x2)" by fastforce
  let ?w = "take (16 * i) w @ map (\<lambda>v. v AND 0xFFFF) ws @ drop (16 * i + 16) w" and ?b = "b[i := v AND 0xFFFF]"
  have fill: "fill_draws (\<lambda>v. v AND 0xFFFF) kNW (i * kNW) x w = (?w, x1)"
    using fill_draws_eq [of "16 * i" 16 w] Suc.prems ws by (simp add: kNW_def mult.commute)
  have tb: "take (Suc i) ?b = take i b @ [v AND 0xFFFF]" using Suc.prems by (simp add: take_Suc_conv_app_nth)
  have tw: "take (16 * Suc i) ?w = take (16 * i) w @ map (\<lambda>v. v AND 0xFFFF) ws"
    "drop (16 * (Suc i + n)) ?w = drop (16 * (i + Suc n)) w"
    using Suc.prems len by (simp_all add: ac_simps)
  have rows: "model_rows (Suc n) x = (map (\<lambda>v. v AND 0xFFFF) ws, v AND 0xFFFF) # model_rows n x2"
    by (simp add: kStateWords_def ws v)
  have "target_fill (Suc n) i x w b = target_fill n (Suc i) x2 ?w ?b" by (simp add: fill v splitmix_cpu)
  also have "\<dots> = (take (16 * Suc i) ?w @ concat (map fst (model_rows n x2)) @ drop (16 * (Suc i + n)) ?w,
      take (Suc i) ?b @ map snd (model_rows n x2) @ drop (Suc i + n) ?b)"
    using Suc.prems len by (intro Suc.IH) simp_all
  finally show ?case unfolding tb tw rows by simp
qed simp

lemma build_target_eq:
  assumes "length w = 256" and "length b = 16"
  shows "build_target w b = (concat (sm_weights make_target_model), sm_bias make_target_model)"
  using assms target_fill_eq [of 0 16 w b]
  by (simp add: build_target_def kNW_def make_target_model_def Let_def kStateWords_def kTargetSeed_def kTargetModelSeed_def)

section \<open>Phases\<close>

definition fair :: "schedule \<Rightarrow> bool" where
  "fair sched \<longleftrightarrow> (\<forall>p. distinct (sched p) \<and> set (sched p) = {0..<16})"

lemma foldl_update:
  "foldl (\<lambda>xs t. xs[t := g t]) xs ts = map (\<lambda>i. if i \<in> set ts then g i else xs ! i) [0..<length xs]"
proof (induction ts arbitrary: xs)
  case Nil
  show ?case by (simp add: map_nth)
next
  case (Cons t ts)
  have "foldl (\<lambda>xs t. xs[t := g t]) xs (t # ts) = map (\<lambda>i. if i \<in> set ts then g i else xs[t := g t] ! i) [0..<length xs]"
    using Cons.IH [of "xs[t := g t]"] by simp
  also have "\<dots> = map (\<lambda>i. if i \<in> set (t # ts) then g i else xs ! i) [0..<length xs]"
    by (rule map_cong) (auto simp: nth_list_update)
  finally show ?case .
qed

lemma phase_thread0:
  assumes "\<And>t blk. code t blk = (if t = 0 then h blk else blk)"
  shows "distinct order \<Longrightarrow> run_phase code order blk = (if 0 \<in> set order then h blk else blk)"
  unfolding run_phase_def
proof (induction order arbitrary: blk)
  case (Cons t ts)
  then show ?case by (auto simp: assms)
qed simp

definition device_row :: "u32 list \<Rightarrow> u32 list \<Rightarrow> u32 list \<Rightarrow> u32 \<Rightarrow> nat \<Rightarrow> u32" where
  "device_row w b state prev t =
     foldl (\<lambda>acc j. (acc * kMB) XOR (state ! j * w ! (t * kNW + j))) (b ! t XOR (kMA * prev)) [0..<kNW]"

lemma phase_next:
  assumes "set order = {0..<16}" and "length (bk_next blk) = 16"
  shows "run_phase (next_thread w b) order blk = blk\<lparr>bk_next := map (device_row w b (bk_state blk) (bk_prev blk)) [0..<16]\<rparr>"
proof -
  have "run_phase (next_thread w b) order blk =
      blk\<lparr>bk_next := foldl (\<lambda>xs t. xs[t := device_row w b (bk_state blk) (bk_prev blk) t]) (bk_next blk) order\<rparr>"
    unfolding run_phase_def
    by (induction order arbitrary: blk) (simp_all add: next_thread_def device_row_def)
  with assms show ?thesis by (simp add: foldl_update)
qed

lemma phase_copy:
  assumes "set order = {0..<16}" and "length (bk_state blk) = 16" and "length (bk_next blk) = 16"
  shows "run_phase copy_thread order blk = blk\<lparr>bk_state := bk_next blk\<rparr>"
proof -
  have "run_phase copy_thread order blk = blk\<lparr>bk_state := foldl (\<lambda>xs t. xs[t := bk_next blk ! t]) (bk_state blk) order\<rparr>"
    unfolding run_phase_def by (induction order arbitrary: blk) (simp_all add: copy_thread_def)
  moreover have "foldl (\<lambda>xs t. xs[t := bk_next blk ! t]) (bk_state blk) order = bk_next blk"
    unfolding foldl_update by (rule nth_equalityI) (use assms in auto)
  ultimately show ?thesis by simp
qed

text \<open>A row of the device computation is a row of the CPU model.\<close>

lemma foldl_zip_nth:
  assumes "length xs = n" and "length ys = n"
  shows "foldl (\<lambda>acc (s, w). f acc s w) a (zip xs ys) = foldl (\<lambda>acc j. f acc (xs ! j) (ys ! j)) a [0..<n]"
proof -
  have "zip xs ys = map (\<lambda>j. (xs ! j, ys ! j)) [0..<n]" by (rule nth_equalityI) (use assms in simp_all)
  then show ?thesis by (simp add: foldl_map)
qed

lemma concat_nth: "\<forall>r\<in>set rows. length r = 16 \<Longrightarrow> t < length rows \<Longrightarrow> j < 16 \<Longrightarrow> concat rows ! (t * 16 + j) = rows ! t ! j"
proof (induction rows arbitrary: t)
  case (Cons r rows)
  then show ?case by (cases t) (auto simp: nth_append)
qed simp

lemma target_rows: "\<forall>r\<in>set (sm_weights make_target_model). length r = 16" "length (sm_weights make_target_model) = 16"
    "length (sm_bias make_target_model) = 16" "sm_mix_a make_target_model = kMA" "sm_mix_b make_target_model = kMB"
proof -
  have "\<forall>r\<in>set (model_rows n x). length (fst r) = 16" for n x
  proof (induction n arbitrary: x)
    case (Suc n)
    obtain ws x1 v x2 where "draws 16 x = (ws, x1)" "splitmix64_update x1 = (v, x2)" by fastforce
    with Suc.IH [of x2] length_draws [of 16 x] show ?case by (simp add: kStateWords_def)
  qed simp
  then show "\<forall>r\<in>set (sm_weights make_target_model). length r = 16" by (simp add: make_target_model_def Let_def)
qed (simp_all add: make_target_model_def Let_def kStateWords_def kMA_def kMB_def)

lemma device_row_cpu:
  assumes "t < 16" and "length state = 16"
  shows "device_row (concat (sm_weights make_target_model)) (sm_bias make_target_model) state prev t =
    model_step make_target_model state prev ! t"
proof -
  let ?m = make_target_model
  have row: "length (sm_weights ?m ! t) = 16" using target_rows assms(1) by simp
  have "foldl (\<lambda>acc j. (acc * kMB) XOR (state ! j * concat (sm_weights ?m) ! (t * 16 + j))) a [0..<16] =
      foldl (\<lambda>acc j. (acc * kMB) XOR (state ! j * sm_weights ?m ! t ! j)) a [0..<16]" for a
    by (rule foldl_cong) (use target_rows assms(1) in \<open>auto simp: concat_nth\<close>)
  then show ?thesis
    using assms row target_rows foldl_zip_nth [OF assms(2) row, of "\<lambda>acc s w. (acc * kMB) XOR (s * w)"]
    by (simp add: device_row_def model_step_def step_word_def kNW_def)
qed

lemma device_step:
  "length state = 16 \<Longrightarrow>
   map (device_row (concat (sm_weights make_target_model)) (sm_bias make_target_model) state prev) [0..<16] =
   model_step make_target_model state prev"
proof (rule nth_equalityI)
  show "length (map (device_row (concat (sm_weights make_target_model)) (sm_bias make_target_model) state prev) [0..<16]) =
      length (model_step make_target_model state prev)" by (simp add: make_target_model)
qed (simp add: device_row_cpu)

section \<open>The kernels compute the CPU loops\<close>

abbreviation "target_w \<equiv> concat (sm_weights make_target_model)"
abbreviation "target_b \<equiv> sm_bias make_target_model"

lemma fairD: "fair sched \<Longrightarrow> distinct (sched p) \<and> set (sched p) = {0..<16} \<and> 0 \<in> set (sched p)"
  by (simp add: fair_def)

lemma expected_token_cpu:
  "expected_token blk i 4096 = model_token make_target_model (bk_state blk) i (bk_prev blk) 4096"
  by (simp add: expected_token_def model_token_def Let_def target_rows)

text \<open>The two phases after a token: the state steps along the model.\<close>

lemma phases_step:
  assumes "fair sched" and "length (bk_state blk) = 16" and "length (bk_next blk) = 16"
  shows "run_phase copy_thread (sched q) (run_phase (next_thread target_w target_b) (sched p) blk) =
    blk\<lparr>bk_next := model_step make_target_model (bk_state blk) (bk_prev blk),
        bk_state := model_step make_target_model (bk_state blk) (bk_prev blk)\<rparr>"
proof -
  have len: "length (model_step make_target_model (bk_state blk) (bk_prev blk)) = 16" by (simp add: make_target_model)
  show ?thesis
    using fairD [OF assms(1), of p] fairD [OF assms(1), of q] assms(2,3)
    by (simp add: phase_next device_step phase_copy len)
qed

lemma seed_phase:
  assumes "fair sched" and "length (bk_state blk) = 16"
  shows "run_phase (seed_thread seed) (sched p) blk = blk\<lparr>bk_state := seed_state seed, bk_prev := 0\<rparr>"
proof -
  have "seed_thread seed t blk = (if t = 0 then blk\<lparr>bk_state := fst (fill_draws (\<lambda>v. v) 16 0 seed (bk_state blk)), bk_prev := 0\<rparr> else blk)"
    for t and blk :: "'a Block_scheme" by (simp add: seed_thread_def kNW_def)
  from phase_thread0 [OF this, of "sched p" blk] show ?thesis
    using fairD [OF assms(1), of p] assms(2) fill_draws_eq [of 0 16 "bk_state blk"]
    by (simp add: seed_state_def kStateWords_def)
qed

lemma draft_phase:
  assumes "fair sched"
  shows "run_phase (draft_thread vocab aligned branch i) (sched p) blk = draft_thread vocab aligned branch i 0 blk"
  using phase_thread0 [of "draft_thread vocab aligned branch i" "draft_thread vocab aligned branch i 0" "sched p" blk] fairD [OF assms, of p]
  by (auto simp: draft_thread_def)

lemma propose_rounds_eq:
  assumes "fair sched" and "length (bk_state blk) = 16" and "length (bk_next blk) = 16"
    and "k + n = length (bk_tokens blk)" and "length (bk_tokens blk) < 2 ^ 32"
  shows "bk_tokens (propose_rounds sched target_w target_b 4096 aligned branch p n (of_nat k) blk) =
    take k (bk_tokens blk) @ propose_loop n make_target_model aligned branch (of_nat k) (bk_state blk) (bk_prev blk)"
  using assms(2-5)
proof (induction n arbitrary: k p blk)
  case (Suc n)
  let ?e = "model_token make_target_model (bk_state blk) (of_nat k) (bk_prev blk) 4096"
  let ?tok = "if of_nat k < aligned then ?e else (?e + 1 + branch) mod 4096"
  let ?d = "draft_thread 4096 aligned branch (of_nat k) 0 blk"
  have k: "unat (of_nat k :: u32) = k" using Suc.prems by (simp add: unat_of_nat take_bit_eq_mod)
  have d: "bk_state ?d = bk_state blk" "bk_next ?d = bk_next blk" "bk_prev ?d = ?tok" "bk_tokens ?d = (bk_tokens blk)[k := ?tok]"
    by (simp_all add: draft_thread_def Let_def expected_token_cpu k)
  let ?blk = "?d\<lparr>bk_next := model_step make_target_model (bk_state blk) ?tok, bk_state := model_step make_target_model (bk_state blk) ?tok\<rparr>"
  have step: "propose_rounds sched target_w target_b 4096 aligned branch p (Suc n) (of_nat k) blk =
      propose_rounds sched target_w target_b 4096 aligned branch (p + 3) n (of_nat (Suc k)) ?blk"
    using phases_step [OF assms(1), of ?d "p + 2" "p + 1"] Suc.prems(1,2) d
    by (simp add: draft_phase [OF assms(1)] add.commute)
  have tk: "take (Suc k) ((bk_tokens blk)[k := ?tok]) = take k (bk_tokens blk) @ [?tok]"
    using Suc.prems(3) by (simp add: take_Suc_conv_app_nth)
  have "bk_tokens (propose_rounds sched target_w target_b 4096 aligned branch (p + 3) n (of_nat (Suc k)) ?blk) =
      take (Suc k) (bk_tokens ?blk) @ propose_loop n make_target_model aligned branch (of_nat (Suc k)) (bk_state ?blk) (bk_prev ?blk)"
    using Suc.prems d by (intro Suc.IH) (simp_all add: make_target_model)
  then show ?case unfolding step using tk by (simp add: d Let_def add.commute)
qed simp

lemma compare_phase:
  assumes "fair sched"
  shows "run_phase (compare_thread cand len vocab i) (sched p) blk = compare_thread cand len vocab i 0 blk"
  using phase_thread0 [of "compare_thread cand len vocab i" "compare_thread cand len vocab i 0" "sched p" blk] fairD [OF assms, of p]
  by (auto simp: compare_thread_def)

definition verdict_of :: "VerifyBlock \<Rightarrow> u8 list \<times> u32 \<times> u32" where
  "verdict_of blk = (map ucast (bk_perpos blk), bk_accepted blk, bk_firstrej blk)"

lemma verify_rounds_eq:
  assumes "fair sched" and "length (bk_state blk) = 16" and "length (bk_next blk) = 16"
    and "k + n = length cand" and "length (bk_perpos blk) = length cand" and "length cand < 2 ^ 32"
  shows "verdict_of (verify_rounds sched target_w target_b cand len 4096 p n (of_nat k) blk) =
    verify_loop make_target_model len (of_nat k) (bk_state blk) (bk_prev blk) (drop k cand)
      (map ucast (take k (bk_perpos blk)), bk_accepted blk, bk_firstrej blk)"
  using assms(2-5)
proof (induction n arbitrary: k p blk)
  case 0
  then show ?case by (simp add: verdict_of_def)
next
  case (Suc n)
  let ?e = "model_token make_target_model (bk_state blk) (of_nat k) (bk_prev blk) 4096"
  let ?c = "compare_thread cand len 4096 (of_nat k) 0 blk" and ?acc = "?e = cand ! k"
  have k: "unat (of_nat k :: u32) = k" using Suc.prems assms(6) by (simp add: unat_of_nat take_bit_eq_mod)
  have c: "bk_state ?c = bk_state blk" "bk_next ?c = bk_next blk" "bk_prev ?c = ?e"
    "bk_perpos ?c = (bk_perpos blk)[k := if ?acc then 1 else 0]"
    "bk_accepted ?c = (if ?acc then bk_accepted blk + 1 else bk_accepted blk)"
    "bk_firstrej ?c = (if \<not> ?acc \<and> bk_firstrej blk = len then of_nat k else bk_firstrej blk)"
    by (simp_all add: compare_thread_def Let_def expected_token_cpu k)
  let ?blk = "?c\<lparr>bk_next := model_step make_target_model (bk_state blk) ?e, bk_state := model_step make_target_model (bk_state blk) ?e\<rparr>"
  have step: "verify_rounds sched target_w target_b cand len 4096 p (Suc n) (of_nat k) blk =
      verify_rounds sched target_w target_b cand len 4096 (p + 3) n (of_nat (Suc k)) ?blk"
    using phases_step [OF assms(1), of ?c "p + 2" "p + 1"] Suc.prems(1,2) c
    by (simp add: compare_phase [OF assms(1)] add.commute)
  have tk: "take (Suc k) ((bk_perpos blk)[k := v]) = take k (bk_perpos blk) @ [v]" for v
    using Suc.prems(3,4) by (simp add: take_Suc_conv_app_nth)
  have dr: "drop k cand = cand ! k # drop (Suc k) cand" using Suc.prems(3) by (simp add: Cons_nth_drop_Suc)
  have "verdict_of (verify_rounds sched target_w target_b cand len 4096 (p + 3) n (of_nat (Suc k)) ?blk) =
      verify_loop make_target_model len (of_nat (Suc k)) (bk_state ?blk) (bk_prev ?blk) (drop (Suc k) cand)
        (map ucast (take (Suc k) (bk_perpos ?blk)), bk_accepted ?blk, bk_firstrej ?blk)"
    using Suc.prems c by (intro Suc.IH) (simp_all add: make_target_model)
  then show ?case unfolding step dr using tk by (simp add: c Let_def add.commute)
qed

section \<open>The executors\<close>

definition cuda_ok :: "CudaRuntime \<Rightarrow> bool" where
  "cuda_ok cu \<longleftrightarrow> cu_set_device cu \<and> list_all (cu_malloc cu) [0, 1, 2, 3, 4, 5, 6] \<and>
     list_all (cu_copy_in cu) [0, 1, 2] \<and> cu_launch_error cu = None \<and> list_all (cu_copy_out cu) [0, 1, 2]"

text \<open>What the kernels rely on of the runtime: buffers have their size, and every thread runs every phase once.\<close>

definition cuda_sound :: "CudaRuntime \<Rightarrow> bool" where
  "cuda_sound cu \<longleftrightarrow> (\<forall>i n. length (cu_memory cu i n) = n) \<and> fair (cu_schedule cu)"

lemma cuda_seeds:
  "cuda_mix64 ((id_get (sr_id (pin_base_state inp)) * 0x9E3779B97F4A7C15) XOR (id_get (sr_generation (pin_base_state inp)) * 0x94D049BB133111EB))
     (id_get (pin_base_generation inp)) (id_get (mi_revision (pv_proposer_model (pin_provenance inp)))) (ucast (pin_depth inp) * 0x100000001B3) =
   proposal_seed inp"
  "cuda_mix64 ((id_get (sr_id (vin_authoritative_state v)) * 0x9E3779B97F4A7C15) XOR (id_get (sr_generation (vin_authoritative_state v)) * 0x94D049BB133111EB))
     (id_get (vin_authoritative_generation v)) (id_get (mi_revision (vin_proposer v))) (of_nat (cs_size (vin_candidate v)) * 0x100000001B3) =
   verification_seed v"
  by (simp_all only: cuda_mix64_cpu proposal_seed_def verification_seed_def verifier_mix64)

lemma target_built: "build_target (replicate (kNW * kNW) 0) (replicate kNW 0) = (target_w, target_b)"
  by (rule build_target_eq) (simp_all add: kNW_def)

lemma propose_kernel_cpu:
  assumes "cuda_sound cu"
  shows "bk_tokens (proposeKernel (cu_schedule cu) target_w target_b seed depth kVocab aligned branch
      \<lparr>bk_state = cu_memory cu 2 kNW, bk_next = cu_memory cu 4 kNW, bk_prev = 0, bk_tokens = cu_memory cu 3 (unat depth)\<rparr>) =
    propose_loop (unat depth) make_target_model aligned branch 0 (seed_state seed) 0"
proof -
  have sound: "length (cu_memory cu i n) = n" "fair (cu_schedule cu)" for i n using assms by (simp_all add: cuda_sound_def)
  let ?blk = "\<lparr>bk_state = seed_state seed, bk_next = cu_memory cu 4 16, bk_prev = 0, bk_tokens = cu_memory cu 3 (unat depth)\<rparr>"
  have "unat depth < 2 ^ 32" using unsigned_less [of depth, where ?'a = nat] by simp
  from propose_rounds_eq [OF sound(2), of ?blk 0 "unat depth" aligned branch 1] this sound(1) show ?thesis
    by (simp add: proposeKernel_def seed_phase [OF sound(2)] kNW_def kVocab_def sound(1))
qed

lemma verify_kernel_cpu:
  assumes "cuda_sound cu" and "length cand = unat len"
  shows "verdict_of (verifyKernel (cu_schedule cu) target_w target_b cand seed len kVocab
      \<lparr>bk_state = cu_memory cu 3 kNW, bk_next = cu_memory cu 7 kNW, bk_prev = 0, bk_perpos = cu_memory cu 4 (unat len),
       bk_accepted = 0, bk_firstrej = 0\<rparr>) =
    verify_loop make_target_model len 0 (seed_state seed) 0 cand ([], 0, len)"
proof -
  have sound: "length (cu_memory cu i n) = n" "fair (cu_schedule cu)" for i n using assms(1) by (simp_all add: cuda_sound_def)
  let ?blk = "\<lparr>bk_state = seed_state seed, bk_next = cu_memory cu 7 16, bk_prev = 0, bk_perpos = cu_memory cu 4 (unat len),
     bk_accepted = 0, bk_firstrej = len\<rparr>"
  have lt: "unat len < 2 ^ 32" using unsigned_less [of len, where ?'a = nat] by simp
  have code: "verify_seed_thread seed len t b = (if t = 0 then verify_seed_thread seed len 0 b else b)" for t b
    by (simp add: verify_seed_thread_def)
  have seed0: "run_phase (verify_seed_thread seed len) (cu_schedule cu 0)
      \<lparr>bk_state = cu_memory cu 3 16, bk_next = cu_memory cu 7 16, bk_prev = 0, bk_perpos = cu_memory cu 4 (unat len), bk_accepted = 0, bk_firstrej = 0\<rparr> = ?blk"
    using phase_thread0 [of "verify_seed_thread seed len" "verify_seed_thread seed len 0", OF code] fairD [OF sound(2), of 0] fill_draws_eq [of 0 16 "cu_memory cu 3 16"] sound(1)
    by (simp add: verify_seed_thread_def seed_thread_def kNW_def seed_state_def kStateWords_def)
  from verify_rounds_eq [OF sound(2), of ?blk 0 "unat len" cand len 1] lt sound(1) assms(2) show ?thesis
    by (simp add: verifyKernel_def seed0 kNW_def kVocab_def)
qed

lemma cuda_propose_cpu:
  assumes "cuda_sound cu" and "cuda_ok cu" and "pin_compute_budget inp = 0"
  shows "\<exists>r r'. cuda_propose cu (ppc_aligned_tokens cfg) (pin_branch_index inp) inp = Ok r \<and> cpu_propose cfg inp = Ok r' \<and>
    pres_outcome r = pres_outcome r' \<and> pres_error r = pres_error r' \<and> pres_candidate r = pres_candidate r' \<and>
    pres_speculative_state r = pres_speculative_state r' \<and> pres_memory_held r = pres_memory_held r'"
  using assms(2,3)
  by (simp add: cuda_propose_def cpu_propose_def Let_def target_built cuda_seeds propose_kernel_cpu [OF assms(1)] cuda_ok_def
      make_target_model [symmetric] proposal_failure_def)

lemma cuda_verify_cpu:
  assumes "cuda_sound cu" and "cuda_ok cu" and "ready_to_verify inp"
  shows "\<exists>a a' ns note. cuda_verify cu inp = Ok a \<and> cpu_verify inp = Ok a' \<and>
    a = a'\<lparr>acc_execution_measured_ns := ns, acc_verifier_note := note\<rparr>"
proof -
  let ?len = "of_nat (cs_size (vin_candidate inp)) :: u32" and ?cand = "take (unat (of_nat (cs_size (vin_candidate inp)) :: u32)) (cs_ids (vin_candidate inp))"
  define blk where "blk = verifyKernel (cu_schedule cu) target_w target_b ?cand (verification_seed inp) ?len kVocab
      \<lparr>bk_state = cu_memory cu 3 kNW, bk_next = cu_memory cu 7 kNW, bk_prev = 0, bk_perpos = cu_memory cu 4 (unat ?len),
       bk_accepted = 0, bk_firstrej = 0\<rparr>"
  have loop: "verdict_of blk = verify_loop make_target_model ?len 0 (seed_state (verification_seed inp)) 0 ?cand ([], 0, ?len)"
    unfolding blk_def by (rule verify_kernel_cpu [OF assms(1)]) (rule truncated_ids(2))
  have "cuda_verify cu inp = Ok (cuda_acceptance inp blk)"
    using assms(2,3) by (simp add: cuda_verify_def Let_def target_built cuda_seeds cuda_ok_def ready_to_verify_def blk_def)
  moreover have "cpu_verify inp = Ok (acceptance_of inp (verdict_of blk))"
    using assms(3) by (simp add: cpu_verify_def Let_def ready_to_verify_def loop)
  ultimately show ?thesis
    by (auto simp: cuda_acceptance_def acceptance_of_def verdict_of_def Let_def)
qed

section \<open>Properties\<close>


definition sample_cuda :: CudaRuntime where
  "sample_cuda = \<lparr>cu_set_device = True, cu_malloc = (\<lambda>i. True), cu_copy_in = (\<lambda>i. True), cu_launch_error = None,
     cu_copy_out = (\<lambda>i. True), cu_memory = (\<lambda>i n. replicate n 0xCDCDCDCD), cu_schedule = (\<lambda>p. rev [0..<16])\<rparr>"

lemma sample_cuda_works: "cuda_sound sample_cuda" "cuda_ok sample_cuda"
  by (auto simp: sample_cuda_def cuda_sound_def cuda_ok_def fair_def list_all_iff)




section \<open>The executor contracts\<close>

lemma cuda_proposal_contract: "cuda_sound cu \<Longrightarrow> proposal_contract (cuda_propose cu aligned branch)"
proof
  fix inp r assume sound: "cuda_sound cu" and r: "cuda_propose cu aligned branch inp = Ok r" "pres_success r"
  let ?ts = "propose_loop (unat (pin_depth inp)) make_target_model aligned branch 0 (seed_state (proposal_seed inp)) 0"
  have "pin_depth inp \<noteq> 0" "pres_candidate r = Some \<lparr>cs_tokens = map mk_token ?ts\<rparr>"
    using r by (auto simp: cuda_propose_def Let_def target_built cuda_seeds propose_kernel_cpu [OF sound] proposal_failure_def pres_success_def
        split: if_splits option.splits)
  then show "\<exists>c. pres_candidate r = Some c \<and> cs_size c = unat (pin_depth inp) \<and> 0 < cs_size c"
    by (simp add: cs_size_def length_propose_loop unat_gt_0 del: length_greater_0_conv)
qed

text \<open>The CUDA proposer looks neither at the branch of the input nor at its compute budget.\<close>

lemma cuda_propose_ignores:
  "cuda_propose cu aligned branch (inp\<lparr>pin_branch_index := b, pin_compute_budget := c\<rparr>) = cuda_propose cu aligned branch inp"
  by (simp add: cuda_propose_def Let_def)

text \<open>The CUDA verifier never looks at the tokenizer or the vocabulary of the candidate.\<close>

lemma cuda_verify_identity: "cuda_verify cu (inp\<lparr>vin_candidate_identity := ci\<rparr>) = cuda_verify cu inp"
  by (simp add: cuda_verify_def Let_def cuda_acceptance_def verifier_failure_def target_built split: option.split)

lemma cuda_verify_total: "\<exists>a. cuda_verify cu inp = Ok a"
  by (simp add: cuda_verify_def Let_def target_built split: option.split)

lemma cuda_verify_failure:
  "\<not> cuda_ok cu \<or> cs_empty (vin_candidate inp) \<Longrightarrow> \<exists>r msg. cuda_verify cu inp = Ok (verifier_failure inp r msg)"
proof (cases "cu_launch_error cu")
  case (Some e)
  then show ?thesis by (simp add: cuda_verify_def target_built Let_def) blast
next
  case None
  assume "\<not> cuda_ok cu \<or> cs_empty (vin_candidate inp)"
  with None show ?thesis unfolding cuda_ok_def cuda_verify_def target_built Let_def
    by (simp del: list_all_iff list.pred_inject) blast
qed

lemma cuda_verify_cases:
  assumes "cuda_sound cu" and "cuda_verify cu inp = Ok a"
  obtains (failed) r msg where "a = verifier_failure inp r msg"
    | (verified) inp' a' ns msg where "cpu_verify inp' = Ok a'" "vin_candidate inp' = vin_candidate inp"
        "a = a'\<lparr>acc_execution_measured_ns := ns, acc_verifier_note := msg\<rparr>"
proof (cases "cuda_ok cu \<and> \<not> cs_empty (vin_candidate inp)")
  case False
  with cuda_verify_failure [of cu inp] assms(2) that(1) show thesis by auto
next
  case True
  let ?inp = "inp\<lparr>vin_candidate_identity := default_CandidateTokenIdentity\<lparr>cti_tokenizer := StrongId 1, cti_vocab_size := 4096\<rparr>\<rparr>"
  have "ready_to_verify ?inp" using True by (simp add: ready_to_verify_def null_id_def)
  from cuda_verify_cpu [OF assms(1) _ this] True assms(2) show thesis
    using that(2) [of ?inp] by (auto simp: cuda_verify_identity)
qed

lemma cuda_verification_contract:
  assumes "cuda_sound cu" shows "verification_contract (cuda_verify cu)"
proof
  fix inp a assume a: "cuda_verify cu inp = Ok a"
  note cases = cuda_verify_cases [OF assms a]
  show "unat (acc_accepted_prefix a) \<le> cs_size (vin_candidate inp)"
    by (rule cases) (use cpu_ver.accepted_le in \<open>fastforce simp: verifier_failure_def default_AcceptanceResult_def\<close>)+
  show "acc_outcome a = AO_FullAccept \<Longrightarrow> acc_accepted_prefix a = cs_depth (vin_candidate inp)"
    by (rule cases) (use cpu_ver.full_accept in \<open>fastforce simp: verifier_failure_def default_AcceptanceResult_def\<close>)+
  show "acc_outcome a = AO_PartialAccept \<Longrightarrow> acc_accepted_prefix a \<noteq> 0 \<and> acc_accepted_prefix a \<noteq> cs_depth (vin_candidate inp)"
    by (rule cases) (use cpu_ver.partial_accept in \<open>fastforce simp: verifier_failure_def default_AcceptanceResult_def\<close>)+
  show "acc_outcome a \<in> {AO_RejectAll, AO_VerifierFailure} \<Longrightarrow> acc_accepted_prefix a = 0"
    by (rule cases) (use cpu_ver.none_accept in \<open>fastforce simp: verifier_failure_def default_AcceptanceResult_def\<close>)+
qed

end
