(* ===== verification/SF_Device.thy ===== *)
theory SF_Device
  imports SF_Cuda SF_CycleProps
begin

text \<open>
  The CUDA executors as executors of the runtime: on a working device they satisfy the contract that
  the results on cycles rest on (\<open>target_executors\<close>), as the CPU executors do.
\<close>

section \<open>Executors on a device\<close>

text \<open>
  Every call may meet another device state, so the runtime behind an executor is a function of the
  input: uninitialised memory and the order of the threads differ from call to call.
\<close>

definition cuda_proposer_on :: "(ProposalInput \<Rightarrow> CudaRuntime) \<Rightarrow> u32 \<Rightarrow> u32 \<Rightarrow> proposer" where
  "cuda_proposer_on cu aligned branch inp = cuda_propose (cu inp) aligned branch inp"

definition cuda_verifier_on :: "(VerificationInput \<Rightarrow> CudaRuntime) \<Rightarrow> verifier" where
  "cuda_verifier_on cu inp = cuda_verify (cu inp) inp"

definition device_works :: "CudaRuntime \<Rightarrow> bool" where
  "device_works cu \<longleftrightarrow> cuda_sound cu \<and> cuda_ok cu"

lemma cuda_draft_as_cpu:
  assumes "device_works cu" and "cuda_propose cu aligned branch p = Ok r"
  obtains cfg p' r' where "cpu_propose cfg p' = Ok r'" "ppc_aligned_tokens cfg = aligned"
    "pin_depth p' = pin_depth p" "pin_branch_index p' = branch" "pin_compute_budget p' = 0" "proposal_seed p' = proposal_seed p"
    "pres_candidate r = pres_candidate r'" "pres_outcome r = pres_outcome r'"
proof -
  let ?p = "p\<lparr>pin_branch_index := branch, pin_compute_budget := 0\<rparr>"
  let ?cfg = "default_CpuProposerConfig\<lparr>ppc_aligned_tokens := aligned\<rparr>"
  obtain r' where "cpu_propose ?cfg ?p = Ok r'" "pres_candidate r = pres_candidate r'" "pres_outcome r = pres_outcome r'"
    using cuda_propose_cpu [of cu ?p ?cfg] assms by (auto simp: device_works_def cuda_propose_ignores)
  then show thesis by (intro that [of ?cfg ?p]) (simp_all add: proposal_seed_def)
qed

lemma cuda_target_executors:
  assumes cu: "\<And>p. device_works (cu p)" and cv: "\<And>v. device_works (cv v)"
  shows "target_executors (cuda_proposer_on cu aligned branch) (cuda_verifier_on cv) aligned (\<lambda>_. branch)"
proof -
  have sound: "cuda_sound (cu p)" "cuda_sound (cv v)" for p v using assms by (simp_all add: device_works_def)
  note pc = cuda_proposal_contract [OF sound(1)] and vc = cuda_verification_contract [OF sound(2)]
  have total: "\<exists>r. cuda_propose (cu p) aligned branch p = Ok r" for p
    using cuda_propose_cpu [of "cu p" "p\<lparr>pin_branch_index := branch, pin_compute_budget := 0\<rparr>"
        "default_CpuProposerConfig\<lparr>ppc_aligned_tokens := aligned\<rparr>"] cu [of p]
    by (auto simp: device_works_def cuda_propose_ignores)
  show ?thesis
    unfolding cuda_proposer_on_def cuda_verifier_on_def
  proof (unfold_locales, goal_cases)
    case (1 inp r)
    then show ?case using proposal_contract.success_candidate [OF pc] by blast
  next
    case (2 inp a)
    then show ?case using verification_contract.accepted_le [OF vc] by blast
  next
    case (3 inp a)
    then show ?case using verification_contract.full_accept [OF vc] by blast
  next
    case (4 inp a)
    then show ?case using verification_contract.partial_accept [OF vc] by blast
  next
    case (5 inp a)
    then show ?case using verification_contract.none_accept [OF vc] by blast
  next
    case (6 inp)
    show ?case using cuda_verify_failure [of "cv inp" inp] cuda_verify_total by blast
  next
    case (7 p)
    obtain r where r: "cuda_propose (cu p) aligned branch p = Ok r" using total by blast
    obtain cfg p' r' where "cpu_propose cfg p' = Ok r'" "ppc_aligned_tokens cfg = aligned"
      "pin_depth p' = pin_depth p" "pin_branch_index p' = branch" "pin_compute_budget p' = 0" "proposal_seed p' = proposal_seed p"
      "pres_candidate r = pres_candidate r'" "pres_outcome r = pres_outcome r'" by (rule cuda_draft_as_cpu [OF cu r])
    with cpu.drafts [of p' cfg] 7 r show ?case by (auto simp: pres_success_def)
  next
    case (8 p r c)
    obtain cfg p' r' where c: "cpu_propose cfg p' = Ok r'" "ppc_aligned_tokens cfg = aligned"
      "pin_depth p' = pin_depth p" "pin_branch_index p' = branch" "pin_compute_budget p' = 0" "proposal_seed p' = proposal_seed p"
      "pres_candidate r = pres_candidate r'" "pres_outcome r = pres_outcome r'" by (rule cuda_draft_as_cpu [OF cu 8(1)])
    from cpu.follows [OF c(1), of c] 8 c show ?case by simp
  next
    case (9 v a)
    obtain a' where "cpu_verify v = Ok a'" "acc_accepted_prefix a = acc_accepted_prefix a'"
      using cuda_verify_cpu [of "cv v" v] cv [of v] 9 by (auto simp: device_works_def)
    with cpu.judges 9 show ?case by auto
  qed
qed

end
