(* ===== verification/SF_Clock.thy ===== *)
theory SF_Clock
  imports SF_Prelude "HOL-Library.Signed_Division"
begin

text \<open>
  Durations (\<^verbatim>\<open>clock.hpp\<close>, \<^verbatim>\<open>clock.cpp\<close>). The clock of the runtime is a parameter: the sequence of its
  readings. The default clock turns a time point of the standard library's clocks, a number of ticks
  of a period given as a fraction of a second, into nanoseconds. \<open>format_ns\<close> renders a duration in
  the largest unit that is not above it.
\<close>

section \<open>The steady clock\<close>

text \<open>
  \<^verbatim>\<open>duration_cast\<close> to nanoseconds of \<open>ticks\<close> periods of \<open>num / den\<close> seconds: the count is multiplied by
  the numerator of the reduced conversion factor and divided by its denominator, truncating, in a
  signed 64-bit representation; a product that does not fit is undefined.
\<close>

definition duration_cast_ns :: "int \<Rightarrow> int \<Rightarrow> int \<Rightarrow> int cpp" where
  "duration_cast_ns num den ticks =
     (let g = gcd (num * 1000000000) den; n = num * 1000000000 div g; d = den div g; p = ticks * n
      in if - (2 ^ 63) \<le> p \<and> p < 2 ^ 63 then Some (p sdiv d) else None)"

definition monotonic_ns :: "int \<Rightarrow> int \<Rightarrow> int \<Rightarrow> u64 cpp" where
  "monotonic_ns num den ticks = map_option of_int (duration_cast_ns num den ticks)"

definition wall_ns :: "int \<Rightarrow> int \<Rightarrow> int \<Rightarrow> u64 cpp" where
  "wall_ns num den ticks = map_option of_int (duration_cast_ns num den ticks)"

text \<open>The readings are defined and do not decrease up to any tick whose reading is defined; a time before the epoch wraps around.\<close>

lemma sdiv_nonneg: "0 \<le> (k :: int) \<Longrightarrow> 0 < l \<Longrightarrow> k sdiv l = k div l"
  by (cases "k = 0") (simp_all add: signed_divide_int_def sgn_if)

lemma monotonic_ns_mono:
  assumes "0 \<le> t" and "t \<le> t'" and "0 < num" and "0 < den" and "monotonic_ns num den t' = Some y"
  shows "\<exists>x. monotonic_ns num den t = Some x \<and> x \<le> y"
proof -
  let ?g = "gcd (num * 1000000000) den"
  let ?n = "num * 1000000000 div ?g" and ?d = "den div ?g"
  have g: "0 < ?g" using assms(4) by simp
  have d: "0 < ?d" using assms(4) g zdvd_imp_le [of ?g den] by (simp add: pos_imp_zdiv_pos_iff)
  have n: "0 \<le> ?n" using assms(3) g by (simp add: pos_imp_zdiv_nonneg_iff)
  have le: "0 \<le> t * ?n" "t * ?n \<le> t' * ?n" using assms(1,2) n by (simp_all add: mult_right_mono)
  have fits: "t' * ?n < 2 ^ 63" and y: "y = of_int (t' * ?n sdiv ?d)"
    using assms(5) by (auto simp: monotonic_ns_def duration_cast_ns_def Let_def split: if_splits)
  have cast: "t * ?n sdiv ?d = t * ?n div ?d" "t' * ?n sdiv ?d = t' * ?n div ?d"
    using le d by (intro sdiv_nonneg; linarith)+
  have x: "monotonic_ns num den t = Some (of_int (t * ?n div ?d))"
    using le fits cast(1) by (simp add: monotonic_ns_def duration_cast_ns_def Let_def)
  have "t' * ?n div ?d \<le> t' * ?n div 1" using le d by (intro zdiv_mono2) linarith+
  then have "t' * ?n div ?d < 2 ^ 64" using fits by simp
  moreover have "0 \<le> t * ?n div ?d" "t * ?n div ?d \<le> t' * ?n div ?d"
    using le d zdiv_mono1 pos_imp_zdiv_nonneg_iff by blast+
  ultimately have "(of_int (t * ?n div ?d) :: u64) \<le> of_int (t' * ?n div ?d)"
    by (simp add: word_le_def uint_word_of_int take_bit_eq_mod)
  with x y cast(2) show ?thesis by simp
qed

section \<open>Durations as text\<close>

definition format_ns :: "u64 \<Rightarrow> string" where
  "format_ns ns =
     (if ns < 1000 then word_string ns @ ''ns''
      else if ns < 1000000 then word_string (ns div 1000) @ ''us''
      else if ns < 1000000000 then word_string (ns div 1000000) @ ''ms''
      else word_string (ns div 1000000000) @ ''s'')"

text \<open>The number shown is the duration rounded down to the unit shown, and is below one thousand except in seconds.\<close>

lemma format_ns_value:
  obtains k unit scale where "format_ns ns = decimal k @ unit" "k * scale \<le> unat ns" "unat ns < (k + 1) * scale"
    "(unit, scale) \<in> {(''ns'', 1), (''us'', 1000), (''ms'', 1000000), (''s'', 1000000000)}"
    "k < 1000 \<or> unit = ''s''" "k = 0 \<longrightarrow> ns = 0"
proof -
  have round: "unat ns div c * c \<le> unat ns" "unat ns < (unat ns div c + 1) * c" if "0 < c" for c :: nat
    using that dividend_less_div_times [of c "unat ns"] by (simp_all add: mult.commute)
  have units: "format_ns ns = decimal (unat ns div scale) @ unit" "(unit = ''s'') = (1000000000 \<le> unat ns)"
      "scale \<le> unat ns \<or> scale = 1" "unit \<noteq> ''s'' \<longrightarrow> unat ns < 1000 * scale"
    if "(unit, scale) = (if unat ns < 1000 then (''ns'', 1) else if unat ns < 1000000 then (''us'', 1000)
       else if unat ns < 1000000000 then (''ms'', 1000000) else (''s'', 1000000000))" for unit :: string and scale :: nat
    using that by (auto simp: format_ns_def word_string_def word_less_nat_alt unat_div split: if_splits)
  obtain unit scale where us: "(unit, scale) = (if unat ns < 1000 then (''ns'', 1) else if unat ns < 1000000 then (''us'', 1000)
       else if unat ns < 1000000000 then (''ms'', 1000000) else (''s'', 1000000000 :: nat))" by (metis surj_pair)
  then have mem: "(unit, scale) \<in> {(''ns'', 1), (''us'', 1000), (''ms'', 1000000), (''s'', 1000000000)}" "0 < scale"
    by (auto split: if_splits)
  show thesis
  proof (rule that [OF units(1) [OF us] round [OF mem(2)] mem(1)])
    show "unat ns div scale < 1000 \<or> unit = ''s''" using units(4) [OF us] mem(2) by (auto simp: div_less_iff_less_mult)
    show "unat ns div scale = 0 \<longrightarrow> ns = 0" using units(3) [OF us] mem(2) by (auto simp: div_eq_0_iff unat_eq_zero)
  qed
qed

end
