(* ===== verification/SF_Engine.thy ===== *)
theory SF_Engine
  imports SF_CycleProps
begin

text \<open>
  A runtime as the command-line tool and the example programs build it: one pair of executors that
  follow the target model, a policy with a fixed depth, and requests whose models agree and that have
  no deadline. The theory gives what submitting such a request and running one cycle of it amount to,
  for every such pair (CPU and CUDA); the programs' theories rest on these results.
\<close>

section \<open>Engines and their requests\<close>

definition cli_policy :: "u32 \<Rightarrow> u32 \<Rightarrow> ProposalPolicy" where
  "cli_policy depth brs = default_ProposalPolicy\<lparr>pol_max_depth := depth, pol_max_branches := brs,
     pol_adaptive_depth_enabled := False\<rparr>"

definition engine_ok :: "proposer \<Rightarrow> verifier \<Rightarrow> ProposalPolicy \<Rightarrow> Fabric \<Rightarrow> bool" where
  "engine_ok p v pol f \<longleftrightarrow> fabric_wf f \<and> sch_policy (im_scheduler f) = pol \<and>
     cfg_proposer (im_cfg f) = Some p \<and> cfg_verifier (im_cfg f) = Some v"

definition plain_request :: "SpeculationRequest \<Rightarrow> bool" where
  "plain_request req \<longleftrightarrow> pair_agrees (rq_draft_model req) (rq_target_model req) \<and> rq_deadline_ns req = None"

definition request_ok :: "RequestState \<Rightarrow> bool" where
  "request_ok rs \<longleftrightarrow> plain_request (rs_req rs) \<and> \<not> rs_terminal rs \<and> \<not> rs_cancelled rs \<and> rs_cycle rs = machine_at Ph_Ready"

text \<open>The seed of the first cycle of a request, and the request as it is registered.\<close>

definition submitted_seed :: "SpeculationRequest \<Rightarrow> u32 \<Rightarrow> u64" where
  "submitted_seed req depth = proposal_seed (default_ProposalInput\<lparr>
     pin_base_state := \<lparr>sr_id = StrongId (id_get (rq_sequence req) * 0x9E3779B97F4A7C15), sr_generation = StrongId 0\<rparr>,
     pin_base_generation := StrongId 0, pin_depth := depth,
     pin_provenance := default_ProposalProvenance\<lparr>pv_proposer_model := rq_draft_model req\<rparr>\<rparr>)"

definition registered :: "SpeculationRequest \<Rightarrow> RequestState \<Rightarrow> bool" where
  "registered req rs \<longleftrightarrow> rs_req rs = req \<and> \<not> rs_terminal rs \<and> \<not> rs_cancelled rs \<and> rs_cycle rs = machine_at Ph_Ready \<and>
     rs_proposals rs = [] \<and> rs_branches rs = [] \<and> rs_committed rs = rq_prefix req \<and> rs_attempt rs = StrongId 1 \<and>
     rs_retry_count rs = 0 \<and> (\<forall>depth. cycle_seed rs depth = submitted_seed req depth)"

lemma registered_ok: "registered req rs \<Longrightarrow> plain_request req \<Longrightarrow> request_ok rs"
  by (simp add: registered_def request_ok_def)

lemma engine_ok_new: "engine_ok p v pol (new_fabric \<lparr>cfg_proposer = Some p, cfg_verifier = Some v, cfg_clock = clk,
    cfg_policy = pol, cfg_epoch = e\<rparr>)"
proof -
  have "im_scheduler (new_fabric c) = new_scheduler (cfg_policy c)" "im_cfg (new_fabric c) = c" for c
    by (simp_all add: new_fabric_def)
  then show ?thesis by (simp add: engine_ok_def wf_new_fabric new_scheduler_def)
qed

lemma new_engine_empty: "lookup (new_fabric c) r = None"
  by (simp add: new_fabric_def)

lemma engine_submit:
  assumes "engine_ok p v pol f" and "lookup f (rq_id req) = None"
  obtains rs f1 where "submit req f = (Ok (), f1)" "engine_ok p v pol f1" "lookup f1 (rq_id req) = Some rs"
    "registered req rs" "\<forall>r. r \<noteq> rq_id req \<longrightarrow> lookup f1 r = lookup f r" "im_cfg f1 = im_cfg f" "im_scheduler f1 = im_scheduler f"
    "im_stats f1 = (im_stats f)\<lparr>st_requests_eligible_for_speculation := st_requests_eligible_for_speculation (im_stats f) + 1\<rparr>"
proof -
  have wf: "fabric_wf (snd (submit req f))" using assms(1) by (simp add: engine_ok_def submit_wf)
  have def_null: "is_null (rq_id (rs_req default_RequestState))"
    by (simp add: default_RequestState_def default_SpeculationRequest_def is_null_def null_id_def)
  have frame: "submit req f = (Ok (), snd (submit req f))" "im_cfg (snd (submit req f)) = im_cfg f"
    "im_scheduler (snd (submit req f)) = im_scheduler f" "r \<noteq> rq_id req \<Longrightarrow> lookup (snd (submit req f)) r = lookup f r"
    "im_stats (snd (submit req f)) =
      (im_stats f)\<lparr>st_requests_eligible_for_speculation := st_requests_eligible_for_speculation (im_stats f) + 1\<rparr>" for r
    using assms(2) def_null by (simp_all add: submit_def Let_def)
  obtain rs where "lookup (snd (submit req f)) (rq_id req) = Some rs" "registered req rs"
    using assms(2) def_null
    by (simp add: submit_def Let_def default_RequestState_def registered_def cycle_seed_def submitted_seed_def proposal_seed_def)
  with frame wf assms(1) show thesis by (intro that) (auto simp: engine_ok_def)
qed

section \<open>One cycle\<close>

text \<open>When the policy lets a request speculate: it is enabled, and neither limit of the backpressure check applies.\<close>

definition open_policy :: "ProposalPolicy \<Rightarrow> bool" where
  "open_policy pol \<longleftrightarrow> pol_speculating_enabled pol \<and> pol_max_outstanding_speculative_work pol = 8 \<and>
     pol_min_economic_acceptance_ratio pol = 0"

lemma engine_admit:
  assumes "engine_ok p v pol f" and "open_policy pol" and "lookup f rid = Some rs" and "request_ok rs" and "length (rs_proposals rs) < 8"
    and "plan_proposal (im_scheduler f) (rs_req rs) (rs_auth_gen rs) 0 0 0 = Some (plan, rat)"
  obtains pp f1 where "cycle_prepare rid f = Some (Inr pp, f1)" "pp_depth pp = max 1 (plan_depth plan)"
    "pp_branch_count pp = max 1 (plan_branch_count plan)" "pp_proposer pp = p" "pp_verifier pp = v" "im_stats f1 = im_stats f"
proof -
  have live: "\<not> rs_terminal rs" "\<not> rs_cancelled rs" "rs_cycle rs = machine_at Ph_Ready"
    and req: "pair_agrees (rq_draft_model (rs_req rs)) (rq_target_model (rs_req rs))" "rq_deadline_ns (rs_req rs) = None"
    using assms(4) by (simp_all add: request_ok_def plain_request_def)
  have pol: "sch_policy (im_scheduler f) = pol" and ex: "cfg_proposer (im_cfg f) = Some p" "cfg_verifier (im_cfg f) = Some v"
    using assms(1) by (simp_all add: engine_ok_def)
  have res: "rs_reservations rs = []" using assms(1) wf_lookup [OF _ assms(3)] by (simp add: engine_ok_def request_wf_def)
  have n: "\<not> 8 \<le> (of_nat (length (rs_proposals rs)) :: u32)" using assms(5) by (simp add: word_le_nat_alt unat_of_nat)
  have nonterm: "\<not> is_terminal_phase (ssm_phase (rs_cycle rs))" by (simp add: live(3) machine_at_def is_terminal_phase_def)
  have bp: "\<not> bp_blocked (cycle_backpressure rs (set_request rid rs f))"
    using n assms(2) by (simp add: cycle_backpressure_def backpressure_blocked_iff pol open_policy_def active_reservation_bytes_def res)
  have "\<exists>pp f1. cycle_admit rid rs f = Some (Inr pp, f1) \<and> pp_depth pp = max 1 (plan_depth plan) \<and>
    pp_branch_count pp = max 1 (plan_branch_count plan) \<and> pp_proposer pp = p \<and> pp_verifier pp = v \<and> im_stats f1 = im_stats f"
    using bp assms(6) ex req by (simp add: cycle_admit_def Let_def nonterm compatible_iff)
  with assms(3) live req that show thesis by (auto simp: cycle_prepare_def)
qed

lemma fixed_admit:
  assumes "engine_ok p v (cli_policy depth brs) f" and "lookup f rid = Some rs" and "request_ok rs" and "length (rs_proposals rs) < 8"
  obtains pp f1 where "cycle_prepare rid f = Some (Inr pp, f1)" "pp_depth pp = max 1 depth" "pp_branch_count pp = max 1 brs"
    "pp_proposer pp = p" "pp_verifier pp = v"
proof -
  have pol: "open_policy (cli_policy depth brs)" "sch_policy (im_scheduler f) = cli_policy depth brs"
    using assms(1) by (simp_all add: open_policy_def cli_policy_def default_ProposalPolicy_def engine_ok_def)
  obtain plan rat where plan: "plan_proposal (im_scheduler f) (rs_req rs) (rs_auth_gen rs) 0 0 0 = Some (plan, rat)"
    "plan_depth plan = max 1 depth" "plan_branch_count plan = max 1 brs"
    by (simp add: plan_proposal_def planned_depth_def pol(2) cli_policy_def default_ProposalPolicy_def Let_def)
  show thesis
    by (rule engine_admit [OF assms(1) pol(1) assms(2-4) plan(1)]) (use plan(2,3) that in simp)
qed

text \<open>The branches of a request after the final section: one is added for every new branch identifier.\<close>

lemma retire_first_ids: "map br_id (fst (retire_first b bs)) = map br_id bs"
  by (induction bs) (auto simp: Let_def case_prod_beta)

lemma retire_step_ids:
  assumes "b \<notin> set (map br_id (fst acc))"
  shows "map br_id (fst (retire_step rs keep b acc)) = map br_id (fst acc) @ [b]"
proof -
  have "\<not> list_ex (\<lambda>bb. br_id bb = b) (fst acc)" using assms by (auto simp: list_ex_iff)
  then show ?thesis
    by (cases "b = keep") (simp_all add: retire_step_def Let_def case_prod_beta retire_first_ids, simp_all add: new_branch_def)
qed

lemma retire_fold_ids:
  assumes "distinct (map br_id (fst acc) @ map bres_branch brs)"
  shows "map br_id (fst (foldl (\<lambda>acc br. retire_step rs keep (bres_branch br) acc) acc brs)) = map br_id (fst acc) @ map bres_branch brs"
  using assms
proof (induction brs arbitrary: acc)
  case (Cons br brs)
  have ids: "map br_id (fst (retire_step rs keep (bres_branch br) acc)) = map br_id (fst acc) @ [bres_branch br]"
    using Cons.prems by (intro retire_step_ids) auto
  have "distinct (map br_id (fst (retire_step rs keep (bres_branch br) acc)) @ map bres_branch brs)"
    unfolding ids using Cons.prems by auto
  from Cons.IH [OF this] show ?case by (simp add: ids)
qed simp

lemma decide_branches:
  assumes "decide pr wb cand ap winprop out rs = Some (out', rs')" and "distinct (map br_id (rs_branches rs) @ map bres_branch pr)"
  shows "rbk_success (co_rollback out')" and "map br_id (rs_branches rs') = map br_id (rs_branches rs) @ map bres_branch pr"
  using assms by (auto simp: decide_def Let_def case_prod_beta retire_others_def advance_eq advanced_def retire_fold_ids
      split: if_splits bind_splits)

lemma propose_branch_id: "propose_branch rid pp b rs = Ok br \<Longrightarrow> bres_branch br = StrongId (ucast (b + 1))"
  by (auto simp: propose_branch_def split: Result.splits)

lemma ucast_u32_inject: "(ucast (x :: u32) :: u64) = ucast y \<longleftrightarrow> x = y"
proof -
  have "unat (ucast z :: u64) = unat z" for z :: u32
    using unsigned_less [of z, where ?'a = nat] by (simp add: unsigned_ucast_eq take_bit_eq_mod)
  then show ?thesis by (metis word_unat_eq_iff)
qed

lemma answered_branches:
  assumes "answered rid pp rs proposed accepted"
  shows "distinct (map bres_branch proposed)"
proof -
  have b: "bres_branch (proposed ! i) = StrongId (ucast (of_nat i + 1 :: u32))" if "i < length proposed" for i
    using propose_branch_id [OF answered_nth(2) [OF assms that]] .
  have n: "length proposed < 2 ^ 32"
    using assms unsigned_less [of "pp_branch_count pp", where ?'a = nat] by (simp add: answered_def)
  have "i = j" if "i < length proposed" "j < length proposed" "bres_branch (proposed ! i) = bres_branch (proposed ! j)" for i j
  proof -
    have "(of_nat i + 1 :: u32) = of_nat j + 1" using that b by (simp add: ucast_u32_inject)
    then have "(of_nat i :: u32) = of_nat j" by simp
    moreover have "i < 2 ^ 32" "j < 2 ^ 32" using that(1,2) n by simp_all
    ultimately show ?thesis using of_nat_neq_u32 [of i j] of_nat_neq_u32 [of j i] by (cases i j rule: linorder_cases) auto
  qed
  then show ?thesis by (auto simp: distinct_conv_nth)
qed

text \<open>What a cycle leaves of a request: the tokens \<open>xs\<close> appended and one more proposal.\<close>

definition cycled :: "RequestState \<Rightarrow> u32 list \<Rightarrow> RequestState \<Rightarrow> bool" where
  "cycled rs xs rs' \<longleftrightarrow> rs_req rs' = rs_req rs \<and> rs_committed rs' = rs_committed rs @ xs \<and>
     length (rs_proposals rs') = Suc (length (rs_proposals rs)) \<and> rs_attempt rs' = rs_attempt rs \<and>
     rs_retry_count rs' = rs_retry_count rs \<and> rs_events rs' \<noteq> [] \<and> \<not> rs_terminal rs' \<and> \<not> rs_cancelled rs' \<and>
     rs_cycle rs' = machine_at Ph_Ready"

lemma cycled_ok: "cycled rs xs rs' \<Longrightarrow> request_ok rs \<Longrightarrow> request_ok rs'"
  by (simp add: cycled_def request_ok_def)

text \<open>What a completed cycle of depth \<open>depth\<close> reports when \<open>n\<close> tokens were accepted.\<close>

definition reports :: "u32 \<Rightarrow> nat \<Rightarrow> CycleOutcome \<Rightarrow> bool" where
  "reports depth n out \<longleftrightarrow> co_accepted_tokens out = of_nat n \<and> co_proposed_tokens out = depth \<and>
     co_rejected_tokens out = depth - of_nat n \<and> co_phase out = Ph_Ready \<and> rbk_success (co_rollback out) \<and>
     co_outcome out = (if n = unat depth then CK_VerificationSuccessFullAccept
       else if n \<noteq> 0 then CK_VerificationSuccessPartialAccept else CK_VerificationRejectAll)"

text \<open>A completed cycle of an engine, whatever the executors answered.\<close>

lemma cycle_leaves:
  assumes "engine_ok p v pol f" and "lookup f rid = Some rs" and "request_ok rs"
    and "cycle_prepare rid f = Some (Inr pp, f1)" and "run_cycle rid f = Some (Ok out, f')"
    and "lookup f' rid = Some rs'" and "rs_committed rs' = rs_committed rs @ xs"
  shows "engine_ok p v pol f'" and "cycled rs xs rs'"
    and "\<forall>r. r \<noteq> rid \<longrightarrow> rel_option same_request (lookup f r) (lookup f' r)"
    and "co_proposed_tokens out = co_accepted_tokens out + co_rejected_tokens out" and "co_phase out = Ph_Ready"
    and "rs_branches rs = [] \<Longrightarrow> rbk_success (co_rollback out) \<and> length (rs_branches rs') = unat (pp_branch_count pp)"
proof -
  have wf: "fabric_wf f" using assms(1) by (simp add: engine_ok_def)
  from run_cycle_split [OF assms(4) wf assms(2,5)] obtain proposed accepted where
    ans: "answered rid pp rs proposed accepted" and c: "cycle_commit rid pp proposed accepted f1 = Some (Ok out, f')" .
  obtain rs1 where rs1: "lookup f1 rid = Some rs1" "same_request rs rs1"
    using cycle_prepare_request(1) [OF assms(4) wf, of rid] assms(2) by (auto elim: option.rel_cases)
  note prep = cycle_prepare_request [OF assms(4) wf] and same = same_requestD [OF rs1(2)]
  have live: "\<not> rs_terminal rs1" "\<not> rs_cancelled rs1" using assms(3) same by (simp_all add: request_ok_def)
  show "co_phase out = Ph_Ready" using reported_phase [OF wf assms(2) _ assms(4,5)] assms(3) by (simp add: request_ok_def)
  show "co_proposed_tokens out = co_accepted_tokens out + co_rejected_tokens out" using cycle_commit_report [OF c rs1(1) live] .
  show "rbk_success (co_rollback out) \<and> length (rs_branches rs') = unat (pp_branch_count pp)" if "rs_branches rs = []"
  proof -
    obtain wb cand ap winprop o1 m rs2 where d: "decide proposed wb cand ap winprop o1 (rs1\<lparr>rs_cycle := m\<rparr>) = Some (out, rs2)"
      "rs_branches rs' = rs_branches rs2"
      using c rs1(1) live assms(6) by (auto simp: cycle_commit_def Let_def split: bind_splits)
    have "distinct (map br_id (rs_branches (rs1\<lparr>rs_cycle := m\<rparr>)) @ map bres_branch proposed)"
      using answered_branches [OF ans] same(8) that by simp
    from decide_branches [OF d(1) this] have "rbk_success (co_rollback out)" "map br_id (rs_branches rs2) = map bres_branch proposed"
      using same(8) that by simp_all
    then show ?thesis using d(2) ans by (metis answered_def length_map)
  qed
  have nonempty: "push_bounded 512 e es \<noteq> []" for e and es :: "Event list" by (cases es) (auto simp: push_bounded_def Let_def)
  from c prep(2) rs1(1) live have "engine_ok p v pol f' \<and> cycled rs xs rs' \<and>
      (\<forall>r. r \<noteq> rid \<longrightarrow> rel_option same_request (lookup f r) (lookup f' r))"
  proof (rule cycle_commit_live)
    fix win a cand o1 bs e
    assume h: "lookup f' rid = Some (with_event e (settled (advanced (acc_accepted_prefix a) cand rs1)
         (winning_proposal rid rs1 win cand (acc_accepted_prefix a)) bs))"
      "\<And>r'. r' \<noteq> rid \<Longrightarrow> lookup f' r' = lookup f1 r'" "fabric_wf f'" "im_cfg f' = im_cfg f1"
      "im_scheduler f' = (im_scheduler f1)\<lparr>sch_adaptive :=
         ad_record (acceptance_sample (acc_accepted_prefix a) (of_nat (cs_size cand))) (sch_adaptive (im_scheduler f1))\<rparr>"
    have rs': "rs' = with_event e (settled (advanced (acc_accepted_prefix a) cand rs1)
         (winning_proposal rid rs1 win cand (acc_accepted_prefix a)) bs)" using h(1) assms(6) by simp
    have "cycled rs xs rs'"
      using assms(7) same live nonempty unfolding cycled_def rs' by (simp add: settled_def advanced_def with_event_def)
    moreover have "engine_ok p v pol f'" using assms(1) h(3-5) prep(3,4) by (simp add: engine_ok_def)
    moreover have "\<forall>r. r \<noteq> rid \<longrightarrow> rel_option same_request (lookup f r) (lookup f' r)" using h(2) prep(1) by simp
    ultimately show ?thesis by blast
  qed
  then show "engine_ok p v pol f'" "cycled rs xs rs'"
    "\<forall>r. r \<noteq> rid \<longrightarrow> rel_option same_request (lookup f r) (lookup f' r)" by blast+
qed

context target_executors
begin

text \<open>What a completed cycle of an engine reports as rejected, and what it adds to the counters and the history.\<close>

lemma cycle_accounts:
  assumes "fabric_wf f" and "lookup f rid = Some rs" and "cycle_prepare rid f = Some (Inr pp, f1)"
    and "pp_proposer pp = propose" and "pp_verifier pp = verify" and "run_cycle rid f = Some (Ok out, f')"
  shows "co_rejected_tokens out = pp_depth pp - co_accepted_tokens out"
    and "im_stats f' = outcome_stats (co_outcome out) (pp_depth pp) (co_accepted_tokens out) (im_stats f1)"
    and "im_scheduler f' = (im_scheduler f)\<lparr>sch_adaptive :=
       ad_record (acceptance_sample (co_accepted_tokens out) (pp_depth pp)) (sch_adaptive (im_scheduler f))\<rparr>"
proof -
  have tok: "\<not> is_null (tok_id (mi_tokenizer (rq_draft_model (rs_req rs))))"
    using cycle_prepare_ready [OF assms(3)] assms(2) by (metis option.inject pair_agrees_def null_id_is_null(2))
  from run_cycle_split [OF assms(3,1,2,6)] obtain proposed accepted where
    ans: "answered rid pp rs proposed accepted" and c: "cycle_commit rid pp proposed accepted f1 = Some (Ok out, f')" .
  note prep = cycle_prepare_request [OF assms(3,1)]
  obtain rs1 where rs1: "lookup f1 rid = Some rs1" "same_request rs rs1"
    using prep(1) [of rid] assms(2) by (auto elim: option.rel_cases)
  have live: "\<not> rs_terminal rs1" "\<not> rs_cancelled rs1"
    using cycle_prepare_ready [OF assms(3)] assms(2) same_requestD [OF rs1(2)] by (metis option.inject)+
  from c prep(2) rs1(1) live have "co_rejected_tokens out = pp_depth pp - co_accepted_tokens out \<and>
      im_stats f' = outcome_stats (co_outcome out) (pp_depth pp) (co_accepted_tokens out) (im_stats f1) \<and>
      im_scheduler f' = (im_scheduler f)\<lparr>sch_adaptive :=
        ad_record (acceptance_sample (co_accepted_tokens out) (pp_depth pp)) (sch_adaptive (im_scheduler f))\<rparr>"
  proof (rule cycle_commit_live)
    fix win a cand o1 bs e
    assume h: "pick_winner proposed accepted < length proposed" "win = proposed ! pick_winner proposed accepted"
      "a = accepted ! pick_winner proposed accepted" "pres_candidate (bres_pr win) = Some cand"
      "Ok out = Ok o1" "co_accepted_tokens o1 = acc_accepted_prefix a"
      "co_rejected_tokens o1 = of_nat (cs_size cand) - acc_accepted_prefix a"
      "im_scheduler f' = (im_scheduler f1)\<lparr>sch_adaptive :=
         ad_record (acceptance_sample (acc_accepted_prefix a) (of_nat (cs_size cand))) (sch_adaptive (im_scheduler f1))\<rparr>"
      "im_stats f' = outcome_stats (co_outcome o1) (of_nat (cs_size cand)) (acc_accepted_prefix a) (im_stats f1)"
    have "cs_size cand = unat (pp_depth pp)"
      using branch(1) [OF answered_nth(2,3) [OF ans h(1), folded h(2,3)] assms(4,5) h(4) tok] .
    with h(5-9) prep(4) show ?thesis by simp
  qed
  then show "co_rejected_tokens out = pp_depth pp - co_accepted_tokens out"
    "im_stats f' = outcome_stats (co_outcome out) (pp_depth pp) (co_accepted_tokens out) (im_stats f1)"
    "im_scheduler f' = (im_scheduler f)\<lparr>sch_adaptive :=
       ad_record (acceptance_sample (co_accepted_tokens out) (pp_depth pp)) (sch_adaptive (im_scheduler f))\<rparr>" by blast+
qed

text \<open>
  One cycle completes, its report is consistent, exactly the agreement of the best branch is
  committed, and the engine and the request are ready for the next one.
\<close>

lemma engine_cycle:
  assumes "engine_ok propose verify (cli_policy depth brs) f" and "lookup f rid = Some rs" and "request_ok rs" and "length (rs_proposals rs) < 8"
    and "rs_branches rs = []" and "0 < unat depth" and "unat depth \<le> 256"
  defines "agree \<equiv> \<lambda>i. branch_agreement (cycle_seed rs depth) depth aligned (lane (of_nat i))"
  obtains out f' rs' xs w where "run_cycle rid f = Some (Ok out, f')" "engine_ok propose verify (cli_policy depth brs) f'"
    "lookup f' rid = Some rs'" "cycled rs xs rs'" "length (rs_branches rs') = unat (max 1 brs)" "reports depth (length xs) out"
    "w < unat (max 1 brs)" "length xs = agree w" "\<forall>i<unat (max 1 brs). agree i \<le> length xs"
    "\<forall>r. r \<noteq> rid \<longrightarrow> rel_option same_request (lookup f r) (lookup f' r)"
proof -
  have wf: "fabric_wf f" using assms(1) by (simp add: engine_ok_def)
  obtain pp f1 where pp: "cycle_prepare rid f = Some (Inr pp, f1)" "pp_depth pp = max 1 depth" "pp_branch_count pp = max 1 brs"
    "pp_proposer pp = propose" "pp_verifier pp = verify"
    by (rule fixed_admit [OF assms(1-4)])
  have d: "pp_depth pp = depth" using assms(6) pp(2) by (simp add: max_def word_le_nat_alt)
  have small: "unat (pp_depth pp) \<le> 256" using d assms(7) by simp
  obtain out f' rs' w where r: "run_cycle rid f = Some (Ok out, f')" "lookup f' rid = Some rs'"
    "w < unat (pp_branch_count pp)"
    "\<forall>i<unat (pp_branch_count pp).
       branch_agreement (cycle_seed rs depth) depth aligned (lane (of_nat i)) \<le> branch_agreement (cycle_seed rs depth) depth aligned (lane (of_nat w))"
    "unat (co_accepted_tokens out) = branch_agreement (cycle_seed rs depth) depth aligned (lane (of_nat w))"
    "rs_committed rs' = rs_committed rs @
       take (unat (co_accepted_tokens out)) (cpu_draft (cycle_seed rs depth) depth aligned (lane (of_nat w)))"
    "id_get (rs_auth_gen rs') = id_get (rs_auth_gen rs) + ucast (co_accepted_tokens out)"
    "co_outcome out = (if co_accepted_tokens out = depth then CK_VerificationSuccessFullAccept
       else if 0 < co_accepted_tokens out then CK_VerificationSuccessPartialAccept else CK_VerificationRejectAll)"
    by (rule cycle_exact [OF wf assms(2) pp(1,4,5) small, unfolded d])
  let ?xs = "take (unat (co_accepted_tokens out)) (cpu_draft (cycle_seed rs depth) depth aligned (lane (of_nat w)))"
  have len: "length ?xs = unat (co_accepted_tokens out)"
    using r(5) branch_agreement_bounds(2) [of "cycle_seed rs depth" depth aligned "lane (of_nat w)"] by simp
  note l = cycle_leaves [OF assms(1-3) pp(1) r(1,2,6)] and rj = cycle_accounts(1) [OF wf assms(2) pp(1,4,5) r(1)]
  have words: "(co_accepted_tokens out = depth) = (unat (co_accepted_tokens out) = unat depth)"
    "(0 < co_accepted_tokens out) = (unat (co_accepted_tokens out) \<noteq> 0)"
    by (rule word_unat_eq_iff) (simp add: word_less_nat_alt)
  have "reports depth (length ?xs) out"
    using words l(4-6) assms(5) rj d r(8) unfolding reports_def len by simp
  with that [OF r(1) l(1) r(2) l(2)] l(3,6) assms(5) pp(3) r(3-5) show thesis unfolding agree_def len by simp
qed

end

section \<open>Engines on the CPU executors\<close>

abbreviation cpu_engine :: "u32 \<Rightarrow> u32 \<Rightarrow> u32 \<Rightarrow> Fabric \<Rightarrow> bool" where
  "cpu_engine depth brs aligned \<equiv>
     engine_ok (cpu_propose (default_CpuProposerConfig\<lparr>ppc_aligned_tokens := aligned\<rparr>)) cpu_verify (cli_policy depth brs)"

lemma cpu_engine_cycle:
  assumes "cpu_engine depth brs aligned f" and "lookup f rid = Some rs" and "request_ok rs" and "length (rs_proposals rs) < 8"
    and "rs_branches rs = []" and "0 < unat depth" and "unat depth \<le> 256"
  obtains out f' rs' xs where "run_cycle rid f = Some (Ok out, f')" "cpu_engine depth brs aligned f'"
    "lookup f' rid = Some rs'" "cycled rs xs rs'" "length (rs_branches rs') = unat (max 1 brs)" "reports depth (length xs) out"
    "length xs = best_agreement (cycle_seed rs depth) depth (max 1 brs) aligned"
    "min (unat aligned) (unat depth) \<le> length xs" "length xs \<le> unat depth"
    "\<forall>r. r \<noteq> rid \<longrightarrow> rel_option same_request (lookup f r) (lookup f' r)"
proof (rule cpu.engine_cycle [OF assms])
  let ?al = "ppc_aligned_tokens (default_CpuProposerConfig\<lparr>ppc_aligned_tokens := aligned\<rparr>)"
  let ?agree = "\<lambda>i. branch_agreement (cycle_seed rs depth) depth ?al (of_nat i)"
  fix out f' rs' w and xs :: "u32 list"
  assume c: "run_cycle rid f = Some (Ok out, f')" "cpu_engine depth brs aligned f'"
    "lookup f' rid = Some rs'" "cycled rs xs rs'" "length (rs_branches rs') = unat (max 1 brs)" "reports depth (length xs) out"
    "w < unat (max 1 brs)" "length xs = ?agree w" "\<forall>i<unat (max 1 brs). ?agree i \<le> length xs"
    "\<forall>r. r \<noteq> rid \<longrightarrow> rel_option same_request (lookup f r) (lookup f' r)"
  have "length xs = best_agreement (cycle_seed rs depth) depth (max 1 brs) aligned"
    using best_agreement_eq [OF c(7), of "cycle_seed rs depth" depth aligned] c(8,9) by simp
  moreover have "min (unat aligned) (unat depth) \<le> length xs" "length xs \<le> unat depth"
    unfolding c(8) using branch_agreement_bounds [where aligned = aligned and depth = depth] by simp_all
  ultimately show thesis using that [OF c(1-6)] c(10) by blast
qed

text \<open>The first cycle of a request: submitted to an engine that does not know it, then run once.\<close>

lemma first_cycle:
  assumes "cpu_engine depth brs aligned f" and "lookup f (rq_id req) = None" and "plain_request req"
    and "0 < unat depth" and "unat depth \<le> 256"
  defines "k \<equiv> best_agreement (submitted_seed req depth) depth (max 1 brs) aligned"
  obtains rs f1 out f' rs' xs where "submit req f = (Ok (), f1)" "lookup f1 (rq_id req) = Some rs" "registered req rs"
    "run_cycle (rq_id req) f1 = Some (Ok out, f')" "cpu_engine depth brs aligned f'" "lookup f' (rq_id req) = Some rs'"
    "cycled rs xs rs'" "length (rs_branches rs') = unat (max 1 brs)" "length xs = k" "reports depth k out" "min (unat aligned) (unat depth) \<le> k" "k \<le> unat depth"
    "\<forall>r. r \<noteq> rq_id req \<longrightarrow> rel_option same_request (lookup f r) (lookup f' r)"
    "authoritative_length (rq_id req) f' = Ok (of_nat (length (rq_prefix req) + k))"
proof -
  obtain rs f1 where s: "submit req f = (Ok (), f1)" "cpu_engine depth brs aligned f1" "lookup f1 (rq_id req) = Some rs"
    "registered req rs" "\<forall>r. r \<noteq> rq_id req \<longrightarrow> lookup f1 r = lookup f r" "im_cfg f1 = im_cfg f" "im_scheduler f1 = im_scheduler f"
    "im_stats f1 = (im_stats f)\<lparr>st_requests_eligible_for_speculation := st_requests_eligible_for_speculation (im_stats f) + 1\<rparr>"
    by (rule engine_submit [OF assms(1,2)])
  have n: "length (rs_proposals rs) < 8" "rs_branches rs = []" and seed: "cycle_seed rs depth = submitted_seed req depth" and com: "rs_committed rs = rq_prefix req"
    using s(4) by (simp_all add: registered_def)
  obtain out f' rs' xs where c: "run_cycle (rq_id req) f1 = Some (Ok out, f')" "cpu_engine depth brs aligned f'"
    "lookup f' (rq_id req) = Some rs'" "cycled rs xs rs'" "length (rs_branches rs') = unat (max 1 brs)" "reports depth (length xs) out"
    "length xs = best_agreement (cycle_seed rs depth) depth (max 1 brs) aligned"
    "min (unat aligned) (unat depth) \<le> length xs" "length xs \<le> unat depth"
    "\<forall>r. r \<noteq> rq_id req \<longrightarrow> rel_option same_request (lookup f1 r) (lookup f' r)"
    by (rule cpu_engine_cycle [OF s(2,3) registered_ok [OF s(4) assms(3)] n assms(4,5)])
  have k: "length xs = k" using c(7) seed by (simp add: k_def)
  have "authoritative_length (rq_id req) f' = Ok (of_nat (length (rq_prefix req) + k))"
    using c(3,4) com k by (simp add: authoritative_length_def cycled_def)
  with that [OF s(1,3,4) c(1-5)] k c(6,8-10) s(5) show thesis by simp
qed

end
