(* ===== verification/SF_Cli.thy ===== *)
theory SF_Cli
  imports SF_Engine SF_Persistence SF_CText
begin

text \<open>
  The command-line tool (\<^verbatim>\<open>sf.cpp\<close>): one function per command, from its options to the exit code and
  the text written to standard output. A command builds its own engine on the CPU executors, so the
  theory composes the runtime, the executors and the archive format. \<open>clk\<close> is the sequence of the
  steady clock's readings. The value of an erroneous \<^verbatim>\<open>Result\<close> and a number outside \<^verbatim>\<open>int\<close> given to
  \<^verbatim>\<open>std::atoi\<close> are undefined behaviour (\<open>None\<close>).
\<close>

section \<open>Printing\<close>

definition print_bool :: "bool \<Rightarrow> string" where "print_bool b = (if b then ''1'' else ''0'')"

text \<open>\<^verbatim>\<open>%.3f\<close> of a double that is not negative: its exact value rounded to three places.\<close>

definition print_fixed3 :: "double \<Rightarrow> string" where
  "print_fixed3 x =
     (let n = nat (round_even (x * 1000)); r = n mod 1000
      in decimal (n div 1000) @ ''.'' @ decimal (r div 100) @ decimal (r div 10 mod 10) @ decimal (r mod 10))"

primrec outcome_number :: "CycleOutcomeKind \<Rightarrow> nat" where
  "outcome_number CK_ProposalSuccess = 0"
| "outcome_number CK_ProposalRetryableFailure = 1"
| "outcome_number CK_ProposalNonRetryableFailure = 2"
| "outcome_number CK_VerificationSuccessFullAccept = 3"
| "outcome_number CK_VerificationSuccessPartialAccept = 4"
| "outcome_number CK_VerificationRejectAll = 5"
| "outcome_number CK_VerificationRetryableFailure = 6"
| "outcome_number CK_VerificationNonRetryableFailure = 7"
| "outcome_number CK_Cancelled = 8"
| "outcome_number CK_Expired = 9"
| "outcome_number CK_StaleAuthorityRejected = 10"
| "outcome_number CK_Superseded = 11"

definition print_code :: "'a Result \<Rightarrow> string" where
  "print_code r = decimal (nat (code_value (error_code r)))"

section \<open>The engine and the request of a command\<close>

type_synonym clock = "nat \<Rightarrow> u64"
type_synonym command_result = "(nat \<times> string) cpp"

definition cli_model :: "TokenizerId \<Rightarrow> ModelIdentity" where
  "cli_model tok = default_ModelIdentity\<lparr>mi_model := StrongId 101, mi_revision := StrongId 1,
     mi_tokenizer := default_TokenizerIdentity\<lparr>tok_id := tok, tok_name := ''cli-tok'', tok_vocab_size := 4096\<rparr>,
     mi_executor := default_ExecutorIdentity\<lparr>exe_kind := EK_CPU, exe_protocol_version := 1\<rparr>,
     mi_name := ''cli-model''\<rparr>"

definition make_engine :: "clock \<Rightarrow> u32 \<Rightarrow> u32 \<Rightarrow> u32 \<Rightarrow> Fabric" where
  "make_engine clk depth brs aligned =
     new_fabric \<lparr>cfg_proposer = Some (cpu_propose (default_CpuProposerConfig\<lparr>ppc_aligned_tokens := aligned\<rparr>)),
       cfg_verifier = Some cpu_verify, cfg_clock = clk, cfg_policy = cli_policy depth brs, cfg_epoch = null_id\<rparr>"

definition cli_request :: "u32 \<Rightarrow> u32 \<Rightarrow> u64 \<Rightarrow> SpeculationRequest" where
  "cli_request depth brs i = default_SpeculationRequest\<lparr>rq_id := StrongId i, rq_sequence := StrongId (i + 1),
     rq_tenant := StrongId 1, rq_draft_model := cli_model (StrongId 9), rq_target_model := cli_model (StrongId 9),
     rq_pair_key := \<lparr>key_proposer = cli_model (StrongId 9), key_verifier = cli_model (StrongId 9), key_protocol_version = 1\<rparr>,
     rq_policy := cli_policy depth brs\<rparr>"

text \<open>\<open>n\<close> cycles whose results are dropped.\<close>

fun run_cycles :: "nat \<Rightarrow> RequestId \<Rightarrow> Fabric \<Rightarrow> Fabric cpp" where
  "run_cycles 0 rid f = Some f"
| "run_cycles (Suc n) rid f = do { (c, f1) \<leftarrow> run_cycle rid f; run_cycles n rid f1 }"

text \<open>An engine on which the request was submitted and \<open>n\<close> cycles were run.\<close>

definition engine_after :: "nat \<Rightarrow> u64 \<Rightarrow> u32 \<Rightarrow> u32 \<Rightarrow> u32 \<Rightarrow> clock \<Rightarrow> Fabric cpp" where
  "engine_after n i depth brs aligned clk =
     (let r = cli_request depth brs i; (s, f) = submit r (make_engine clk depth brs aligned)
      in run_cycles n (rq_id r) f)"

section \<open>Commands\<close>

definition submit_line :: "u64 \<Rightarrow> CycleOutcome \<Rightarrow> u64 \<Rightarrow> string" where
  "submit_line i out len =
     ''request='' @ word_string i @ '' outcome='' @ decimal (outcome_number (co_outcome out)) @
     '' proposed='' @ word_string (co_proposed_tokens out) @ '' accepted='' @ word_string (co_accepted_tokens out) @
     '' rejected='' @ word_string (co_rejected_tokens out) @ '' committed='' @ word_string len @
     '' phase='' @ phase_to_string (co_phase out) @ newline"

definition cmd_submit :: "clock \<Rightarrow> u32 \<Rightarrow> u32 \<Rightarrow> u32 \<Rightarrow> u64 \<Rightarrow> command_result" where
  "cmd_submit clk depth brs aligned i =
     (let r = cli_request depth brs i; (s, f) = submit r (make_engine clk depth brs aligned) in
      if is_error s then Some (1, ''submit failed: '' @ print_code s @ newline)
      else do {
        (c, f1) \<leftarrow> run_cycle (rq_id r) f;
        if is_error c then Some (1, ''run_cycle failed: '' @ print_code c @ newline)
        else do {
          out \<leftarrow> result_value c;
          len \<leftarrow> result_value (authoritative_length (rq_id r) f1);
          Some (0, submit_line i out len)
        }
      })"

definition cmd_status :: "clock \<Rightarrow> u32 \<Rightarrow> u32 \<Rightarrow> u32 \<Rightarrow> command_result" where
  "cmd_status clk depth brs aligned =
     do {
       f \<leftarrow> engine_after 3 1 depth brs aligned clk;
       let (snap, f1) = snapshot f;
       let st = stats f1;
       len \<leftarrow> result_value (authoritative_length (StrongId 1) f1);
       Some (0, ''epoch='' @ id_str (snap_epoch snap) @ '' active_requests='' @ decimal (snap_active_requests snap) @
         '' branches='' @ decimal (snap_active_branches snap) @ '' reservations='' @ decimal (snap_active_reservations snap) @
         '' cycles='' @ word_string (st_speculative_cycles_started st) @
         '' tokens_accepted='' @ word_string (st_tokens_accepted st) @
         '' tokens_proposed='' @ word_string (st_tokens_proposed st) @
         '' acceptance_ratio='' @ print_fixed3 (st_acceptance_ratio st) @ newline @
         ''auth_len='' @ word_string len @ newline)
     }"

definition cmd_explain :: "clock \<Rightarrow> u32 \<Rightarrow> command_result" where
  "cmd_explain clk depth =
     do {
       f \<leftarrow> engine_after 1 1 depth 1 depth clk;
       Some (0, c_str (ex_answer_text (explain (StrongId 1) ''why did this sequence speculate?'' f)) @ newline)
     }"

text \<open>The loop of \<^verbatim>\<open>cmd_bench\<close>: \<open>n\<close> iterations from \<open>i\<close>; the counters are the accepted tokens and the cycles.\<close>

fun bench_loop :: "nat \<Rightarrow> u64 \<Rightarrow> u32 \<Rightarrow> Fabric \<Rightarrow> u64 \<Rightarrow> u64 \<Rightarrow> (Fabric \<times> u64 \<times> u64) cpp" where
  "bench_loop 0 i depth f committed cycles = Some (f, committed, cycles)"
| "bench_loop (Suc n) i depth f committed cycles =
     (let r = cli_request depth 1 (i + 1); (s, f1) = submit r f in do {
        (c, f2) \<leftarrow> run_cycle (rq_id r) f1;
        (case c of
           Ok out \<Rightarrow> bench_loop n (i + 1) depth f2 (committed + ucast (co_accepted_tokens out)) (cycles + 1)
         | Err _ \<Rightarrow> bench_loop n (i + 1) depth f2 committed cycles)
      })"

definition cmd_bench :: "clock \<Rightarrow> u32 \<Rightarrow> u32 \<Rightarrow> command_result" where
  "cmd_bench clk depth requests =
     do {
       (f, committed, cycles) \<leftarrow> bench_loop (unat requests) 0 depth (make_engine clk depth 1 depth) 0 0;
       Some (0, ''bench: depth='' @ word_string depth @ '' requests='' @ word_string requests @
         '' cycles='' @ word_string cycles @ '' accepted='' @ word_string committed @ newline)
     }"

definition cmd_inspect :: "clock \<Rightarrow> u32 \<Rightarrow> u32 \<Rightarrow> u32 \<Rightarrow> u64 \<Rightarrow> command_result" where
  "cmd_inspect clk depth brs aligned i =
     do {
       f \<leftarrow> engine_after 2 i depth brs aligned clk;
       let ex = explain (StrongId i) ''inspect'' f;
       pr \<leftarrow> result_value (proposals (StrongId i) f);
       br \<leftarrow> result_value (branches (StrongId i) f);
       Some (0, ''inspect request='' @ word_string i @ newline @ ''  gen='' @ c_str (ex_answer_json ex) @ newline @
         ''  proposals='' @ decimal (length pr) @ '' branches='' @ decimal (length br) @ newline @
         ''  '' @ c_str (ex_answer_text ex) @ newline)
     }"

definition cmd_cancel :: "clock \<Rightarrow> u32 \<Rightarrow> u32 \<Rightarrow> u32 \<Rightarrow> u64 \<Rightarrow> command_result" where
  "cmd_cancel clk depth brs aligned i =
     (let r = cli_request depth brs i; (s, f) = submit r (make_engine clk depth brs aligned);
          (c, f1) = cancel (rq_id r) ''cli cancel'' f
      in do {
        (o1, f2) \<leftarrow> run_cycle (rq_id r) f1;
        out \<leftarrow> result_value o1;
        Some (if has_value c \<and> co_outcome out = CK_Cancelled then 0 else 1,
              ''cancel '' @ (if has_value c then ''ok'' else ''fail'') @ '': outcome='' @
              decimal (outcome_number (co_outcome out)) @ newline)
      })"

definition cmd_recover :: "clock \<Rightarrow> u32 \<Rightarrow> command_result" where
  "cmd_recover clk depth =
     do {
       f \<leftarrow> engine_after 1 1 depth 1 depth clk;
       len \<leftarrow> result_value (authoritative_length (StrongId 1) f);
       let pr = \<lparr>pq_id = StrongId 1, pq_sequence = StrongId 2, pq_attempt = StrongId 1, pq_epoch = StrongId 1,
                 pq_auth_gen = StrongId (ucast depth),
                 pq_auth_state = \<lparr>sr_id = StrongId 77, sr_generation = StrongId (ucast depth)\<rparr>,
                 pq_committed = replicate (unat len) 1\<rparr>;
       let a = \<lparr>ar_format_version = 1, ar_epoch = StrongId 1, ar_requests = [pr]\<rparr>;
       blob \<leftarrow> result_value (serialize_archive a);
       let b = deserialize_archive blob;
       a' \<leftarrow> result_value b;
       q \<leftarrow> vec_at (ar_requests a') 0;
       Some (if has_value b then 0 else 1,
             ''recover: ok='' @ print_bool (has_value b) @ '' tokens='' @ decimal (length (pq_committed q)) @ newline)
     }"

definition cmd_snapshot :: "clock \<Rightarrow> u32 \<Rightarrow> command_result" where
  "cmd_snapshot clk depth =
     do {
       f \<leftarrow> engine_after 1 1 depth 1 depth clk;
       let s = fst (snapshot f);
       Some (0, ''snapshot: epoch='' @ id_str (snap_epoch s) @ '' active_requests='' @ decimal (snap_active_requests s) @
         '' branches='' @ decimal (snap_active_branches s) @ '' proposals='' @ decimal (snap_active_proposals s) @
         '' reservations='' @ decimal (snap_active_reservations s) @ newline)
     }"

definition cmd_proposals :: "clock \<Rightarrow> u32 \<Rightarrow> u64 \<Rightarrow> command_result" where
  "cmd_proposals clk depth i =
     do {
       f \<leftarrow> engine_after 1 i depth 1 depth clk;
       pr \<leftarrow> result_value (proposals (StrongId i) f);
       Some (0, ''proposals: count='' @ decimal (length pr) @ newline @
         concat (map (\<lambda>p. ''  p'' @ id_str (prop_id p) @ '' depth='' @ word_string (cs_depth (prop_candidate p)) @
           '' committed='' @ print_bool (prop_committed p) @ newline) pr))
     }"

definition cmd_branches :: "clock \<Rightarrow> u32 \<Rightarrow> u64 \<Rightarrow> command_result" where
  "cmd_branches clk depth i =
     do {
       f \<leftarrow> engine_after 1 i depth 2 2 clk;
       br \<leftarrow> result_value (branches (StrongId i) f);
       Some (0, ''branches: count='' @ decimal (length br) @ newline @
         concat (map (\<lambda>b. ''  b'' @ id_str (br_id b) @ '' retired='' @ print_bool (br_retired b) @ newline) br))
     }"

section \<open>Options and dispatch\<close>

record Options =
  opt_depth :: u32
  opt_branches :: u32
  opt_aligned :: u32
  opt_id :: u64

definition default_Options :: Options where
  "default_Options = \<lparr>opt_depth = 4, opt_branches = 1, opt_aligned = 4, opt_id = 1\<rparr>"

fun parse_options :: "string list \<Rightarrow> Options \<Rightarrow> Options cpp" where
  "parse_options (a # v # rest) opts =
     (if a = ''--depth'' then do { n \<leftarrow> atoi v; parse_options rest (opts\<lparr>opt_depth := of_int n\<rparr>) }
      else if a = ''--branches'' then do { n \<leftarrow> atoi v; parse_options rest (opts\<lparr>opt_branches := of_int n\<rparr>) }
      else if a = ''--aligned'' then do { n \<leftarrow> atoi v; parse_options rest (opts\<lparr>opt_aligned := of_int n\<rparr>) }
      else if a = ''--id'' \<or> a = ''--requests'' then parse_options rest (opts\<lparr>opt_id := strtoull v\<rparr>)
      else parse_options (v # rest) opts)"
| "parse_options [a] opts = Some opts"
| "parse_options [] opts = Some opts"

definition usage :: string where
  "usage = ''Speculation Fabric CLI'' @ newline @ ''usage: sf <command> [options]'' @ newline @
     ''commands: submit, status, explain, bench'' @ newline"

text \<open>\<^verbatim>\<open>main\<close>; the arguments come without the program name.\<close>

definition sf_main :: "clock \<Rightarrow> string list \<Rightarrow> command_result" where
  "sf_main clk args =
     (case args of
        [] \<Rightarrow> Some (0, usage)
      | cmd # rest \<Rightarrow> do {
          opts \<leftarrow> parse_options rest default_Options;
          let depth = opt_depth opts;
          let brs = opt_branches opts;
          let aligned = opt_aligned opts;
          let i = opt_id opts;
          if cmd = ''submit'' then cmd_submit clk depth brs aligned i
          else if cmd = ''status'' then cmd_status clk depth brs aligned
          else if cmd = ''explain'' then cmd_explain clk depth
          else if cmd = ''bench'' then cmd_bench clk depth (ucast i)
          else if cmd = ''inspect'' then cmd_inspect clk depth brs aligned i
          else if cmd = ''cancel'' then cmd_cancel clk depth brs aligned i
          else if cmd = ''recover'' then cmd_recover clk depth
          else if cmd = ''snapshot'' then cmd_snapshot clk depth
          else if cmd = ''proposals'' then cmd_proposals clk depth i
          else if cmd = ''branches'' then cmd_branches clk depth i
          else Some (1, ''unknown command: '' @ cmd @ newline)
        })"

section \<open>The requests of the commands\<close>

lemma cli_engine: "cpu_engine depth brs aligned (make_engine clk depth brs aligned)"
  "lookup (make_engine clk depth brs aligned) r = None"
  unfolding make_engine_def by (rule engine_ok_new, rule new_engine_empty)

lemma cli_models:
  "plain_request (cli_request d b i)" "rq_id (cli_request d b i) = StrongId i" "rq_prefix (cli_request d b i) = []"
  by (simp_all add: cli_request_def default_SpeculationRequest_def plain_request_def pair_agrees_def cli_model_def
      default_ModelIdentity_def default_TokenizerIdentity_def default_ExecutorIdentity_def same_executor_kind_def null_id_def)

lemmas cli_cycle = first_cycle [where req = "cli_request d b i" for d b i, unfolded cli_models(2,3), OF _ _ cli_models(1)]

section \<open>The commands\<close>

lemma cmd_submit_report:
  fixes brs aligned i
  assumes "0 < unat depth" and "unat depth \<le> 256"
  defines "k \<equiv> best_agreement (submitted_seed (cli_request depth brs i) depth) depth (max 1 brs) aligned"
  shows "min (unat aligned) (unat depth) \<le> k" and "k \<le> unat depth"
    and "cmd_submit clk depth brs aligned i = Some (0, ''request='' @ word_string i @ '' outcome='' @
       (if k = unat depth then ''3'' else if k = 0 then ''5'' else ''4'') @ '' proposed='' @ word_string depth @
       '' accepted='' @ decimal k @ '' rejected='' @ decimal (unat depth - k) @ '' committed='' @ decimal k @
       '' phase='' @ phase_to_string Ph_Ready @ newline)"
proof -
  obtain rs f1 out f' rs' xs where c: "submit (cli_request depth brs i) (make_engine clk depth brs aligned) = (Ok (), f1)"
    "lookup f1 (StrongId i) = Some rs" "registered (cli_request depth brs i) rs" "run_cycle (StrongId i) f1 = Some (Ok out, f')"
    "cpu_engine depth brs aligned f'" "lookup f' (StrongId i) = Some rs'" "cycled rs xs rs'" "length (rs_branches rs') = unat (max 1 brs)" "length xs = k" "reports depth k out"
    "min (unat aligned) (unat depth) \<le> k" "k \<le> unat depth"
    "\<forall>r. r \<noteq> StrongId i \<longrightarrow> rel_option same_request (lookup (make_engine clk depth brs aligned) r) (lookup f' r)"
    "authoritative_length (StrongId i) f' = Ok (of_nat (length ([] :: u32 list) + k))"
    unfolding k_def by (rule cli_cycle [OF cli_engine assms(1,2)])
  show "min (unat aligned) (unat depth) \<le> k" "k \<le> unat depth" using c(11,12) .
  have small: "k < 2 ^ 32" "k < 2 ^ 64" using c(12) assms(2) by simp_all
  have ws: "word_string (of_nat k :: u32) = decimal k" "word_string (of_nat k :: u64) = decimal k"
    using small by (simp_all add: word_string_def unat_of_nat take_bit_eq_mod)
  have rj: "unat (depth - of_nat k) = unat depth - k"
    using c(12) small(1) by (subst unat_sub) (simp_all add: word_le_nat_alt unat_of_nat take_bit_eq_mod)
  have digits: "decimal 3 = ''3''" "decimal 4 = ''4''" "decimal 5 = ''5''" by (simp_all add: decimal.simps char_of_def bit_Suc_0_iff)
  have "cmd_submit clk depth brs aligned i = Some (0, submit_line i out (of_nat k))"
    using c(1,4,14) by (simp add: cmd_submit_def Let_def cli_models is_error_def)
  moreover have "submit_line i out (of_nat k) = ''request='' @ word_string i @ '' outcome='' @
       (if k = unat depth then ''3'' else if k = 0 then ''5'' else ''4'') @ '' proposed='' @ word_string depth @
       '' accepted='' @ decimal k @ '' rejected='' @ decimal (unat depth - k) @ '' committed='' @ decimal k @
       '' phase='' @ phase_to_string Ph_Ready @ newline"
    using c(10) unfolding submit_line_def reports_def by (simp add: ws digits, simp add: word_string_def rj)
  ultimately show "cmd_submit clk depth brs aligned i = Some (0, ''request='' @ word_string i @ '' outcome='' @
       (if k = unat depth then ''3'' else if k = 0 then ''5'' else ''4'') @ '' proposed='' @ word_string depth @
       '' accepted='' @ decimal k @ '' rejected='' @ decimal (unat depth - k) @ '' committed='' @ decimal k @
       '' phase='' @ phase_to_string Ph_Ready @ newline)" by simp
qed

text \<open>Every iteration of the benchmark registers a new request and commits a full draft.\<close>

lemma bench_loop_total:
  assumes "0 < unat depth" and "unat depth \<le> 256"
    and "cpu_engine depth 1 depth f" and "\<And>r. i < id_get r \<Longrightarrow> lookup f r = None" and "unat i + n < 2 ^ 64"
  shows "\<exists>f'. bench_loop n i depth f c k = Some (f', c + of_nat n * ucast depth, k + of_nat n)"
  using assms(3-5)
proof (induction n arbitrary: i f c k)
  case (Suc n)
  have i1: "unat (i + 1) = unat i + 1" using Suc.prems(3) by (simp add: unat_word_ariths)
  then have lt: "i < i + 1" by (simp add: word_less_nat_alt)
  then have new: "lookup f (StrongId (i + 1)) = None" using Suc.prems(2) by simp
  obtain f1 out f2 m where c: "submit (cli_request depth 1 (i + 1)) f = (Ok (), f1)"
    "run_cycle (StrongId (i + 1)) f1 = Some (Ok out, f2)" "cpu_engine depth 1 depth f2" "reports depth m out"
    "min (unat depth) (unat depth) \<le> m" "m \<le> unat depth"
    "\<forall>r. r \<noteq> StrongId (i + 1) \<longrightarrow> rel_option same_request (lookup f r) (lookup f2 r)"
    by (rule cli_cycle [OF Suc.prems(1) new assms(1,2)]) blast
  have "m = unat depth" using c(5,6) by simp
  then have acc: "co_accepted_tokens out = depth" using c(4) by (simp add: reports_def)
  have fresh: "lookup f2 r = None" if "i + 1 < id_get r" for r
  proof -
    have "r \<noteq> StrongId (i + 1)" "i < id_get r" using that lt by auto
    then show ?thesis using c(7) Suc.prems(2) by (metis option.rel_distinct(1) option.exhaust)
  qed
  obtain f' where "bench_loop n (i + 1) depth f2 (c + ucast depth) (k + 1) =
      Some (f', (c + ucast depth) + of_nat n * ucast depth, (k + 1) + of_nat n)"
    using Suc.IH [where i = "i + 1" and c = "c + ucast depth" and k = "k + 1", OF c(3) fresh] Suc.prems(3) i1 by auto
  then show ?case using c(1,2) acc by (simp add: Let_def cli_models algebra_simps)
qed simp

lemma cmd_bench_report:
  assumes "0 < unat depth" and "unat depth \<le> 256"
  shows "cmd_bench clk depth n = Some (0, ''bench: depth='' @ word_string depth @ '' requests='' @ word_string n @
    '' cycles='' @ word_string n @ '' accepted='' @ decimal (unat n * unat depth) @ newline)"
proof -
  have n: "unat n < 2 ^ 32" using unsigned_less [of n, where ?'a = nat] by simp
  then have "unat n * unat depth < 2 ^ 32 * 2 ^ 32" using assms(2) by (intro mult_strict_mono) auto
  then have prod: "unat (of_nat (unat n) * ucast depth :: u64) = unat n * unat depth"
    using n unsigned_less [of depth, where ?'a = nat] by (simp add: unat_word_ariths unsigned_ucast_eq take_bit_eq_mod)
  have cyc: "word_string (of_nat (unat n) :: u64) = word_string n" using n by (simp add: word_string_def unsigned_ucast_eq take_bit_eq_mod)
  obtain f' where "bench_loop (unat n) 0 depth (make_engine clk depth 1 depth) 0 0 =
      Some (f', 0 + of_nat (unat n) * ucast depth, 0 + of_nat (unat n))"
    using bench_loop_total [OF assms cli_engine, where i = 0 and n = "unat n" and c = 0 and k = 0] n by auto
  then show ?thesis using cyc prod by (simp add: cmd_bench_def word_string_def)
qed

lemma cmd_recover_report:
  assumes "0 < unat depth" and "unat depth \<le> 256"
  shows "cmd_recover clk depth = Some (0, ''recover: ok=1 tokens='' @ decimal (unat depth) @ newline)"
proof -
  obtain f f' out k where c: "submit (cli_request depth 1 1) (make_engine clk depth 1 depth) = (Ok (), f)"
    "run_cycle (StrongId 1) f = Some (Ok out, f')" "min (unat depth) (unat depth) \<le> k" "k \<le> unat depth"
    "authoritative_length (StrongId 1) f' = Ok (of_nat (length ([] :: u32 list) + k))"
    by (rule cli_cycle [OF cli_engine assms]) blast
  have "k = unat depth" using c(3,4) by simp
  with c(5) have al: "authoritative_length (StrongId 1) f' = Ok (ucast depth)" by simp
  have uc: "unat (ucast depth :: u64) = unat depth"
    using unsigned_less [of depth, where ?'a = nat] by (simp add: unsigned_ucast_eq take_bit_eq_mod)
  have eng: "engine_after 1 1 depth 1 depth clk = Some f'" using c(1,2) by (simp add: engine_after_def cli_models Let_def)
  let ?a = "\<lparr>ar_format_version = 1, ar_epoch = StrongId 1, ar_requests = [\<lparr>pq_id = StrongId 1, pq_sequence = StrongId 2,
      pq_attempt = StrongId 1, pq_epoch = StrongId 1, pq_auth_gen = StrongId (ucast depth),
      pq_auth_state = \<lparr>sr_id = StrongId 77, sr_generation = StrongId (ucast depth)\<rparr>,
      pq_committed = replicate (unat depth) 1\<rparr>]\<rparr>"
  have small: "archive_small ?a"
    using assms(2) by (simp add: archive_small_def request_small_def kMaxRequests_def kMaxTokensPerRequest_def)
  obtain blob where blob: "serialize_archive ?a = Ok blob" by (simp add: serialize_archive_def)
  have same: "deserialize_archive blob = Ok ?a" using serialize_deserialize [OF small blob] .
  show ?thesis
    unfolding cmd_recover_def eng bind.simps al result_value.simps Let_def
    by (simp add: uc blob same vec_at_def print_bool_def)
qed

section \<open>Properties\<close>

text \<open>
  C17 (sf_submit_report): the tool invoked as \<^verbatim>\<open>sf submit\<close> with a depth from 1 to 256 and any
  alignment, branch count and identifier exits with 0 and prints one consistent report: as many tokens
  as the best branch's draft agrees with the target model, at least the aligned ones, are reported
  as accepted and as committed, the rest of the depth as rejected, with the outcome code that belongs
  to that number.
\<close>

theorem sf_submit_report:
  assumes "0 < d" and "d \<le> 256" and "b < 2 ^ 31" and "a < 2 ^ 31" and "i < 2 ^ 64"
    and "k = best_agreement (submitted_seed (cli_request (of_nat d) (of_nat b) (of_nat i)) (of_nat d)) (of_nat d) (max 1 (of_nat b)) (of_nat a)"
  shows "min a d \<le> k \<and> k \<le> d \<and>
    sf_main clk [''submit'', ''--depth'', decimal d, ''--branches'', decimal b, ''--aligned'', decimal a, ''--id'', decimal i] =
    Some (0, ''request='' @ decimal i @ '' outcome='' @
       (if k = d then ''3'' else if k = 0 then ''5'' else ''4'') @ '' proposed='' @ decimal d @
       '' accepted='' @ decimal k @ '' rejected='' @ decimal (d - k) @ '' committed='' @ decimal k @
       '' phase='' @ phase_to_string Ph_Ready @ newline)"
proof -
  have u: "unat (of_nat d :: u32) = d" "unat (of_nat a :: u32) = a" "unat (of_nat i :: u64) = i"
    using assms by (simp_all add: unat_of_nat take_bit_eq_mod)
  have d: "0 < unat (of_nat d :: u32)" "unat (of_nat d :: u32) \<le> 256" using assms(1,2) u by simp_all
  note r = cmd_submit_report [OF d, where brs = "of_nat b" and i = "of_nat i" and aligned = "of_nat a", folded assms(6), unfolded u]
  have "parse_options [''--depth'', decimal d, ''--branches'', decimal b, ''--aligned'', decimal a, ''--id'', decimal i] default_Options =
      Some \<lparr>opt_depth = of_nat d, opt_branches = of_nat b, opt_aligned = of_nat a, opt_id = of_nat i\<rparr>"
    using assms(1-5) by (simp add: atoi_decimal strtoull_decimal default_Options_def)
  with r u show ?thesis by (simp add: sf_main_def word_string_def)
qed

theorem sf_submit_report_witness:
  "sf_main (\<lambda>_. 0) [''submit'', ''--depth'', decimal 5, ''--branches'', decimal 2, ''--aligned'', decimal 9, ''--id'', decimal 42] =
    Some (0, ''request=42 outcome=3 proposed=5 accepted=5 rejected=0 committed=5 phase='' @ phase_to_string Ph_Ready @ newline)"
  using sf_submit_report [OF _ _ _ _ _ refl, of 5 2 9 42 "\<lambda>_. 0"] by (auto simp: decimal.simps char_of_def bit_Suc_0_iff)

text \<open>
  C16 (sf_bench_report): the tool invoked as \<^verbatim>\<open>sf bench\<close> with a depth from 1 to 256 terminates for every
  32-bit number of requests, whatever the clock shows: every request completes its cycle and the
  accepted tokens are exactly requests times depth.
\<close>

theorem sf_bench_report:
  assumes "0 < d" and "d \<le> 256" and "n < 2 ^ 32"
  shows "sf_main clk [''bench'', ''--depth'', decimal d, ''--requests'', decimal n] =
    Some (0, ''bench: depth='' @ decimal d @ '' requests='' @ decimal n @ '' cycles='' @ decimal n @
      '' accepted='' @ decimal (n * d) @ newline)"
proof -
  have u: "unat (of_nat d :: u32) = d" "unat (of_nat n :: u32) = n"
    using assms by (simp_all add: unat_of_nat take_bit_eq_mod)
  have "parse_options [''--depth'', decimal d, ''--requests'', decimal n] default_Options =
      Some (default_Options\<lparr>opt_depth := of_nat d, opt_id := of_nat n\<rparr>)"
    using assms by (simp add: atoi_decimal strtoull_decimal)
  moreover have "(ucast (of_nat n :: u64) :: u32) = of_nat n" by (rule word_unat_eq_iff [THEN iffD2]) (use assms(3) in \<open>simp add: unat_of_nat unsigned_ucast_eq take_bit_eq_mod\<close>)
  ultimately show ?thesis
    using cmd_bench_report [of "of_nat d" clk "of_nat n"] assms(1,2) u by (simp add: sf_main_def word_string_def)
qed

theorem sf_bench_report_witness:
  "sf_main (\<lambda>_. 0) [''bench'', ''--depth'', decimal 4, ''--requests'', decimal 1000] =
    Some (0, ''bench: depth=4 requests=1000 cycles=1000 accepted=4000'' @ newline)"
  using sf_bench_report [of 4 1000 "\<lambda>_. 0"] by (simp add: decimal.simps char_of_def bit_Suc_0_iff)

text \<open>\<^verbatim>\<open>sf cancel\<close> succeeds for all options: the cycle after a cancellation reports it.\<close>

lemma cmd_cancel_report: "cmd_cancel clk depth brs aligned i = Some (0, ''cancel ok: outcome=8'' @ newline)"
proof -
  obtain rs f where "submit (cli_request depth brs i) (make_engine clk depth brs aligned) = (Ok (), f)"
    "lookup f (StrongId i) = Some rs" "registered (cli_request depth brs i) rs"
    by (rule engine_submit [where req = "cli_request depth brs i", unfolded cli_models(2), OF cli_engine]) blast
  then show ?thesis
    by (simp add: cmd_cancel_def cli_models cancel_def registered_def run_cycle_def cycle_prepare_def Let_def make_outcome_def
        decimal.simps char_of_def bit_Suc_0_iff)
qed

end
