(* ===== verification/SF_Driver.thy ===== *)
theory SF_Driver
  imports SF_CoordinatorProps
begin

text \<open>
  The scenario driver (\<^verbatim>\<open>tools/sf_driver.cpp\<close>): a client that plays a fixed script against the
  coordinator, counts the expectations that fail and exits with 0 when there are none. Its
  environment is a parameter: the connection, the marker files of the restart and the passing of time
  act on a world of any type. \<^verbatim>\<open>recvm\<close> leaves its argument alone on a failure, and the script ignores
  the results of \<^verbatim>\<open>sendm\<close> and \<^verbatim>\<open>recvm\<close>, so a lost reply reads as an empty message; a field that the
  reply does not have is undefined. The second half of the theory lets the driver, the coordinator and
  the CPU workers run together, from the first connection to the shutdown.
\<close>

section \<open>The process\<close>

record 'w DriverEnv =
  env_send :: "bytes \<Rightarrow> 'w \<Rightarrow> bool \<times> 'w"
  env_recv :: "'w \<Rightarrow> bytes option \<times> 'w"
  env_announce :: "'w \<Rightarrow> 'w"
  env_file_exists :: "'w \<Rightarrow> bool"
  env_sleep :: "'w \<Rightarrow> 'w"

record 'w Driver =
  dr_out :: string
  dr_failures :: int
  dr_world :: 'w

definition print :: "string \<Rightarrow> 'w Driver \<Rightarrow> 'w Driver" where
  "print s d = d\<lparr>dr_out := dr_out d @ s\<rparr>"

definition expect :: "bool \<Rightarrow> string \<Rightarrow> string \<Rightarrow> 'w Driver \<Rightarrow> 'w Driver" where
  "expect cond what got d =
     (let d1 = print ((if cond then ''[PASS]'' else ''[FAIL]'') @ '' '' @ what @ '' ['' @ c_str got @ '']'' @ newline) d
      in if cond then d1 else d1\<lparr>dr_failures := dr_failures d1 + 1\<rparr>)"

definition sendm :: "'w DriverEnv \<Rightarrow> Message \<Rightarrow> 'w Driver \<Rightarrow> bool \<times> 'w Driver" where
  "sendm env m d =
     (case encode m of
        Err e \<Rightarrow> (False, d)
      | Ok bs \<Rightarrow> let (sent, w) = env_send env bs (dr_world d) in (sent, d\<lparr>dr_world := w\<rparr>))"

definition recvm :: "'w DriverEnv \<Rightarrow> Message \<Rightarrow> 'w Driver \<Rightarrow> (bool \<times> Message) \<times> 'w Driver" where
  "recvm env out d =
     (let (frame, w) = env_recv env (dr_world d)
      in (case frame of
            None \<Rightarrow> (False, out)
          | Some f \<Rightarrow> (case decode f of Err e \<Rightarrow> (False, out) | Ok m \<Rightarrow> (True, m)), d\<lparr>dr_world := w\<rparr>))"

text \<open>The pattern of the whole script: send a message, then read into a fresh one.\<close>

definition ask :: "'w DriverEnv \<Rightarrow> Message \<Rightarrow> 'w Driver \<Rightarrow> Message \<times> 'w Driver" where
  "ask env m d =
     (let (_, d1) = sendm env m d; ((_, r), d2) = recvm env default_Message d1 in (r, d2))"

section \<open>The script\<close>

definition hello_message :: Message where
  "hello_message = default_Message\<lparr>msg_type := Msg_Hello, msg_u64_fields := [12345], msg_u32_fields := [kRoleDriver]\<rparr>"

definition submit_message :: "u64 \<Rightarrow> u32 \<Rightarrow> u32 \<Rightarrow> u32 \<Rightarrow> Message" where
  "submit_message reqid depth branches aligned =
     default_Message\<lparr>msg_type := Msg_SubmitRequest, msg_u64_fields := [reqid], msg_u32_fields := [depth, branches, aligned]\<rparr>"

definition drv_submit :: "'w DriverEnv \<Rightarrow> u64 \<Rightarrow> u32 \<Rightarrow> u32 \<Rightarrow> u32 \<Rightarrow> 'w Driver \<Rightarrow> (u64 \<times> 'w Driver) cpp" where
  "drv_submit env reqid depth branches aligned d =
     (let (r, d1) = ask env (submit_message reqid depth branches aligned) d
      in if msg_type r = Msg_Commit then map_option (\<lambda>n. (n, d1)) (vec_at (msg_u64_fields r) 2)
         else Some (0xFFFFFFFFFFFFFFFF, d1))"

definition check_submit ::
  "'w DriverEnv \<Rightarrow> u64 \<Rightarrow> u32 \<Rightarrow> u32 \<Rightarrow> u32 \<Rightarrow> u64 \<Rightarrow> string \<Rightarrow> 'w Driver \<Rightarrow> 'w Driver cpp" where
  "check_submit env reqid depth branches aligned want what d =
     map_option (\<lambda>(n, d1). expect (n = want) what (''committed='' @ word_string n) d1)
       (drv_submit env reqid depth branches aligned d)"

definition submissions :: "'w DriverEnv \<Rightarrow> 'w Driver \<Rightarrow> 'w Driver cpp" where
  "submissions env d =
     do {
       d \<leftarrow> check_submit env 42 5 1 5 5 ''submit A full-accept committed=5'' d;
       d \<leftarrow> check_submit env 43 6 1 3 3 ''submit B partial-accept committed=3'' d;
       d \<leftarrow> check_submit env 44 5 1 0 0 ''submit C reject-all committed=0'' d;
       check_submit env 45 5 2 2 2 ''submit D multi-branch committed=2'' d
     }"

text \<open>At most 300 pauses; the argument counts those left.\<close>

fun wait_done :: "'w DriverEnv \<Rightarrow> nat \<Rightarrow> 'w \<Rightarrow> 'w" where
  "wait_done env 0 w = w"
| "wait_done env (Suc n) w = (if env_file_exists env w then w else wait_done env n (env_sleep env w))"

definition await_restart :: "'w DriverEnv \<Rightarrow> 'w Driver \<Rightarrow> 'w Driver" where
  "await_restart env d =
     (let d1 = print (''driver: restart-waiting'' @ newline) d
      in d1\<lparr>dr_world := wait_done env 300 (env_announce env (dr_world d1))\<rparr>)"

text \<open>The replayed proposal result; the fields are \<^verbatim>\<open>PR_EPOCH\<close>, \<^verbatim>\<open>PR_PROPOSER_BOOT\<close>, \<^verbatim>\<open>PR_ATTEMPT\<close>, \<^verbatim>\<open>PR_BASE_GEN\<close>, \<^verbatim>\<open>PR_PROPOGEN\<close>.\<close>

definition replay_message :: Message where
  "replay_message = default_Message\<lparr>msg_type := Msg_ProposalResult,
     msg_u64_fields := (replicate 11 0)[3 := 0, 7 := 999999, 2 := 1, 6 := 0, 9 := 1],
     msg_u32_fields := [kOutcomeSuccess, 5, 1, 2, 3, 4, 5]\<rparr>"

definition replay_stale :: "'w DriverEnv \<Rightarrow> 'w Driver \<Rightarrow> 'w Driver" where
  "replay_stale env d =
     (let (r, d1) = ask env replay_message d
      in expect (msg_type r = Msg_Reject \<and> str_contains (msg_body r) ''stale_epoch'')
           ''over-protocol stale-epoch replay rejected'' (''reply='' @ msg_body r) d1)"

definition info_message :: "string \<Rightarrow> Message" where
  "info_message body = default_Message\<lparr>msg_type := Msg_Info, msg_body := body\<rparr>"

definition probe :: "'w DriverEnv \<Rightarrow> string \<Rightarrow> 'w Driver \<Rightarrow> string \<times> 'w Driver" where
  "probe env kind d =
     (let (r, d1) = ask env (info_message (''stale:'' @ kind)) d
      in (if msg_type r = Msg_Reject then msg_body r else if msg_type r = Msg_Info then msg_body r else ''?'', d1))"

definition check_probe :: "'w DriverEnv \<Rightarrow> string \<Rightarrow> string \<Rightarrow> string \<Rightarrow> 'w Driver \<Rightarrow> 'w Driver" where
  "check_probe env kind reason what d =
     (let (s, d1) = probe env kind d in expect (str_contains s reason) what (''got='' @ s) d1)"

definition probes :: "'w DriverEnv \<Rightarrow> 'w Driver \<Rightarrow> 'w Driver" where
  "probes env d =
     (let d = check_probe env ''epoch'' ''stale_epoch'' ''stale:epoch rejected'' d;
          d = check_probe env ''boot'' ''stale_worker_boot'' ''stale:boot rejected'' d;
          d = check_probe env ''prevBoot'' ''stale_worker_boot'' ''stale:prevBoot (restarted worker) rejected'' d;
          d = check_probe env ''attempt'' ''stale_attempt'' ''stale:attempt rejected'' d;
          d = check_probe env ''generation'' ''stale_generation'' ''stale:generation rejected'' d
      in check_probe env ''base'' ''wrong_base_generation'' ''stale:base rejected'' d)"

definition roll_and_probe :: "'w DriverEnv \<Rightarrow> 'w Driver \<Rightarrow> 'w Driver" where
  "roll_and_probe env d =
     (let (r, d) = ask env (info_message ''rollEpoch'') d;
          d = expect (str_contains (msg_body r) ''epoch=2'') ''epoch rolled to 2'' (''got='' @ msg_body r) d
      in check_probe env ''epoch'' ''stale_epoch'' ''post-roll stale:epoch rejected'' d)"

text \<open>The text of the last expectation reads the third field whatever the reply is.\<close>

definition fresh_submit :: "'w DriverEnv \<Rightarrow> 'w Driver \<Rightarrow> 'w Driver cpp" where
  "fresh_submit env d =
     (let (r, d) = ask env (submit_message 46 5 1 5) d
      in map_option (\<lambda>n. expect (msg_type r = Msg_Commit \<and> n = 5) ''fresh submit commits 5'' (''committed='' @ word_string n) d)
           (vec_at (msg_u64_fields r) 2))"

definition print_status :: "'w DriverEnv \<Rightarrow> 'w Driver \<Rightarrow> 'w Driver" where
  "print_status env d =
     (let (r, d) = ask env (info_message ''status'') d
      in print (''coordinator status: '' @ c_str (msg_body r) @ newline) d)"

definition finish :: "'w DriverEnv \<Rightarrow> 'w Driver \<Rightarrow> int \<times> 'w Driver" where
  "finish env d =
     (let (_, d) = sendm env (default_Message\<lparr>msg_type := Msg_Shutdown\<rparr>) d
      in (if dr_failures d = 0 then 0 else 1,
          print (''driver: '' @ (if dr_failures d = 0 then ''ALL_OK'' else ''HAD_FAILURES'') @ '' ('' @
            int_string (dr_failures d) @ '' failures)'' @ newline) d))"

definition driver_script :: "'w DriverEnv \<Rightarrow> 'w Driver \<Rightarrow> (int \<times> 'w Driver) cpp" where
  "driver_script env d =
     do {
       let (_, d) = sendm env hello_message d;
       d \<leftarrow> submissions env d;
       d \<leftarrow> fresh_submit env (roll_and_probe env (probes env (replay_stale env (await_restart env d))));
       Some (finish env (print_status env d))
     }"

text \<open>\<^verbatim>\<open>main\<close>; \<open>os\<close> gives the results of the calls that open the connection to a host and port.\<close>

definition driver_main ::
  "(string \<Rightarrow> u16 \<Rightarrow> SocketCalls) \<Rightarrow> 'w DriverEnv \<Rightarrow> string list \<Rightarrow> 'w Driver \<Rightarrow> (int \<times> 'w Driver) cpp" where
  "driver_main os env argv d =
     (if length argv < 4 then
        map_option (\<lambda>prog. (1, print (''usage: '' @ prog @ '' <host> <port> <tempdir>'' @ newline) d)) (vec_at argv 0)
      else do {
        n \<leftarrow> atoi (argv ! 2);
        let (fd, errtext) = connect_port (os (argv ! 1) (of_int n)) [];
        if fd < 0 then Some (1, print (''driver: connect failed '' @ c_str errtext @ newline) d)
        else driver_script env d
      })"

text \<open>A lost reply to the last submission is not reported as a failure: the driver then reads past the end of an empty vector.\<close>

lemma lost_reply_undefined:
  assumes "\<And>w. fst (env_recv env w) = None" shows "fresh_submit env d = None"
proof -
  obtain sent d1 where "sendm env (submit_message 46 5 1 5) d = (sent, d1)" by fastforce
  moreover obtain w where "env_recv env (dr_world d1) = (None, w)" using assms by (metis prod.collapse)
  ultimately show ?thesis by (simp add: fresh_submit_def ask_def recvm_def vec_at_def default_Message_def)
qed

section \<open>The deployment\<close>

text \<open>
  The driver beside a coordinator that CPU workers serve. The proposer and the verifier have
  connected; the driver's first frame completes the start-up. The restart script kills the proposer
  and starts it again, with a new boot identifier, during the given number of pauses after the announcement.
  The world tells a coordinator that has stopped on the shutdown message, with its final state, from one
  that gave up at start-up and from one whose behaviour is undefined; the last two never serve again.
\<close>

record Deployment =
  dp_proposer_fd :: int
  dp_verifier_fd :: int
  dp_driver_fd :: int
  dp_restart_fd :: int
  dp_proposer_boot :: u64
  dp_verifier_boot :: u64
  dp_restart_boot :: u64
  dp_delay :: nat
  dp_lost :: "bytes \<Rightarrow> Reply"

record Service =
  sv_coord :: Coordinator
  sv_conns :: "(int \<times> bytes option) list"
  sv_inbox :: "bytes list"
  sv_left :: nat
  sv_done :: bool

datatype World = Starting "(int \<times> bytes option) list" | Serving Service | Stopped Coordinator | Aborted | Undefined

definition first_frame :: "Message \<Rightarrow> bytes option" where
  "first_frame m = (case encode m of Ok bs \<Rightarrow> Some bs | Err e \<Rightarrow> None)"

definition start_world :: "Deployment \<Rightarrow> World" where
  "start_world dp = Starting [(dp_proposer_fd dp, first_frame (worker_hello ''proposer'' (dp_proposer_boot dp))),
     (dp_verifier_fd dp, first_frame (worker_hello ''verifier'' (dp_verifier_boot dp)))]"

fun world_send :: "Deployment \<Rightarrow> bytes \<Rightarrow> World \<Rightarrow> bool \<times> World" where
  "world_send dp bs (Starting conns) =
     (True, case await_roles (conns @ [(dp_driver_fd dp, Some bs)]) new_coordinator of
        None \<Rightarrow> Aborted
      | Some c \<Rightarrow> if all_roles c
          then Serving \<lparr>sv_coord = enter_service c, sv_conns = [], sv_inbox = [], sv_left = dp_delay dp, sv_done = False\<rparr>
          else Starting (conns @ [(dp_driver_fd dp, Some bs)]))"
| "world_send dp bs (Serving v) =
     (True, case serve (cpu_peers (dp_lost dp)) (sv_conns v) (D_frame bs) (sv_coord v) of
        None \<Rightarrow> Undefined
      | Some (C_stop, c) \<Rightarrow> Stopped c
      | Some (C_silent, c) \<Rightarrow> Serving (v\<lparr>sv_coord := c, sv_conns := []\<rparr>)
      | Some (C_send rs, c) \<Rightarrow> Serving (v\<lparr>sv_coord := c, sv_conns := [], sv_inbox := sv_inbox v @ [rs]\<rparr>))"
| "world_send dp bs w = (False, w)"

fun world_recv :: "World \<Rightarrow> bytes option \<times> World" where
  "world_recv (Serving v) =
     (case sv_inbox v of [] \<Rightarrow> (None, Serving v) | f # fs \<Rightarrow> (Some f, Serving (v\<lparr>sv_inbox := fs\<rparr>)))"
| "world_recv w = (None, w)"

definition restart_worker :: "Deployment \<Rightarrow> Service \<Rightarrow> Service" where
  "restart_worker dp v = v\<lparr>sv_done := True,
     sv_conns := sv_conns v @ [(dp_restart_fd dp, first_frame (worker_hello ''proposer'' (dp_restart_boot dp)))]\<rparr>"

fun world_announce :: "Deployment \<Rightarrow> World \<Rightarrow> World" where
  "world_announce dp (Serving v) =
     Serving (if sv_left v = 0 then restart_worker dp (v\<lparr>sv_done := False\<rparr>) else v\<lparr>sv_done := False\<rparr>)"
| "world_announce dp w = w"

fun world_done :: "World \<Rightarrow> bool" where
  "world_done (Serving v) = sv_done v"
| "world_done w = False"

fun world_sleep :: "Deployment \<Rightarrow> World \<Rightarrow> World" where
  "world_sleep dp (Serving v) =
     Serving (if sv_left v = 1 then restart_worker dp (v\<lparr>sv_left := 0\<rparr>) else v\<lparr>sv_left := sv_left v - 1\<rparr>)"
| "world_sleep dp w = w"

definition deployment :: "Deployment \<Rightarrow> World DriverEnv" where
  "deployment dp = \<lparr>env_send = world_send dp, env_recv = world_recv, env_announce = world_announce dp,
     env_file_exists = world_done, env_sleep = world_sleep dp\<rparr>"

section \<open>Exchanges with the coordinator\<close>

lemma expect_simps [simp]:
  "dr_world (expect cond what got d) = dr_world d"
  "dr_failures (expect cond what got d) = dr_failures d + (if cond then 0 else 1)"
  by (simp_all add: expect_def print_def Let_def)

lemma print_simps [simp]: "dr_world (print s d) = dr_world d" "dr_failures (print s d) = dr_failures d"
  by (simp_all add: print_def)

lemma print_out: "dr_out (print s d) = dr_out d @ s"
  by (simp add: print_def)

text \<open>The driver is connected to a coordinator that is in state \<open>c\<close> once it has accepted what is pending.\<close>

definition linked :: "Coordinator \<Rightarrow> nat \<Rightarrow> World Driver \<Rightarrow> bool" where
  "linked c k d \<longleftrightarrow> (\<exists>v. dr_world d = Serving v \<and> sv_inbox v = [] \<and> sv_left v = k \<and>
     0 \<le> cd_driver_fd c \<and> list_all (\<lambda>(fd, frame). 0 \<le> fd) (sv_conns v) \<and> drain_accepts (sv_conns v) (sv_coord v) = c)"

lemma drain_append:
  "list_all (\<lambda>(fd, frame). 0 \<le> fd) conns \<Longrightarrow> drain_accepts (conns @ conns') c = drain_accepts conns' (drain_accepts conns c)"
  by (induction conns arbitrary: c) auto

lemma linked_expect [simp]: "linked c k (expect cond what got d) = linked c k d"
  by (simp add: linked_def)

lemma linked_print [simp]: "linked c k (print s d) = linked c k d"
  by (simp add: linked_def)

lemma ask_linked:
  assumes "linked c k d" and "in_limits m" and "on_driver_message (cpu_peers (dp_lost dp)) m c = Some (C_send rs, c')"
    and "0 \<le> cd_driver_fd c'" and "decode rs = Ok r"
  obtains d' where "ask (deployment dp) m d = (r, d')" "linked c' k d'" "dr_failures d' = dr_failures d"
proof -
  obtain v where v: "dr_world d = Serving v" "sv_inbox v = []" "sv_left v = k" "0 \<le> cd_driver_fd c"
    "drain_accepts (sv_conns v) (sv_coord v) = c" using assms(1) by (auto simp: linked_def)
  obtain bs where bs: "encode m = Ok bs" "decode bs = Ok m" using assms(2) encode_Ok_iff decode_encode by blast
  have "serve (cpu_peers (dp_lost dp)) (sv_conns v) (D_frame bs) (sv_coord v) = Some (C_send rs, c')"
    using v(4,5) bs(2) assms(3) by (simp add: serve_def)
  then have "ask (deployment dp) m d = (r, d\<lparr>dr_world := Serving (v\<lparr>sv_coord := c', sv_conns := [], sv_inbox := []\<rparr>)\<rparr>)"
    using v bs(1) assms(5) by (simp add: ask_def sendm_def recvm_def deployment_def Let_def)
  then show thesis using that v(3) assms(4) by (simp add: linked_def)
qed

lemma put_creq_fd [simp]: "cd_driver_fd (put_creq k r c) = cd_driver_fd c" "cd_epoch (put_creq k r c) = cd_epoch c"
  "cd_proposer_boot (put_creq k r c) = cd_proposer_boot c" "cd_prev_proposer_boot (put_creq k r c) = cd_prev_proposer_boot c"
  by (simp_all add: put_creq_def)

lemma submit_linked:
  assumes "linked c k d" and "0 < unat depth" and "unat depth \<le> 61" and "0 < unat branches"
  obtains r' d' where "ask (deployment dp) (submit_message reqid depth branches aligned) d =
      (default_Message\<lparr>msg_type := Msg_Commit,
         msg_u64_fields := [reqid, of_nat (length (cq_committed r')), of_nat (length (cq_committed r'))]\<rparr>, d')"
    "linked (put_creq reqid r' c) k d'" "dr_failures d' = dr_failures d" "cq_epoch r' = cd_epoch c"
    "min (unat aligned) (unat depth) \<le> length (cq_committed r')" "length (cq_committed r') \<le> unat depth"
    "length (cq_committed r') = best_agreement (fresh_seed reqid depth) depth branches aligned"
proof -
  let ?m = "submit_message reqid depth branches aligned"
  have f: "msg_u64_fields ?m = reqid # []" "msg_u32_fields ?m = depth # branches # aligned # []" "in_limits ?m"
    by (simp_all add: submit_message_def in_limits_def msg_valid_def default_Message_def)
  obtain bs r' where s: "on_submit (cpu_peers (dp_lost dp)) ?m c = Some (C_send bs, put_creq reqid r' c)"
    "decode bs = Ok (default_Message\<lparr>msg_type := Msg_Commit,
       msg_u64_fields := [reqid, of_nat (length (cq_committed r')), of_nat (length (cq_committed r'))]\<rparr>)"
    "min (unat aligned) (unat depth) \<le> length (cq_committed r')" "length (cq_committed r') \<le> unat depth" "cq_epoch r' = cd_epoch c"
    "length (cq_committed r') = best_agreement (fresh_seed reqid depth) depth branches aligned"
    by (rule submit_answered [OF f(1,2) assms(2-4)])
  have "0 \<le> cd_driver_fd c" using assms(1) by (auto simp: linked_def)
  moreover have "on_driver_message (cpu_peers (dp_lost dp)) ?m c = Some (C_send bs, put_creq reqid r' c)"
    using s(1) by (simp add: on_driver_message_def submit_message_def)
  ultimately obtain d' where "ask (deployment dp) ?m d = (default_Message\<lparr>msg_type := Msg_Commit,
       msg_u64_fields := [reqid, of_nat (length (cq_committed r')), of_nat (length (cq_committed r'))]\<rparr>, d')"
    "linked (put_creq reqid r' c) k d'" "dr_failures d' = dr_failures d"
    using ask_linked [OF assms(1) f(3) _ _ s(2)] by (metis put_creq_fd(1))
  with that s(3-6) show thesis by blast
qed

lemma check_submit_linked:
  fixes reqid :: u64 and aligned :: u32
  assumes "linked c k d" and "0 < unat depth" and "unat depth \<le> 61" and "0 < unat branches" and "w \<le> 61"
  defines "n \<equiv> best_agreement (fresh_seed reqid depth) depth branches aligned"
  obtains r' d' where "check_submit (deployment dp) reqid depth branches aligned (of_nat w) what d = Some d'"
    "linked (put_creq reqid r' c) k d'" "cq_epoch r' = cd_epoch c" "length (cq_committed r') = n"
    "dr_failures d' = dr_failures d + (if n = w then 0 else 1)"
    "min (unat aligned) (unat depth) \<le> n" "n \<le> unat depth"
proof -
  obtain r' d' where s: "ask (deployment dp) (submit_message reqid depth branches aligned) d =
      (default_Message\<lparr>msg_type := Msg_Commit,
         msg_u64_fields := [reqid, of_nat (length (cq_committed r')), of_nat (length (cq_committed r'))]\<rparr>, d')"
    "linked (put_creq reqid r' c) k d'" "dr_failures d' = dr_failures d" "cq_epoch r' = cd_epoch c"
    "min (unat aligned) (unat depth) \<le> length (cq_committed r')" "length (cq_committed r') \<le> unat depth"
    "length (cq_committed r') = n"
    unfolding n_def by (rule submit_linked [OF assms(1-4)])
  have "unat (of_nat n :: u64) = n" "unat (of_nat w :: u64) = w"
    using s(6,7) assms(3,5) by (simp_all add: unat_of_nat take_bit_eq_mod)
  then have "(of_nat n :: u64) = of_nat w \<longleftrightarrow> n = w" by metis
  with s assms(3) that show thesis by (simp add: check_submit_def drv_submit_def vec_at_def)
qed

text \<open>
  What the script relies on after the first submission: the first request is the one under 42, of the first
  epoch. The tallies are the requests in the order of the coordinator's table with their committed lengths.
\<close>

definition tallies :: "Coordinator \<Rightarrow> (u64 \<times> nat) list" where
  "tallies c = map (\<lambda>(k, r). (k, length (cq_committed r))) (cd_requests c)"

definition engaged :: "(u64 \<times> nat) list \<Rightarrow> Coordinator \<Rightarrow> bool" where
  "engaged ns c \<longleftrightarrow> (\<exists>r rest. cd_requests c = (42, r) # rest \<and> cq_epoch r = StrongId 1) \<and> tallies c = ns"

lemma engaged_first:
  "cd_requests c = [] \<Longrightarrow> cq_epoch r = StrongId 1 \<Longrightarrow> engaged [(42, length (cq_committed r))] (put_creq 42 r c)"
  by (simp add: engaged_def put_creq_def tallies_def)

lemma map_put_last: "(\<And>k' v'. (k', v') \<in> set ps \<Longrightarrow> k' < k) \<Longrightarrow> map_put k v ps = ps @ [(k, v)]"
proof (induction ps)
  case (Cons p ps)
  have "fst p < k" using Cons.prems [of "fst p" "snd p"] by simp
  moreover have "map_put k v ps = ps @ [(k, v)]" by (rule Cons.IH) (use Cons.prems in auto)
  ultimately show ?case by simp
qed simp

lemma engaged_put:
  assumes "engaged ns c" and "list_all (\<lambda>(k', n). k' < k) ns"
  shows "engaged (ns @ [(k, length (cq_committed r))]) (put_creq k r c)"
proof -
  have "map_put k r (cd_requests c) = cd_requests c @ [(k, r)]"
    using assms by (intro map_put_last) (auto simp: engaged_def tallies_def list_all_iff)
  with assms(1) show ?thesis by (auto simp: engaged_def put_creq_def tallies_def)
qed

section \<open>The steps of the script\<close>

lemma start_linked:
  assumes "0 \<le> dp_proposer_fd dp" and "0 \<le> dp_verifier_fd dp" and "0 \<le> dp_driver_fd dp" and "dr_world d = start_world dp"
  obtains c d' where "sendm (deployment dp) hello_message d = (True, d')" "linked c (dp_delay dp) d'" "dr_failures d' = dr_failures d"
    "cd_requests c = []" "cd_epoch c = StrongId 1" "cd_proposer_boot c = dp_proposer_boot dp"
proof -
  let ?p = "worker_hello ''proposer'' (dp_proposer_boot dp)" and ?v = "worker_hello ''verifier'' (dp_verifier_boot dp)"
  have "in_limits ?p" "in_limits ?v" "in_limits hello_message"
    by (simp_all add: in_limits_def msg_valid_def worker_hello_def hello_message_def default_Message_def)
  then obtain p v h where f: "encode ?p = Ok p" "encode ?v = Ok v" "encode hello_message = Ok h"
    "decode p = Ok ?p" "decode v = Ok ?v" "decode h = Ok hello_message"
    by (meson encode_Ok_iff decode_encode)
  let ?conns = "[(dp_proposer_fd dp, Some p), (dp_verifier_fd dp, Some v), (dp_driver_fd dp, Some h)]"
  obtain c where c: "await_roles ?conns new_coordinator = Some c" "all_roles c" "cd_driver_fd c = dp_driver_fd dp"
    "cd_requests c = []" "cd_epoch c = StrongId 1" "cd_proposer_boot c = dp_proposer_boot dp"
    using f(4-6) assms(1-3)
    by (simp add: worker_hello_def hello_message_def new_coordinator_def all_roles_def hello_role_def hello_boot_def
        kRoleProposer_def kRoleVerifier_def kRoleDriver_def)
  have "sendm (deployment dp) hello_message d = (True, d\<lparr>dr_world := Serving \<lparr>sv_coord = enter_service c, sv_conns = [],
      sv_inbox = [], sv_left = dp_delay dp, sv_done = False\<rparr>\<rparr>)"
    using c(1,2) f(1-3) assms(4) by (simp add: sendm_def deployment_def start_world_def first_frame_def del: await_roles.simps)
  then show thesis using that [of _ "enter_service c"] c(3-6) assms(3) by (simp add: linked_def enter_service_def)
qed

definition restarted :: "Deployment \<Rightarrow> Coordinator \<Rightarrow> Coordinator" where
  "restarted dp c = c\<lparr>cd_prev_proposer_boot := cd_proposer_boot c, cd_proposer_fd := dp_restart_fd dp, cd_proposer_boot := dp_restart_boot dp\<rparr>"

lemma wait_done_restart:
  "\<not> sv_done v \<Longrightarrow> 0 < sv_left v \<Longrightarrow> sv_left v \<le> n \<Longrightarrow>
   wait_done (deployment dp) n (Serving v) = Serving (restart_worker dp (v\<lparr>sv_left := 0\<rparr>))"
proof (induction n arbitrary: v)
  case (Suc n)
  show ?case
  proof (cases "sv_left v = 1")
    case True
    then show ?thesis using Suc.prems by (cases n) (simp_all add: deployment_def restart_worker_def)
  next
    case False
    then show ?thesis using Suc.prems Suc.IH [of "v\<lparr>sv_left := sv_left v - 1\<rparr>"] by (simp add: deployment_def)
  qed
qed simp

lemma await_restart_linked:
  assumes "linked c k d" and "k \<le> 300" and "0 \<le> dp_restart_fd dp"
  shows "linked (restarted dp c) 0 (await_restart (deployment dp) d)" and "dr_failures (await_restart (deployment dp) d) = dr_failures d"
proof -
  obtain v where v: "dr_world d = Serving v" "sv_inbox v = []" "sv_left v = k" "0 \<le> cd_driver_fd c"
    "drain_accepts (sv_conns v) (sv_coord v) = c" "list_all (\<lambda>(fd, frame). 0 \<le> fd) (sv_conns v)"
    using assms(1) by (auto simp: linked_def)
  let ?v = "v\<lparr>sv_done := False, sv_left := 0\<rparr>" and ?h = "worker_hello ''proposer'' (dp_restart_boot dp)"
  have "in_limits ?h" by (simp add: in_limits_def msg_valid_def worker_hello_def default_Message_def)
  then obtain h where h: "encode ?h = Ok h" "decode h = Ok ?h" by (meson encode_Ok_iff decode_encode)
  have "dr_world (await_restart (deployment dp) d) = Serving (restart_worker dp ?v)"
  proof (cases "k = 0")
    case True
    then have "restart_worker dp (v\<lparr>sv_done := False\<rparr>) = restart_worker dp ?v" using v(3) by (simp add: restart_worker_def)
    moreover have "wait_done (deployment dp) 300 (Serving (restart_worker dp ?v)) = Serving (restart_worker dp ?v)"
      by (simp add: numeral_eq_Suc deployment_def restart_worker_def)
    ultimately show ?thesis using True v(1,3) by (simp add: await_restart_def deployment_def)
  next
    case False
    then have "wait_done (deployment dp) 300 (Serving (v\<lparr>sv_done := False\<rparr>)) = Serving (restart_worker dp ?v)"
      using wait_done_restart [of "v\<lparr>sv_done := False\<rparr>" 300 dp] v(3) assms(2) by simp
    with False v(1,3) show ?thesis by (simp add: await_restart_def deployment_def)
  qed
  moreover have "drain_accepts (sv_conns (restart_worker dp ?v)) (sv_coord v) = restarted dp c"
    using v(5) h assms(3) drain_append [OF v(6)]
    by (simp add: restart_worker_def first_frame_def accept_hello_def restarted_def worker_hello_def hello_role_def hello_boot_def)
  ultimately show "linked (restarted dp c) 0 (await_restart (deployment dp) d)"
    using v assms(3) by (simp add: linked_def restart_worker_def restarted_def)
  show "dr_failures (await_restart (deployment dp) d) = dr_failures d" by (simp add: await_restart_def Let_def)
qed

lemma linked_fd: "linked c k d \<Longrightarrow> 0 \<le> cd_driver_fd c"
  by (auto simp: linked_def)

lemma replay_linked:
  assumes "linked c k d" and "engaged n c"
  shows "linked c k (replay_stale (deployment dp) d)" and "dr_failures (replay_stale (deployment dp) d) = dr_failures d"
proof -
  obtain r rest where r: "cd_requests c = (42, r) # rest" "cq_epoch r = StrongId 1" using assms(2) by (auto simp: engaged_def)
  let ?m = "reply_body Msg_Reject kReasonStaleEpoch"
  have lim: "in_limits replay_message" "in_limits ?m"
    by (simp_all add: replay_message_def reply_body_def in_limits_def msg_valid_def default_Message_def kReasonStaleEpoch_def)
  obtain bs where bs: "answer ?m c = Some (C_send bs, c)" "decode bs = Ok ?m" by (rule answer_encoded [OF lim(2)])
  have "check_proposal r replay_message (cd_proposer_boot c) = Some kReasonStaleEpoch"
    using r(2) by (simp add: check_proposal_def replay_message_def vec_at_def validate_authority_def)
  then have "on_driver_message (cpu_peers (dp_lost dp)) replay_message c = Some (C_send bs, c)"
    using r(1) bs(1) reasons by (simp add: on_driver_message_def on_proposal_result_def verdict_reply_def replay_message_def)
  then obtain d' where d': "ask (deployment dp) replay_message d = (?m, d')" "linked c k d'" "dr_failures d' = dr_failures d"
    by (rule ask_linked [OF assms(1) lim(1) _ linked_fd [OF assms(1)] bs(2)])
  then have e: "replay_stale (deployment dp) d =
      expect True ''over-protocol stale-epoch replay rejected'' (''reply='' @ kReasonStaleEpoch) d'"
    by (simp add: replay_stale_def reply_body_def kReasonStaleEpoch_def)
  show "linked c k (replay_stale (deployment dp) d)" "dr_failures (replay_stale (deployment dp) d) = dr_failures d"
    unfolding e using d'(2,3) by simp_all
qed

text \<open>A probe with the answer that names the reason passes and changes nothing.\<close>

lemma probe_linked:
  assumes "linked c k d" and "engaged n c" and "probe_reply kind c = Some (reply_body Msg_Reject reason)" and "length kind \<le> 100"
  shows "linked c k (check_probe (deployment dp) kind reason what d)" and
    "dr_failures (check_probe (deployment dp) kind reason what d) = dr_failures d"
proof -
  obtain r rest where r: "cd_requests c = (42, r) # rest" using assms(2) by (auto simp: engaged_def)
  let ?q = "info_message (''stale:'' @ kind)"
  have lim: "in_limits ?q" using assms(4) by (simp add: info_message_def in_limits_def msg_valid_def default_Message_def)
  obtain bs where bs: "on_info (''stale:'' @ kind) c = Some (C_send bs, c)" "decode bs = Ok (reply_body Msg_Reject reason)"
    by (rule probe_answered [OF r assms(3)])
  have "on_driver_message (cpu_peers (dp_lost dp)) ?q c = Some (C_send bs, c)" using bs(1) by (simp add: on_driver_message_def info_message_def)
  then obtain d' where d': "ask (deployment dp) ?q d = (reply_body Msg_Reject reason, d')" "linked c k d'" "dr_failures d' = dr_failures d"
    by (rule ask_linked [OF assms(1) lim _ linked_fd [OF assms(1)] bs(2)])
  have "str_contains reason reason" by (simp add: str_contains_sublist)
  with d'(1) have e: "check_probe (deployment dp) kind reason what d = expect True what (''got='' @ reason) d'"
    by (simp add: check_probe_def probe_def reply_body_def)
  show "linked c k (check_probe (deployment dp) kind reason what d)"
    "dr_failures (check_probe (deployment dp) kind reason what d) = dr_failures d"
    unfolding e using d'(2,3) by simp_all
qed

lemma probe_answers:
  "probe_reply ''epoch'' c = Some (reply_body Msg_Reject ''stale_epoch'')"
  "probe_reply ''boot'' c = Some (reply_body Msg_Reject ''stale_worker_boot'')"
  "probe_reply ''attempt'' c = Some (reply_body Msg_Reject ''stale_attempt'')"
  "probe_reply ''generation'' c = Some (reply_body Msg_Reject ''stale_generation'')"
  "probe_reply ''base'' c = Some (reply_body Msg_Reject ''wrong_base_generation'')"
  "cd_prev_proposer_boot c \<noteq> cd_proposer_boot c \<Longrightarrow> probe_reply ''prevBoot'' c = Some (reply_body Msg_Reject ''stale_worker_boot'')"
  by (simp_all add: probe_reply_def stale_reasons_def kReasonStaleEpoch_def kReasonStaleBoot_def kReasonStaleAttempt_def
      kReasonWrongBase_def kReasonStaleGeneration_def)

lemma probes_linked:
  assumes "linked c k d" and "engaged n c" and "cd_prev_proposer_boot c \<noteq> cd_proposer_boot c"
  shows "linked c k (probes (deployment dp) d) \<and> dr_failures (probes (deployment dp) d) = dr_failures d"
  using assms(1) by (simp add: probes_def Let_def probe_linked [where k = k, OF _ assms(2)] probe_answers assms(3))

lemma roll_linked:
  assumes "linked c k d" and "engaged n c" and "cd_epoch c = StrongId 1"
  shows "linked (c\<lparr>cd_epoch := StrongId 2\<rparr>) k (roll_and_probe (deployment dp) d)"
    and "dr_failures (roll_and_probe (deployment dp) d) = dr_failures d"
proof -
  let ?c = "c\<lparr>cd_epoch := StrongId 2\<rparr>" and ?m = "reply_body Msg_Info ''ok epoch=2''"
  have lim: "in_limits (info_message ''rollEpoch'')" "in_limits ?m"
    by (simp_all add: info_message_def reply_body_def in_limits_def msg_valid_def default_Message_def)
  obtain bs where bs: "answer ?m ?c = Some (C_send bs, ?c)" "decode bs = Ok ?m" by (rule answer_encoded [OF lim(2)])
  have fd: "0 \<le> cd_driver_fd ?c" using linked_fd [OF assms(1)] by simp
  have two: "word_string (2 :: u64) = ''2''" by (simp add: word_string_def decimal.simps char_of_def bit_Suc_0_iff)
  have "on_driver_message (cpu_peers (dp_lost dp)) (info_message ''rollEpoch'') c = Some (C_send bs, ?c)"
    using assms(3) bs(1) by (simp add: on_driver_message_def on_info_def info_message_def two)
  then obtain d' where d': "ask (deployment dp) (info_message ''rollEpoch'') d = (?m, d')" "linked ?c k d'" "dr_failures d' = dr_failures d"
    by (rule ask_linked [OF assms(1) lim(1) _ fd bs(2)])
  have "engaged n ?c" using assms(2) by (simp add: engaged_def tallies_def)
  note probe = probe_linked [where k = k, OF _ this probe_answers(1)]
  from d' show "linked ?c k (roll_and_probe (deployment dp) d)" "dr_failures (roll_and_probe (deployment dp) d) = dr_failures d"
    by (simp_all add: roll_and_probe_def probe reply_body_def)
qed

lemma fresh_linked:
  assumes "linked c k d"
  obtains r' d' where "fresh_submit (deployment dp) d = Some d'" "linked (put_creq 46 r' c) k d'" "dr_failures d' = dr_failures d"
    "length (cq_committed r') = 5"
proof -
  obtain r' d' where s: "ask (deployment dp) (submit_message 46 5 1 5) d =
      (default_Message\<lparr>msg_type := Msg_Commit,
         msg_u64_fields := [46, of_nat (length (cq_committed r')), of_nat (length (cq_committed r'))]\<rparr>, d')"
    "linked (put_creq 46 r' c) k d'" "dr_failures d' = dr_failures d"
    "min (unat (5 :: u32)) (unat (5 :: u32)) \<le> length (cq_committed r')" "length (cq_committed r') \<le> unat (5 :: u32)"
    by (rule submit_linked [OF assms, of 5 1 dp 46 5]) simp_all
  have "length (cq_committed r') = 5" using s(4,5) by simp
  with s(1-3) show thesis
    by (intro that [of "expect True ''fresh submit commits 5'' (''committed='' @ word_string (5 :: u64)) d'" r'])
      (simp_all add: fresh_submit_def vec_at_def)
qed

lemma concat_length_bound: "(\<And>x. x \<in> set xs \<Longrightarrow> length (g x) \<le> b) \<Longrightarrow> length (concat (map g xs)) \<le> b * length xs"
  by (induction xs) (auto simp: add_mono)

lemma status_bound:
  assumes "length (tallies c) \<le> 1000" and "list_all (\<lambda>(k, n). n \<le> 61) (tallies c)"
  shows "length (status_text c) \<le> 1048576"
proof -
  let ?g = "\<lambda>(k, r). '' req'' @ word_string k @ '' committed='' @ decimal (length (cq_committed r)) @ '' gen='' @ word_string (id_get (cq_auth_gen r))"
  have "length (?g x) \<le> 62" if "x \<in> set (cd_requests c)" for x
  proof -
    obtain k r where x: "x = (k, r)" by (cases x)
    have "length (decimal (length (cq_committed r))) \<le> 2" using that assms(2) unfolding x by (intro decimal_length) (auto simp: tallies_def list_all_iff)
    with word64_length [of k] word64_length [of "id_get (cq_auth_gen r)"] show ?thesis unfolding x by simp
  qed
  then have "length (concat (map ?g (cd_requests c))) \<le> 62 * length (cd_requests c)" by (rule concat_length_bound)
  moreover have len: "length (cd_requests c) \<le> 1000" using assms(1) by (simp add: tallies_def)
  moreover have "length (decimal (length (cd_requests c))) \<le> 4" using len by (intro decimal_length) simp_all
  ultimately show ?thesis
    using word64_length [of "id_get (cd_epoch c)"] word64_length [of "cd_proposer_boot c"] by (simp add: status_text_def)
qed

lemma status_linked:
  assumes "linked c k d" and "length (tallies c) \<le> 1000" and "list_all (\<lambda>(k, n). n \<le> 61) (tallies c)"
  shows "linked c k (print_status (deployment dp) d)" and "dr_failures (print_status (deployment dp) d) = dr_failures d"
    and "\<exists>before. dr_out (print_status (deployment dp) d) = before @ ''coordinator status: '' @ c_str (status_text c) @ newline"
proof -
  let ?m = "reply_body Msg_Info (status_text c)"
  have lim: "in_limits (info_message ''status'')" "in_limits ?m"
    using status_bound [OF assms(2,3)] by (simp_all add: info_message_def reply_body_def in_limits_def msg_valid_def default_Message_def)
  obtain bs where bs: "answer ?m c = Some (C_send bs, c)" "decode bs = Ok ?m" by (rule answer_encoded [OF lim(2)])
  have "on_driver_message (cpu_peers (dp_lost dp)) (info_message ''status'') c = Some (C_send bs, c)"
    using bs(1) by (simp add: on_driver_message_def on_info_def info_message_def)
  then obtain d' where "ask (deployment dp) (info_message ''status'') d = (?m, d')" "linked c k d'" "dr_failures d' = dr_failures d"
    by (rule ask_linked [OF assms(1) lim(1) _ linked_fd [OF assms(1)] bs(2)])
  then have e: "print_status (deployment dp) d = print (''coordinator status: '' @ c_str (status_text c) @ newline) d'"
    and d': "linked c k d'" "dr_failures d' = dr_failures d" by (simp_all add: print_status_def reply_body_def)
  show "linked c k (print_status (deployment dp) d)" "dr_failures (print_status (deployment dp) d) = dr_failures d"
    unfolding e using d' by simp_all
  show "\<exists>before. dr_out (print_status (deployment dp) d) = before @ ''coordinator status: '' @ c_str (status_text c) @ newline"
    unfolding e print_out by blast
qed

lemma finish_linked:
  assumes "linked c k d" and "finish (deployment dp) d = (code, d')"
  shows "dr_world d' = Stopped c" and "dr_failures d' = dr_failures d" and "code = (if dr_failures d = 0 then 0 else 1)"
    and "dr_out d' = dr_out d @ ''driver: '' @ (if dr_failures d = 0 then ''ALL_OK'' else ''HAD_FAILURES'') @ '' ('' @
      int_string (dr_failures d) @ '' failures)'' @ newline"
proof -
  let ?m = "default_Message\<lparr>msg_type := Msg_Shutdown\<rparr>"
  obtain v where v: "dr_world d = Serving v" "0 \<le> cd_driver_fd c" "drain_accepts (sv_conns v) (sv_coord v) = c"
    using assms(1) by (auto simp: linked_def)
  have "in_limits ?m" by (simp add: in_limits_def msg_valid_def default_Message_def)
  then obtain bs where bs: "encode ?m = Ok bs" "decode bs = Ok ?m" using encode_Ok_iff decode_encode by blast
  have "serve (cpu_peers (dp_lost dp)) (sv_conns v) (D_frame bs) (sv_coord v) = Some (C_stop, c)"
    using v(2,3) bs(2) by (simp add: serve_def on_driver_message_def)
  with v(1) bs(1) assms(2) show "dr_world d' = Stopped c" "dr_failures d' = dr_failures d" "code = (if dr_failures d = 0 then 0 else 1)"
    "dr_out d' = dr_out d @ ''driver: '' @ (if dr_failures d = 0 then ''ALL_OK'' else ''HAD_FAILURES'') @ '' ('' @
      int_string (dr_failures d) @ '' failures)'' @ newline"
    by (auto simp: finish_def sendm_def deployment_def print_def)
qed

text \<open>The tokens that the coordinator commits for the second, third and fourth submission.\<close>

definition commit_B :: nat where "commit_B = best_agreement (fresh_seed 43 6) 6 1 3"
definition commit_C :: nat where "commit_C = best_agreement (fresh_seed 44 5) 5 1 0"
definition commit_D :: nat where "commit_D = best_agreement (fresh_seed 45 5) 5 2 2"

definition unexpected :: int where
  "unexpected = (if commit_B = 3 then 0 else 1) + (if commit_C = 0 then 0 else 1) + (if commit_D = 2 then 0 else 1)"

lemma submissions_linked:
  assumes "linked c k d" and "cd_requests c = []" and "cd_epoch c = StrongId 1"
  obtains c' d' where "submissions (deployment dp) d = Some d'" "linked c' k d'"
    "engaged [(42, 5), (43, commit_B), (44, commit_C), (45, commit_D)] c'" "cd_epoch c' = StrongId 1"
    "cd_proposer_boot c' = cd_proposer_boot c" "dr_failures d' = dr_failures d + unexpected"
    "3 \<le> commit_B" "commit_B \<le> 6" "commit_C \<le> 5" "2 \<le> commit_D" "commit_D \<le> 5"
proof -
  let ?dp = "deployment dp" and ?c = "\<lambda>r. length (cq_committed r)" and ?n = "best_agreement (fresh_seed 42 5) 5 1 5"
  obtain r1 d1 where s1: "check_submit ?dp 42 5 1 5 (of_nat 5) ''submit A full-accept committed=5'' d = Some d1"
    "linked (put_creq 42 r1 c) k d1" "cq_epoch r1 = cd_epoch c" "?c r1 = ?n" "dr_failures d1 = dr_failures d + (if ?n = 5 then 0 else 1)"
    "min (unat (5 :: u32)) (unat (5 :: u32)) \<le> ?n" "?n \<le> unat (5 :: u32)"
    by (rule check_submit_linked [OF assms(1), of 5 1 5 dp 42 5]) simp_all
  obtain r2 d2 where s2: "check_submit ?dp 43 6 1 3 (of_nat 3) ''submit B partial-accept committed=3'' d1 = Some d2"
    "linked (put_creq 43 r2 (put_creq 42 r1 c)) k d2" "?c r2 = commit_B" "dr_failures d2 = dr_failures d1 + (if commit_B = 3 then 0 else 1)"
    "min (unat (3 :: u32)) (unat (6 :: u32)) \<le> commit_B" "commit_B \<le> unat (6 :: u32)"
    unfolding commit_B_def by (rule check_submit_linked [OF s1(2), of 6 1 3 dp 43 3]) simp_all
  obtain r3 d3 where s3: "check_submit ?dp 44 5 1 0 (of_nat 0) ''submit C reject-all committed=0'' d2 = Some d3"
    "linked (put_creq 44 r3 (put_creq 43 r2 (put_creq 42 r1 c))) k d3" "?c r3 = commit_C"
    "dr_failures d3 = dr_failures d2 + (if commit_C = 0 then 0 else 1)" "commit_C \<le> unat (5 :: u32)"
    unfolding commit_C_def by (rule check_submit_linked [OF s2(2), of 5 1 0 dp 44 0]) simp_all
  obtain r4 d4 where s4: "check_submit ?dp 45 5 2 2 (of_nat 2) ''submit D multi-branch committed=2'' d3 = Some d4"
    "linked (put_creq 45 r4 (put_creq 44 r3 (put_creq 43 r2 (put_creq 42 r1 c)))) k d4" "?c r4 = commit_D"
    "dr_failures d4 = dr_failures d3 + (if commit_D = 2 then 0 else 1)" "min (unat (2 :: u32)) (unat (5 :: u32)) \<le> commit_D"
    "commit_D \<le> unat (5 :: u32)"
    unfolding commit_D_def by (rule check_submit_linked [OF s3(2), of 5 2 2 dp 45 2]) simp_all
  let ?c4 = "put_creq 45 r4 (put_creq 44 r3 (put_creq 43 r2 (put_creq 42 r1 c)))"
  have five: "?n = 5" using s1(6,7) by simp
  have e1: "engaged [(42, 5)] (put_creq 42 r1 c)" using engaged_first [of c r1] s1(3,4) five assms(2,3) by simp
  have e2: "engaged [(42, 5), (43, commit_B)] (put_creq 43 r2 (put_creq 42 r1 c))"
    using engaged_put [OF e1, of 43 r2] s2(3) by simp
  have e3: "engaged [(42, 5), (43, commit_B), (44, commit_C)] (put_creq 44 r3 (put_creq 43 r2 (put_creq 42 r1 c)))"
    using engaged_put [OF e2, of 44 r3] s3(3) by simp
  have "engaged [(42, 5), (43, commit_B), (44, commit_C), (45, commit_D)] ?c4"
    using engaged_put [OF e3, of 45 r4] s4(3) by simp
  moreover have "submissions ?dp d = Some d4" using s1(1) s2(1) s3(1) s4(1) by (simp add: submissions_def)
  moreover have "dr_failures d4 = dr_failures d + unexpected" using s1(5) five s2(4) s3(4) s4(4) by (simp add: unexpected_def)
  moreover have "3 \<le> commit_B" "commit_B \<le> 6" "commit_C \<le> 5" "2 \<le> commit_D" "commit_D \<le> 5"
    using s2(5,6) s3(5) s4(5,6) by simp_all
  ultimately show thesis using that [of d4 ?c4] s4(2) assms(3) by simp
qed

section \<open>The whole run\<close>

text \<open>
  The final state of the coordinator: five requests, the second epoch, the restarted proposer. The last lines
  of the driver's output: the status of that state and the verdict.
\<close>

definition closing_lines :: "Coordinator \<Rightarrow> int \<Rightarrow> string" where
  "closing_lines c n = ''coordinator status: '' @ c_str (status_text c) @ newline @
     ''driver: '' @ (if n = 0 then ''ALL_OK'' else ''HAD_FAILURES'') @ '' ('' @ int_string n @ '' failures)'' @ newline"

definition run_ends :: "Deployment \<Rightarrow> Coordinator \<Rightarrow> bool" where
  "run_ends dp c \<longleftrightarrow> tallies c = [(42, 5), (43, commit_B), (44, commit_C), (45, commit_D), (46, 5)] \<and>
     cd_epoch c = StrongId 2 \<and> cd_proposer_boot c = dp_restart_boot dp \<and> cd_prev_proposer_boot c = dp_proposer_boot dp"

lemma script_run:
  assumes "0 \<le> dp_proposer_fd dp" and "0 \<le> dp_verifier_fd dp" and "0 \<le> dp_driver_fd dp" and "0 \<le> dp_restart_fd dp"
    and "dp_restart_boot dp \<noteq> dp_proposer_boot dp" and "dp_delay dp \<le> 300" and "dr_world d = start_world dp" and "dr_failures d = 0"
  obtains d' c where "driver_script (deployment dp) d = Some (if unexpected = 0 then 0 else 1, d')" "dr_failures d' = unexpected"
    "dr_world d' = Stopped c" "run_ends dp c" "3 \<le> commit_B" "commit_B \<le> 6" "commit_C \<le> 5" "2 \<le> commit_D" "commit_D \<le> 5"
    "\<exists>before. dr_out d' = before @ closing_lines c unexpected"
proof -
  let ?env = "deployment dp" and ?ns = "[(42, 5), (43, commit_B), (44, commit_C), (45, commit_D)]"
  obtain c0 d0 where s0: "sendm ?env hello_message d = (True, d0)" "linked c0 (dp_delay dp) d0" "dr_failures d0 = dr_failures d"
    "cd_requests c0 = []" "cd_epoch c0 = StrongId 1" "cd_proposer_boot c0 = dp_proposer_boot dp"
    by (rule start_linked [OF assms(1-3,7)])
  obtain c1 d1 where s1: "submissions ?env d0 = Some d1" "linked c1 (dp_delay dp) d1" "engaged ?ns c1" "cd_epoch c1 = StrongId 1"
    "cd_proposer_boot c1 = cd_proposer_boot c0" "dr_failures d1 = dr_failures d0 + unexpected"
    "3 \<le> commit_B" "commit_B \<le> 6" "commit_C \<le> 5" "2 \<le> commit_D" "commit_D \<le> 5"
    by (rule submissions_linked [OF s0(2,4,5)])
  let ?c = "restarted dp c1" and ?d2 = "await_restart ?env d1" and ?c3 = "(restarted dp c1)\<lparr>cd_epoch := StrongId 2\<rparr>"
  have c: "engaged ?ns ?c" "cd_epoch ?c = StrongId 1" "cd_prev_proposer_boot ?c \<noteq> cd_proposer_boot ?c" "engaged ?ns ?c3"
    using s1(3-5) s0(6) assms(5) by (simp_all add: restarted_def engaged_def tallies_def)
  note w = await_restart_linked [OF s1(2) assms(6,4)]
  note r = replay_linked [OF w(1) c(1), of dp]
  note p = probes_linked [OF r(1) c(1,3), of dp, THEN conjunct1] probes_linked [OF r(1) c(1,3), of dp, THEN conjunct2]
  note q = roll_linked [OF p(1) c(1,2), of dp]
  obtain r' d3 where f: "fresh_submit ?env (roll_and_probe ?env (probes ?env (replay_stale ?env ?d2))) = Some d3"
    "linked (put_creq 46 r' ?c3) 0 d3" "dr_failures d3 = dr_failures (roll_and_probe ?env (probes ?env (replay_stale ?env ?d2)))"
    "length (cq_committed r') = 5" by (rule fresh_linked [OF q(1)])
  let ?c4 = "put_creq 46 r' ?c3"
  have t: "tallies ?c4 = [(42, 5), (43, commit_B), (44, commit_C), (45, commit_D), (46, 5)]"
    using engaged_put [OF c(4), of 46 r'] f(4) by (simp add: engaged_def)
  have ends: "run_ends dp ?c4" using t s1(5) s0(6) by (simp add: run_ends_def restarted_def)
  have "length (tallies ?c4) \<le> 1000" "list_all (\<lambda>(k, n). n \<le> 61) (tallies ?c4)" unfolding t using s1(7-11) by simp_all
  note st = status_linked [OF f(2) this, of dp]
  obtain code d4 where fin: "finish ?env (print_status ?env d3) = (code, d4)" by fastforce
  note fn = finish_linked [OF st(1) fin]
  have "dr_failures (print_status ?env d3) = unexpected" using st(2) f(3) q(2) p(2) r(2) w(2) s1(6) s0(3) assms(8) by simp
  with fn have "code = (if unexpected = 0 then 0 else 1)" "dr_failures d4 = unexpected" "dr_world d4 = Stopped ?c4" by simp_all
  moreover have "driver_script ?env d = Some (code, d4)" using s0(1) s1(1) f(1) fin by (simp add: driver_script_def)
  moreover have "\<exists>before. dr_out d4 = before @ closing_lines ?c4 unexpected"
    using st(3) fn(4) \<open>dr_failures (print_status ?env d3) = unexpected\<close> by (auto simp: closing_lines_def)
  ultimately show thesis using that [of d4 ?c4] ends s1(7-11) by simp
qed

definition new_driver :: "'w \<Rightarrow> 'w Driver" where
  "new_driver w = \<lparr>dr_out = [], dr_failures = 0, dr_world = w\<rparr>"

text \<open>
  The whole run with CPU workers: it is free of undefined behaviour of the driver and the coordinator, ends
  and stops the coordinator, and no expectation fails except possibly those on the submissions B, C and D, each
  exactly when the number of agreeing positions of the draft differs from the aligned length.
\<close>

lemma scenario_run:
  assumes "0 \<le> dp_proposer_fd dp" and "0 \<le> dp_verifier_fd dp" and "0 \<le> dp_driver_fd dp" and "0 \<le> dp_restart_fd dp"
    and "dp_restart_boot dp \<noteq> dp_proposer_boot dp" and "dp_delay dp \<le> 300"
    and "n < 2 ^ 16" and "connect_port (os host (of_nat n)) [] = (fd, errtext)" and "0 \<le> fd"
  shows "\<exists>code d' c. driver_main os (deployment dp) [prog, host, decimal n, tmp] (new_driver (start_world dp)) = Some (code, d') \<and>
    (code = 0 \<longleftrightarrow> commit_B = 3 \<and> commit_C = 0 \<and> commit_D = 2) \<and>
    dr_failures d' = (if commit_B = 3 then 0 else 1) + (if commit_C = 0 then 0 else 1) + (if commit_D = 2 then 0 else 1) \<and>
    (\<exists>before. dr_out d' = before @ closing_lines c (dr_failures d')) \<and>
    dr_world d' = Stopped c \<and> run_ends dp c \<and> 3 \<le> commit_B \<and> commit_B \<le> 6 \<and> commit_C \<le> 5 \<and> 2 \<le> commit_D \<and> commit_D \<le> 5"
proof -
  have d: "dr_world (new_driver (start_world dp)) = start_world dp" "dr_failures (new_driver (start_world dp)) = 0"
    by (simp_all add: new_driver_def)
  obtain d' c where r: "driver_script (deployment dp) (new_driver (start_world dp)) = Some (if unexpected = 0 then 0 else 1, d')"
    "dr_failures d' = unexpected" "dr_world d' = Stopped c" "run_ends dp c" "3 \<le> commit_B" "commit_B \<le> 6" "commit_C \<le> 5" "2 \<le> commit_D" "commit_D \<le> 5"
    "\<exists>before. dr_out d' = before @ closing_lines c unexpected"
    by (rule script_run [OF assms(1-6) d])
  have "atoi (decimal n) = Some (int n)" using assms(7) by (intro atoi_decimal) simp
  then have "driver_main os (deployment dp) [prog, host, decimal n, tmp] (new_driver (start_world dp)) =
      driver_script (deployment dp) (new_driver (start_world dp))"
    using assms(8,9) by (simp add: driver_main_def)
  with r show ?thesis by (auto simp: unexpected_def)
qed

end
