(* ===== verification/SF_Bits.thy ===== *)
theory SF_Bits
  imports SF_Executors
begin

text \<open>
  Evaluation of word arithmetic on bit lists, least significant bit first. The lowest bits of a sum,
  a product, an exclusive or and a shift follow from the lowest bits of the operands by structural
  recursion, so the simplifier evaluates long computations of the synthetic model; products
  of word numerals are far too slow for that. The last part evaluates the model: the
  tokens depend only on the lowest twelve bits of the hidden state.
\<close>

section \<open>Bit lists\<close>

definition ilo :: "nat \<Rightarrow> int \<Rightarrow> bool list" where
  "ilo n i = map (bit i) [0..<n]"

definition lo :: "nat \<Rightarrow> 'a::len word \<Rightarrow> bool list" where
  "lo n w = ilo n (uint w)"

abbreviation bval :: "bool list \<Rightarrow> int" where
  "bval \<equiv> horner_sum of_bool 2"

text \<open>Sum, product and exclusive or, as long as the first argument; bits that the second does not have are zero.\<close>

fun addb :: "bool list \<Rightarrow> bool list \<Rightarrow> bool \<Rightarrow> bool list" where
  "addb [] ys c = []"
| "addb (x # xs) [] c = (x \<noteq> c) # addb xs [] (x \<and> c)"
| "addb (x # xs) (y # ys) c = ((x \<noteq> y) \<noteq> c) # addb xs ys (x \<and> y \<or> x \<and> c \<or> y \<and> c)"

fun mulb :: "bool list \<Rightarrow> bool list \<Rightarrow> bool list" where
  "mulb [] xs = []"
| "mulb (k # ks) xs = (if k then addb (False # mulb ks xs) xs False else False # mulb ks xs)"

fun xorb :: "bool list \<Rightarrow> bool list \<Rightarrow> bool list" where
  "xorb [] ys = []"
| "xorb (x # xs) [] = x # xs"
| "xorb (x # xs) (y # ys) = (x \<noteq> y) # xorb xs ys"

lemma length_addb [simp]: "length (addb xs ys c) = length xs"
  by (induction xs ys c rule: addb.induct) auto

lemma length_mulb [simp]: "length (mulb ks xs) = length ks"
  by (induction ks) auto

lemma length_xorb [simp]: "length (xorb xs ys) = length xs"
  by (induction xs ys rule: xorb.induct) auto

lemma length_ilo [simp]: "length (ilo n i) = n"
  by (simp add: ilo_def)

lemma bval_ilo [simp]: "bval (ilo n i) = take_bit n i"
  by (simp add: ilo_def horner_sum_bit_eq_take_bit)

lemma ilo_cong: "take_bit n i = take_bit n j \<Longrightarrow> ilo n i = ilo n j"
  unfolding ilo_def by (intro map_cong refl) (metis atLeastLessThan_iff bit_take_bit_iff set_upt)

lemma ilo_bval: "ilo (length xs) (bval xs) = xs"
  by (intro nth_equalityI) (simp_all add: ilo_def bit_horner_sum_bit_iff)

lemma bval_eqI: "bval xs = take_bit (length xs) i \<Longrightarrow> xs = ilo (length xs) i"
  by (metis ilo_bval ilo_cong take_bit_take_bit min.idem)

lemma take_bit_double: "take_bit (Suc n) (of_bool b + 2 * i) = of_bool b + 2 * take_bit n (i :: int)"
  by (cases b) (simp_all add: take_bit_Suc)

lemma bval_addb: "bval (addb xs ys c) = take_bit (length xs) (bval xs + bval ys + of_bool c)"
proof (induction xs ys c rule: addb.induct)
  case (2 x xs c)
  have "bval (x # xs) + bval [] + of_bool c = of_bool (x \<noteq> c) + 2 * (bval xs + bval [] + of_bool (x \<and> c))"
    by (cases x; cases c) simp_all
  then show ?case using 2 by (simp only: addb.simps list.size add_0_right take_bit_double plus_nat.simps add_Suc_right) simp
next
  case (3 x xs y ys c)
  have "bval (x # xs) + bval (y # ys) + of_bool c =
      of_bool ((x \<noteq> y) \<noteq> c) + 2 * (bval xs + bval ys + of_bool (x \<and> y \<or> x \<and> c \<or> y \<and> c))"
    by (cases x; cases y; cases c) simp_all
  then show ?case using 3 by (simp only: addb.simps list.size add_0_right take_bit_double plus_nat.simps add_Suc_right) simp
qed simp

lemma bval_mulb: "bval (mulb ks xs) = take_bit (length ks) (bval ks * bval xs)"
proof (induction ks)
  case (Cons k ks)
  have two: "2 * bval (mulb ks xs) = take_bit (Suc (length ks)) (2 * (bval ks * bval xs))"
    using Cons take_bit_double [of "length ks" False "bval ks * bval xs"] by simp
  show ?case
  proof (cases k)
    case True
    then have "bval (mulb (k # ks) xs) = take_bit (Suc (length ks)) (2 * bval (mulb ks xs) + bval xs)" by (simp add: bval_addb)
    also have "\<dots> = take_bit (Suc (length ks)) (2 * (bval ks * bval xs) + bval xs)" unfolding two by (metis take_bit_add take_bit_take_bit min.idem)
    finally show ?thesis using True by (simp add: algebra_simps)
  qed (use two in \<open>simp add: ac_simps\<close>)
qed simp

lemma nth_xorb: "i < length xs \<Longrightarrow> xorb xs ys ! i = (xs ! i \<noteq> (i < length ys \<and> ys ! i))"
  by (induction xs ys arbitrary: i rule: xorb.induct) (auto simp: nth_Cons split: nat.splits)

section \<open>Lowest bits of words\<close>

lemma length_lo [simp]: "length (lo n w) = n"
  by (simp add: lo_def)

lemma nth_lo: "i < n \<Longrightarrow> lo n w ! i = bit w i"
  by (simp add: lo_def ilo_def bit_uint_iff bit_imp_le_length) (metis bit_imp_le_length)

lemma lo_add:
  fixes a b :: "'a::len word" assumes "n \<le> LENGTH('a)"
  shows "lo n (a + b) = addb (lo n a) (lo n b) False"
proof -
  have "addb (lo n a) (lo n b) False = ilo n (uint a + uint b)"
    using bval_eqI [of "addb (lo n a) (lo n b) False" "uint a + uint b"] by (simp add: bval_addb lo_def take_bit_add)
  also have "\<dots> = lo n (a + b)" unfolding lo_def using assms by (intro ilo_cong) (simp add: uint_word_ariths take_bit_take_bit min_absorb1 take_bit_eq_mod [symmetric])
  finally show ?thesis ..
qed

lemma lo_mult:
  fixes a b :: "'a::len word" assumes "n \<le> LENGTH('a)"
  shows "lo n (a * b) = mulb (lo n a) (lo n b)"
proof -
  have "mulb (lo n a) (lo n b) = ilo n (uint a * uint b)"
    using bval_eqI [of "mulb (lo n a) (lo n b)" "uint a * uint b"] by (simp add: bval_mulb lo_def take_bit_mult)
  also have "\<dots> = lo n (a * b)" unfolding lo_def using assms by (intro ilo_cong) (simp add: uint_word_ariths take_bit_take_bit min_absorb1 take_bit_eq_mod [symmetric])
  finally show ?thesis ..
qed

lemma lo_xor: "lo n (a XOR b) = xorb (lo n a) (lo n b)"
  by (intro nth_equalityI) (simp_all add: nth_lo nth_xorb bit_xor_iff)

lemma lo_drop: "n + k \<le> m \<Longrightarrow> lo n (drop_bit k a) = take n (drop k (lo m a))"
  by (intro nth_equalityI) (simp_all add: nth_lo bit_drop_bit_eq)

lemma lo_shift_xor: "lo LENGTH('a) (a XOR drop_bit k a) = xorb (lo LENGTH('a) a) (drop k (lo LENGTH('a) (a :: 'a::len word)))"
  by (intro nth_equalityI) (auto simp: nth_lo nth_xorb bit_xor_iff bit_drop_bit_eq bit_imp_le_length dest: bit_imp_le_length)

lemma lo_ucast: "n \<le> LENGTH('b) \<Longrightarrow> lo n (ucast (a :: 'a::len word) :: 'b::len word) = lo n a"
  by (intro nth_equalityI) (auto simp: nth_lo bit_unsigned_iff)

lemma take_lo: "m \<le> n \<Longrightarrow> take m (lo n a) = lo m a"
  by (intro nth_equalityI) (simp_all add: nth_lo)

lemma lo_mult_long:
  fixes a b :: "'a::len word" assumes "n \<le> m" and "m \<le> LENGTH('a)"
  shows "lo n (a * b) = mulb (lo n a) (lo m b)"
proof -
  have "take_bit n (take_bit n (uint a) * take_bit m (uint b)) = take_bit n (uint a * uint b)"
    using take_bit_mult [of n "take_bit n (uint a)" "take_bit m (uint b)"] take_bit_mult [of n "uint a" "uint b"] assms(1) by simp
  then have "mulb (lo n a) (lo m b) = mulb (lo n a) (lo n b)"
    using bval_eqI [of "mulb (lo n a) (lo n b)" "uint a * uint b"] bval_eqI [of "mulb (lo n a) (lo m b)" "uint a * uint b"]
    by (simp add: bval_mulb lo_def take_bit_mult)
  then show ?thesis using assms lo_mult [of n a b] by simp
qed

section \<open>Rules for evaluation\<close>

lemma addb_eval:
  "addb [] ys c = []"
  "addb (False # xs) [] c = c # addb xs [] False"
  "addb (True # xs) [] False = True # addb xs [] False"
  "addb (True # xs) [] True = False # addb xs [] True"
  "addb (False # xs) (False # ys) c = c # addb xs ys False"
  "addb (False # xs) (True # ys) False = True # addb xs ys False"
  "addb (False # xs) (True # ys) True = False # addb xs ys True"
  "addb (True # xs) (False # ys) False = True # addb xs ys False"
  "addb (True # xs) (False # ys) True = False # addb xs ys True"
  "addb (True # xs) (True # ys) c = c # addb xs ys True"
  by (cases c; simp)+

lemma mulb_eval:
  "mulb [] xs = []" "mulb (False # ks) xs = False # mulb ks xs" "mulb (True # ks) xs = addb (False # mulb ks xs) xs False"
  by simp_all

lemma xorb_eval:
  "xorb [] ys = []" "xorb (x # xs) [] = x # xs" "xorb (False # xs) (y # ys) = y # xorb xs ys"
  "xorb (True # xs) (False # ys) = True # xorb xs ys" "xorb (True # xs) (True # ys) = False # xorb xs ys"
  by simp_all

section \<open>The generator\<close>

text \<open>The constants of the generator and of the model.\<close>

definition bG :: "bool list" where
  "bG = [True, False, True, False, True, False, False, False, False, False, True, True, True, True, True, False, False,
     True, False, True, False, False, True, False, True, True, True, True, True, True, True, False, True, False,
     False, True, True, True, False, True, True, False, False, True, True, True, True, False, True, True, True,
     False, True, True, False, False, False, True, True, True, True, False, False, True]"

definition bC1 :: "bool list" where
  "bC1 = [True, False, False, True, True, True, False, True, True, False, True, False, False, True, True, True, False,
     False, True, False, False, True, True, True, False, False, True, True, True, False, False, False, True, False,
     True, True, False, True, True, False, True, True, True, False, False, False, True, False, False, False, False,
     True, True, False, True, False, True, True, True, True, True, True, False, True]"

definition bC2 :: "bool list" where
  "bC2 = [True, True, False, True, False, True, True, True, True, False, False, False, True, False, False, False, True,
     False, False, False, True, True, False, False, True, True, False, False, True, False, False, False, True, True,
     False, True, True, True, False, True, True, False, False, True, False, False, True, False, False, False, False,
     False, True, False, True, True, False, False, True, False, True, False, False, True]"

definition bC2s :: "bool list" where
  "bC2s = [True, True, False, True, False, True, True, True, True, False, False, False, True, False, False, False, True,
     False, False, False, True, True, False, False, True, True, False, False, True, False, False, False, True, True,
     False, True, True, True, False, True, True, False, False]"

definition bF :: "bool list" where
  "bF = [True, True, False, False, True, True, False, True, True, False, False, False, False, False, False, False,
     False, False, False, False, False, False, False, False, False, False, False, False, False, False, False, False,
     False, False, False, False, False, False, False, False, True, False, False, False, False, False, False, False,
     False, False, False, False, False, False, False, False, False, False, False, False, False, False, False, False]"

definition bS :: "bool list" where
  "bS = [False, False, True, True, False, False, False, False, True, True, False, True, True, True, True, False, True,
     False, False, False, False, True, False, True, True, False, True, False, False, False, False, False, True,
     False, False, False, False, False, False, False, False, False, False, False, False, False, False, False, False,
     False, False, False, False, False, False, False, False, False, False, False, False, False, False, False]"

definition bA :: "bool list" where
  "bA = [True, False, False, True, True, True, False, True, True, False, False, True]"

definition bM :: "bool list" where
  "bM = [True, True, False, True, False, True, True, False, False, True, False, True]"

lemma lo_constants:
  "lo 64 (0x9E3779B97F4A7C15 :: u64) = bG" "lo 64 (0xBF58476D1CE4E5B9 :: u64) = bC1" "lo 64 (0x94D049BB133111EB :: u64) = bC2"
  "lo 64 (0x100000001B3 :: u64) = bF" "lo 12 (0x9E3779B9 :: u32) = bA" "lo 12 (0x85EBCA6B :: u32) = bM"
  "lo 64 (0x105A17B0C :: u64) = bS"
  by (simp_all add: lo_def ilo_def upt_conv_Cons bG_def bC1_def bC2_def bF_def bS_def bA_def bM_def)

definition badv :: "bool list \<Rightarrow> bool list" where
  "badv x = addb x bG False"

text \<open>\<open>x XOR drop_bit k x\<close>\<close>

definition bsh :: "nat \<Rightarrow> bool list \<Rightarrow> bool list" where
  "bsh k x = xorb x (drop k x)"

text \<open>The twelve lowest bits of a draw: the last product is needed up to bit 42.\<close>

definition bfin :: "bool list \<Rightarrow> bool list" where
  "bfin z = xorb (take 12 z) (drop 31 z)"

definition bout :: "bool list \<Rightarrow> bool list" where
  "bout x = bfin (mulb bC2s (bsh 27 (mulb bC1 (bsh 30 x))))"

fun bouts :: "nat \<Rightarrow> bool list \<Rightarrow> bool list list" where
  "bouts 0 x = []"
| "bouts (Suc n) x = bout (badv x) # bouts n (badv x)"

lemma lo_bsh: "lo 64 ((a :: u64) XOR drop_bit k a) = bsh k (lo 64 a)"
  using lo_shift_xor [of a k] by (simp add: bsh_def)

lemma bfin_lo: "bfin (lo 43 (z :: u64)) = lo 12 (z XOR drop_bit 31 z)"
  by (intro nth_equalityI) (simp_all add: bfin_def nth_lo nth_xorb bit_xor_iff bit_drop_bit_eq)

lemma splitmix_bits: "bout (badv (lo 64 x)) = lo 12 (fst (splitmix64_update x))" "badv (lo 64 x) = lo 64 (snd (splitmix64_update x))"
proof -
  let ?x = "x + 0x9E3779B97F4A7C15"
  let ?z = "(?x XOR drop_bit 30 ?x) * 0xBF58476D1CE4E5B9"
  let ?y = "(?z XOR drop_bit 27 ?z) * 0x94D049BB133111EB"
  have x: "badv (lo 64 x) = lo 64 ?x" using lo_add [of 64 x "0x9E3779B97F4A7C15"] by (simp only: badv_def lo_constants) simp
  have z: "mulb bC1 (bsh 30 (lo 64 ?x)) = lo 64 ?z"
    using lo_mult [of 64 "0xBF58476D1CE4E5B9" "?x XOR drop_bit 30 ?x"] by (simp only: lo_bsh lo_constants mult.commute) simp
  have "bC2s = take 43 bC2" by (simp add: bC2s_def bC2_def)
  then have "mulb bC2s (bsh 27 (lo 64 ?z)) = lo 43 ?y"
    using lo_mult_long [of 43 64 "0x94D049BB133111EB" "?z XOR drop_bit 27 ?z"]
    by (simp only: lo_bsh lo_constants [symmetric] mult.commute [of "0x94D049BB133111EB"] take_lo) (simp add: take_lo)
  then have "bout (badv (lo 64 x)) = lo 12 (?y XOR drop_bit 31 ?y)" by (simp only: bout_def x z bfin_lo)
  then show "bout (badv (lo 64 x)) = lo 12 (fst (splitmix64_update x))" by (simp add: splitmix64_update_def Let_def lo_ucast)
  show "badv (lo 64 x) = lo 64 (snd (splitmix64_update x))" unfolding x by (simp add: splitmix64_update_def Let_def)
qed

lemma bouts_draws: "bouts n (lo 64 x) = map (lo 12) (fst (draws n x))"
  by (induction n arbitrary: x) (simp_all add: splitmix_bits(2) splitmix_bits(1) [unfolded splitmix_bits(2)] case_prod_beta Let_def)

lemma draws_append:
  "fst (draws (m + n) x) = fst (draws m x) @ fst (draws n (snd (draws m x)))" "snd (draws (m + n) x) = snd (draws n (snd (draws m x)))"
  by (induction m arbitrary: x) (simp_all add: case_prod_beta Let_def)

section \<open>The model\<close>

text \<open>The rows of the model from the sequence of draws, with the twelve lowest bits of each number.\<close>

fun brows :: "nat \<Rightarrow> bool list list \<Rightarrow> (bool list list \<times> bool list) list" where
  "brows 0 os = []"
| "brows (Suc n) os = (take 16 os, os ! 16) # brows n (drop 17 os)"

fun bword :: "bool list \<Rightarrow> bool list list \<Rightarrow> bool list list \<Rightarrow> bool list" where
  "bword acc (s # st) (w # ws) = bword (xorb (mulb bM acc) (mulb s w)) st ws"
| "bword acc st ws = acc"

fun bstep :: "(bool list list \<times> bool list) list \<Rightarrow> bool list list \<Rightarrow> bool list \<Rightarrow> bool list list" where
  "bstep [] st p = []"
| "bstep ((ws, b) # rows) st p = bword (xorb b p) st ws # bstep rows st p"

definition btoken :: "bool list list \<Rightarrow> bool list \<Rightarrow> bool list \<Rightarrow> bool list" where
  "btoken st j prev = xorb (st ! 0) (xorb (st ! 7) (xorb (st ! 13) (xorb (mulb bA j) (xorb bM prev))))"

definition low_row :: "u32 list \<times> u32 \<Rightarrow> bool list list \<times> bool list" where
  "low_row = (\<lambda>(ws, b). (map (lo 12) ws, lo 12 b))"

definition target_rows :: "(bool list list \<times> bool list) list" where
  "target_rows = map low_row (zip (sm_weights make_target_model) (sm_bias make_target_model))"

lemma lo_masked: "lo 12 ((w :: u32) AND 0xFFFF) = lo 12 w"
proof -
  have m: "(0xFFFF :: u32) = mask 16" by (simp add: mask_eq_exp_minus_1)
  have "bit (0xFFFF :: u32) i" if "i < 12" for i using that unfolding m bit_mask_iff by simp
  then show ?thesis by (intro nth_equalityI) (simp_all add: nth_lo bit_and_iff)
qed

lemma brows_rows: "brows n (bouts (17 * n) (lo 64 x)) = map low_row (model_rows n x)"
proof (induction n arbitrary: x)
  case (Suc n)
  let ?x = "snd (draws 16 x)" let ?y = "snd (splitmix64_update ?x)"
  have "bouts (17 * Suc n) (lo 64 x) = map (lo 12) (fst (draws (16 + (1 + 17 * n)) x))" by (simp add: bouts_draws)
  also have "\<dots> = map (lo 12) (fst (draws 16 x)) @ lo 12 (fst (splitmix64_update ?x)) # bouts (17 * n) (lo 64 ?y)"
    unfolding draws_append(1) [of 16 "1 + 17 * n"] by (simp add: bouts_draws case_prod_beta Let_def)
  finally have b: "bouts (17 * Suc n) (lo 64 x) = map (lo 12) (fst (draws 16 x)) @ lo 12 (fst (splitmix64_update ?x)) # bouts (17 * n) (lo 64 ?y)" .
  have m: "model_rows (Suc n) x = (map (\<lambda>w. w AND 0xFFFF) (fst (draws 16 x)), fst (splitmix64_update ?x) AND 0xFFFF) # model_rows n ?y"
    by (simp add: kStateWords_def case_prod_beta Let_def)
  show ?case unfolding brows.simps(2) b m using Suc.IH [of ?y] by (simp add: low_row_def lo_masked nth_append o_def)
qed simp

lemma target_rows_eq: "target_rows = brows 16 (bouts 272 bS)"
proof -
  have seed: "(ucast kTargetModelSeed OR push_bit 32 1 :: u64) = 0x105A17B0C" by (simp add: kTargetModelSeed_def)
  have "zip (map fst rows) (map snd rows) = rows" for rows :: "(u32 list \<times> u32) list" by (induction rows) simp_all
  then have "target_rows = map low_row (model_rows 16 (ucast kTargetModelSeed OR push_bit 32 1))"
    by (simp add: target_rows_def make_target_model_def Let_def kStateWords_def)
  then show ?thesis unfolding seed using brows_rows [of 16 "0x105A17B0C"] by (simp add: lo_constants)
qed

lemma bword_step:
  "bword (lo 12 acc) (map (lo 12) st) (map (lo 12) ws) = lo 12 (step_word 0x85EBCA6B st acc ws)"
proof (induction st arbitrary: acc ws)
  case (Cons s st)
  show ?case
  proof (cases ws)
    case (Cons w ws')
    have "xorb (mulb bM (lo 12 acc)) (mulb (lo 12 s) (lo 12 w)) = lo 12 ((acc * 0x85EBCA6B) XOR (s * w))"
      by (simp add: lo_xor lo_mult lo_constants [symmetric] mult.commute [of acc])
    then show ?thesis using Cons Cons.IH by (simp add: step_word_def)
  qed (simp add: step_word_def)
qed (simp add: step_word_def)

lemma bstep_step:
  "bstep (map low_row (zip W B)) (map (lo 12) st) (mulb bA (lo 12 prev)) =
     map (lo 12) (map2 (\<lambda>b ws. step_word 0x85EBCA6B st (b XOR (0x9E3779B9 * prev)) ws) B W)"
proof (induction W arbitrary: B)
  case (Cons ws W)
  show ?case
  proof (cases B)
    case (Cons b B')
    have "xorb (lo 12 b) (mulb bA (lo 12 prev)) = lo 12 (b XOR (0x9E3779B9 * prev))" by (simp add: lo_xor lo_mult lo_constants [symmetric])
    then show ?thesis using Cons Cons.IH [of B'] by (simp add: low_row_def bword_step)
  qed simp
qed simp

lemma target_step: "bstep target_rows (map (lo 12) st) (mulb bA (lo 12 prev)) = map (lo 12) (model_step make_target_model st prev)"
proof -
  have "sm_mix_a make_target_model = 0x9E3779B9" "sm_mix_b make_target_model = 0x85EBCA6B" by (simp_all add: make_target_model_def Let_def)
  then show ?thesis unfolding target_rows_def bstep_step by (simp add: model_step_def)
qed

lemma lo_vocab: "lo 12 ((x :: u32) mod 4096) = lo 12 x"
  by (intro nth_equalityI) (simp_all add: nth_lo word_mod_4096 bit_take_bit_iff)

lemma target_token:
  assumes "length st = 16"
  shows "btoken (map (lo 12) st) (lo 12 (i + 1)) (lo 12 prev) = lo 12 (model_token make_target_model st i prev kSyntheticVocab)"
proof -
  have "sm_mix_a make_target_model = 0x9E3779B9" "sm_mix_b make_target_model = 0x85EBCA6B" by (simp_all add: make_target_model_def Let_def)
  then show ?thesis using assms
    by (simp add: btoken_def model_token_def kSyntheticVocab_def lo_vocab lo_xor lo_mult lo_constants [symmetric] Let_def
        del: distrib_left_numeral)
qed

section \<open>Sequences\<close>

text \<open>
  The target sequence and a draft, from the hidden state and the number of the first position. The
  second argument of a draft counts the aligned tokens left, the third is the shift of the others.
\<close>

definition bone :: "bool list" where
  "bone = [True, False, False, False, False, False, False, False, False, False, False, False]"

definition bzero :: "bool list" where
  "bzero = [False, False, False, False, False, False, False, False, False, False, False, False]"

fun btargets :: "nat \<Rightarrow> (bool list list \<times> bool list) list \<Rightarrow> bool list \<Rightarrow> bool list list \<Rightarrow> bool list \<Rightarrow> bool list list" where
  "btargets 0 rows j st prev = []"
| "btargets (Suc n) rows j st prev =
     (let e = btoken st j prev in e # btargets n rows (addb j bone False) (bstep rows st (mulb bA e)) e)"

fun bdraft :: "nat \<Rightarrow> nat \<Rightarrow> bool list \<Rightarrow> (bool list list \<times> bool list) list \<Rightarrow> bool list \<Rightarrow> bool list list \<Rightarrow> bool list \<Rightarrow> bool list list" where
  "bdraft 0 a d rows j st prev = []"
| "bdraft (Suc n) a d rows j st prev =
     (let e = btoken st j prev; t = (if a = 0 then addb e d False else e)
      in t # bdraft n (a - 1) d rows (addb j bone False) (bstep rows st (mulb bA t)) t)"

lemma lo_small: "lo 12 (0 :: u32) = bzero" "lo 12 (1 :: u32) = bone" "lo 12 (2 :: u32) = [False, True, False, False, False, False, False, False, False, False, False, False]"
  by (simp_all add: lo_def ilo_def upt_conv_Cons bzero_def bone_def)

lemma lo_next: "addb (lo 12 (i :: u32)) bone False = lo 12 (i + 1)"
  using lo_add [of 12 i 1] by (simp add: lo_small)

lemma btargets_target:
  "length st = 16 \<Longrightarrow> map (lo 12) (target_tokens n make_target_model i st prev) =
     btargets n target_rows (lo 12 (i + 1)) (map (lo 12) st) (lo 12 prev)"
proof (induction n arbitrary: i st prev)
  case (Suc n)
  let ?e = "model_token make_target_model st i prev kSyntheticVocab"
  have "length (model_step make_target_model st ?e) = 16" by (simp add: make_target_model)
  note ih = Suc.IH [OF this, of "i + 1" ?e, folded target_step]
  show ?case by (simp only: btargets.simps target_tokens.simps Let_def list.map target_token [OF Suc.prems] lo_next ih)
qed simp

lemma bdraft_draft:
  assumes "length st = 16" and "unat i + n < 2 ^ 32"
  shows "map (lo 12) (propose_loop n make_target_model al br i st prev) =
    bdraft n (unat al - unat i) (lo 12 (1 + br)) target_rows (lo 12 (i + 1)) (map (lo 12) st) (lo 12 prev)"
  using assms
proof (induction n arbitrary: i st prev)
  case (Suc n)
  let ?e = "model_token make_target_model st i prev kSyntheticVocab"
  let ?t = "if i < al then ?e else (?e + 1 + br) mod kSyntheticVocab"
  have suc: "unat (i + 1) = Suc (unat i)" using Suc.prems(2) by (simp add: unat_word_ariths)
  have "length (model_step make_target_model st ?t) = 16" "unat (i + 1) + n < 2 ^ 32" using Suc.prems(2) suc by (simp_all add: make_target_model)
  note ih = Suc.IH [OF this, of ?t, folded target_step, unfolded suc diff_Suc_eq_diff_pred]
  have al: "i < al \<longleftrightarrow> unat al - unat i \<noteq> 0" by (simp add: word_less_nat_alt not_le)
  have t: "lo 12 ?t = (if unat al - unat i = 0 then addb (lo 12 ?e) (lo 12 (1 + br)) False else lo 12 ?e)"
    using lo_add [of 12 ?e "1 + br"] by (simp only: al kSyntheticVocab_def lo_vocab add.assoc split: if_splits) simp
  show ?case
    by (simp only: bdraft.simps propose_loop.simps Let_def list.map target_token [OF Suc.prems(1)] lo_next ih t [symmetric]) simp
qed simp

text \<open>Tokens are below the vocabulary size, so their lowest bits tell whether they agree.\<close>

lemma lo_token_inj: "(x :: u32) < 4096 \<Longrightarrow> y < 4096 \<Longrightarrow> lo 12 x = lo 12 y \<longleftrightarrow> x = y"
proof -
  assume "x < 4096" "y < 4096"
  then have "take_bit 12 x = x" "take_bit 12 y = y" by (simp_all add: word_mod_4096 [symmetric] word_mod_less_divisor mod_word_less)
  moreover have "take_bit 12 x = take_bit 12 y" if "lo 12 x = lo 12 y"
    using that by (intro bit_word_eqI) (metis bit_take_bit_iff nth_lo)
  ultimately show ?thesis by metis
qed

lemma agreements_lo:
  "list_all (\<lambda>x. x < 4096) xs \<Longrightarrow> list_all (\<lambda>x. x < 4096) ys \<Longrightarrow> agreements (map (lo 12) xs) (map (lo 12) ys) = agreements xs (ys :: u32 list)"
  by (induction xs ys rule: agreements.induct) (auto simp: lo_token_inj)

section \<open>Evaluation\<close>

lemma cuts:
  "drop 17 (x1 # x2 # x3 # x4 # x5 # x6 # x7 # x8 # x9 # x10 # x11 # x12 # x13 # x14 # x15 # x16 # x17 # xs) = xs"
  "drop 27 (x1 # x2 # x3 # x4 # x5 # x6 # x7 # x8 # x9 # x10 # x11 # x12 # x13 # x14 # x15 # x16 # x17 # x18 # x19 # x20 #
     x21 # x22 # x23 # x24 # x25 # x26 # x27 # xs) = xs"
  "drop 29 (x1 # x2 # x3 # x4 # x5 # x6 # x7 # x8 # x9 # x10 # x11 # x12 # x13 # x14 # x15 # x16 # x17 # x18 # x19 # x20 #
     x21 # x22 # x23 # x24 # x25 # x26 # x27 # x28 # x29 # xs) = xs"
  "drop 30 (x1 # x2 # x3 # x4 # x5 # x6 # x7 # x8 # x9 # x10 # x11 # x12 # x13 # x14 # x15 # x16 # x17 # x18 # x19 # x20 #
     x21 # x22 # x23 # x24 # x25 # x26 # x27 # x28 # x29 # x30 # xs) = xs"
  "drop 31 (x1 # x2 # x3 # x4 # x5 # x6 # x7 # x8 # x9 # x10 # x11 # x12 # x13 # x14 # x15 # x16 # x17 # x18 # x19 # x20 #
     x21 # x22 # x23 # x24 # x25 # x26 # x27 # x28 # x29 # x30 # x31 # xs) = xs"
  "drop 32 (x1 # x2 # x3 # x4 # x5 # x6 # x7 # x8 # x9 # x10 # x11 # x12 # x13 # x14 # x15 # x16 # x17 # x18 # x19 # x20 #
     x21 # x22 # x23 # x24 # x25 # x26 # x27 # x28 # x29 # x30 # x31 # x32 # xs) = xs"
  "take 12 (x1 # x2 # x3 # x4 # x5 # x6 # x7 # x8 # x9 # x10 # x11 # x12 # xs) = [x1, x2, x3, x4, x5, x6, x7, x8, x9, x10,
     x11, x12]"
  "take 16 (x1 # x2 # x3 # x4 # x5 # x6 # x7 # x8 # x9 # x10 # x11 # x12 # x13 # x14 # x15 # x16 # xs) = [x1, x2, x3, x4, x5,
     x6, x7, x8, x9, x10, x11, x12, x13, x14, x15, x16]"
  "(x1 # x2 # x3 # x4 # x5 # x6 # x7 # x # xs) ! 7 = x"
  "(x1 # x2 # x3 # x4 # x5 # x6 # x7 # x8 # x9 # x10 # x11 # x12 # x13 # x # xs) ! 13 = x"
  "(x1 # x2 # x3 # x4 # x5 # x6 # x7 # x8 # x9 # x10 # x11 # x12 # x13 # x14 # x15 # x16 # x # xs) ! 16 = x"
  "(x # xs) ! 0 = x"
  by (simp_all add: numeral_eq_Suc)

lemma bouts_eval: "bouts 0 x = []" "bouts (numeral v) x = bout (badv x) # bouts (pred_numeral v) (badv x)"
  by (simp_all add: numeral_eq_Suc)

lemma brows_eval: "brows 0 os = []" "brows (numeral v) os = (take 16 os, os ! 16) # brows (pred_numeral v) (drop 17 os)"
  by (simp_all add: numeral_eq_Suc)

definition btargets1 :: "nat \<Rightarrow> (bool list list \<times> bool list) list \<Rightarrow> bool list \<Rightarrow> bool list list \<Rightarrow> bool list \<Rightarrow> bool list list" where
  "btargets1 n rows j st e = e # btargets n rows (addb j bone False) (bstep rows st (mulb bA e)) e"

definition bdraft1 :: "nat \<Rightarrow> nat \<Rightarrow> bool list \<Rightarrow> (bool list list \<times> bool list) list \<Rightarrow> bool list \<Rightarrow> bool list list \<Rightarrow> bool list \<Rightarrow> bool list list" where
  "bdraft1 n a d rows j st t = t # bdraft n a d rows (addb j bone False) (bstep rows st (mulb bA t)) t"

lemma btargets_eval:
  "btargets (Suc n) rows j st prev = btargets1 n rows j st (btoken st j prev)"
  "btargets1 0 rows j st e = [e]"
  "btargets1 (Suc n) rows j st e = e # btargets (Suc n) rows (addb j bone False) (bstep rows st (mulb bA e)) e"
  by (simp_all add: btargets1_def Let_def)

lemma bdraft_eval:
  "bdraft (Suc n) 0 d rows j st prev = bdraft1 n 0 d rows j st (addb (btoken st j prev) d False)"
  "bdraft (Suc n) (Suc a) d rows j st prev = bdraft1 n a d rows j st (btoken st j prev)"
  "bdraft1 0 a d rows j st t = [t]"
  "bdraft1 (Suc n) a d rows j st t = t # bdraft (Suc n) a d rows (addb j bone False) (bstep rows st (mulb bA t)) t"
  by (simp_all add: bdraft1_def Let_def)

lemma agreements_eval:
  "agreements [] ys = 0" "agreements (x # xs) (y # ys) = (if x = y then Suc (agreements xs ys) else agreements xs ys)"
  by simp_all

text \<open>How many tokens of a draft agree with the target sequence.\<close>

definition bcount :: "nat \<Rightarrow> nat \<Rightarrow> bool list \<Rightarrow> (bool list list \<times> bool list) list \<Rightarrow> bool list list \<Rightarrow> nat" where
  "bcount n a d rows st = agreements (btargets n rows bone st bzero) (bdraft n a d rows bone st bzero)"

lemma target_tokens_vocab: "t \<in> set (target_tokens n tgt i st prev) \<Longrightarrow> t < 4096"
  by (induction n arbitrary: i st prev) (auto simp: Let_def model_token_bound)

lemma bcount_draft:
  assumes "n < 2 ^ 32"
  shows "agreements (target_sequence seed n) (propose_loop n make_target_model al br 0 (seed_state seed) 0) =
    bcount n (unat al) (lo 12 (1 + br)) target_rows (bouts 16 (lo 64 seed))"
proof -
  let ?es = "target_tokens n make_target_model 0 (seed_state seed) 0" and ?ts = "propose_loop n make_target_model al br 0 (seed_state seed) 0"
  have st: "map (lo 12) (seed_state seed) = bouts 16 (lo 64 seed)" by (simp add: bouts_draws seed_state_def kStateWords_def)
  have "agreements ?es ?ts = agreements (map (lo 12) ?es) (map (lo 12) ?ts)"
    using propose_loop_vocab target_tokens_vocab by (intro agreements_lo [symmetric]) (auto simp: list_all_iff)
  then show ?thesis
    using btargets_target [of "seed_state seed" n 0 0] bdraft_draft [of "seed_state seed" 0 n al br 0] assms
    by (simp add: bcount_def target_sequence_def st lo_small)
qed

text \<open>The seed of a first draft of a request, from its number and the depth.\<close>

definition bseed :: "bool list \<Rightarrow> bool list \<Rightarrow> bool list" where
  "bseed r d = bsh 32 (mulb bC2 (bsh 29 (mulb bC1 (bsh 30 (xorb (addb (bsh 27 (mulb bC2 (bsh 31 (mulb bC1 (bsh 27
     (mulb bG (mulb bG (mulb bG r))))))))
     bG False) (mulb bF d))))))"

lemma lo_mult_short:
  fixes a b :: "'a::len word" assumes "uint b < 2 ^ m" shows "lo LENGTH('a) (a * b) = mulb (lo LENGTH('a) a) (lo m b)"
proof -
  have b: "take_bit m (uint b) = uint b" using assms by (simp add: take_bit_int_eq_self)
  have "take_bit LENGTH('a) (take_bit LENGTH('a) (uint a) * uint b) = take_bit LENGTH('a) (uint a * uint b)"
    using take_bit_mult [of "LENGTH('a)" "take_bit LENGTH('a) (uint a)" "uint b"] take_bit_mult [of "LENGTH('a)" "uint a" "uint b"] by simp
  then have "mulb (lo LENGTH('a) a) (lo m b) = ilo LENGTH('a) (uint a * uint b)"
    using bval_eqI [of "mulb (lo LENGTH('a) a) (lo m b)" "uint a * uint b"] by (simp add: bval_mulb lo_def b)
  also have "\<dots> = lo LENGTH('a) (a * b)"
    unfolding lo_def by (intro ilo_cong) (simp add: uint_word_ariths take_bit_eq_mod [symmetric])
  finally show ?thesis ..
qed

lemma bseed_mix:
  fixes r d :: u64 assumes "uint r < 64" and "uint d < 64"
  shows "lo 64 (mix64 (r * 0x9E3779B97F4A7C15 * 0x9E3779B97F4A7C15) 0 1 (d * 0x100000001B3)) = bseed (lo 6 r) (lo 6 d)"
proof -
  have k: "lo 64 (a * 0x9E3779B97F4A7C15) = mulb bG (lo 64 a)" "lo 64 (a * 0xBF58476D1CE4E5B9) = mulb bC1 (lo 64 a)"
    "lo 64 (a * 0x94D049BB133111EB) = mulb bC2 (lo 64 a)" "lo 64 (a + 0x9E3779B97F4A7C15) = addb (lo 64 a) bG False" for a :: u64
    using lo_mult [of 64 "0x9E3779B97F4A7C15" a] lo_mult [of 64 "0xBF58476D1CE4E5B9" a] lo_mult [of 64 "0x94D049BB133111EB" a]
      lo_add [of 64 a "0x9E3779B97F4A7C15"] by (simp_all add: lo_constants mult.commute)
  have s: "lo 64 (r * 0x9E3779B97F4A7C15) = mulb bG (lo 6 r)" "lo 64 (d * 0x100000001B3) = mulb bF (lo 6 d)"
    using lo_mult_short [of r 6 "0x9E3779B97F4A7C15"] lo_mult_short [of d 6 "0x100000001B3"] assms
    by (simp_all add: lo_constants mult.commute)
  have x: "lo 64 (a XOR d * 0x100000001B3) = xorb (lo 64 a) (mulb bF (lo 6 d))" for a by (simp only: lo_xor s)
  have short: "mulb bG (lo 64 r) = mulb bG (lo 6 r)" using k(1) [of r] s(1) by simp
  show ?thesis by (simp only: mix64_def Let_def bseed_def xor.right_neutral mult_1 lo_bsh k x short)
qed

lemmas bit_rules = addb_eval mulb_eval xorb_eval cuts bsh_def bfin_def bout_def badv_def bouts_eval brows_eval bword.simps bstep.simps
  btoken_def btargets_eval bdraft_eval bcount_def bseed_def agreements_eval pred_numeral_simps BitM.simps
  bG_def bC1_def bC2_def bC2s_def bF_def bS_def bA_def bM_def bone_def bzero_def

end
