(* ===== verification/SF_Counts.thy ===== *)
theory SF_Counts
  imports SF_Bits
begin

text \<open>
  The synthetic model evaluated. The scenario driver and the example programs run drafts that leave the
  target sequence; how many of their tokens still agree with it depends on the model's weights. All
  these drafts are evaluated here in one computation, so that the weights are computed once.
\<close>

section \<open>Agreements in bits\<close>

lemma agreement_bits:
  assumes "lo 64 seed = bseed r d"
  shows "branch_agreement seed depth aligned b =
    bcount (unat depth) (unat aligned) (lo 12 (1 + b)) target_rows (bouts 16 (bseed r d))"
proof -
  have "unat depth < 2 ^ 32" using unsigned_less [of depth] by simp
  from bcount_draft [OF this] show ?thesis by (simp only: branch_agreement_def cpu_draft_def assms)
qed

text \<open>Bits of the identifiers (43, 44 and 45 of the driver; 3, 4, 10 and 13 of the examples) and depths.\<close>

definition b3 :: "bool list" where "b3 = [True, True, False, False, False, False]"
definition b4 :: "bool list" where "b4 = [False, False, True, False, False, False]"
definition b5 :: "bool list" where "b5 = [True, False, True, False, False, False]"
definition b6 :: "bool list" where "b6 = [False, True, True, False, False, False]"
definition b10 :: "bool list" where "b10 = [False, True, False, True, False, False]"
definition b13 :: "bool list" where "b13 = [True, False, True, True, False, False]"
definition b43 :: "bool list" where "b43 = [True, True, False, True, False, True]"
definition b44 :: "bool list" where "b44 = [False, False, True, True, False, True]"
definition b45 :: "bool list" where "b45 = [True, False, True, True, False, True]"

lemmas number_bits = b3_def b4_def b5_def b6_def b10_def b13_def b43_def b44_def b45_def

lemma lo_numbers:
  "lo 6 (3 :: u64) = b3" "lo 6 (4 :: u64) = b4" "lo 6 (5 :: u64) = b5" "lo 6 (6 :: u64) = b6" "lo 6 (10 :: u64) = b10"
  "lo 6 (13 :: u64) = b13" "lo 6 (43 :: u64) = b43" "lo 6 (44 :: u64) = b44" "lo 6 (45 :: u64) = b45"
  by (simp_all add: number_bits lo_def ilo_def upt_conv_Cons)

definition btwo :: "bool list" where
  "btwo = [False, True, False, False, False, False, False, False, False, False, False, False]"

section \<open>The evaluation\<close>

definition five :: nat where "five = Suc (Suc (Suc (Suc (Suc 0))))"
definition six :: nat where "six = Suc (Suc (Suc (Suc (Suc (Suc 0)))))"

definition draft_counts :: "(bool list list \<times> bool list) list \<Rightarrow> nat list" where
  "draft_counts rows =
     [bcount six (Suc (Suc (Suc 0))) bone rows (bouts 16 (bseed b43 b6)),
      bcount five 0 bone rows (bouts 16 (bseed b44 b5)),
      bcount five (Suc (Suc 0)) bone rows (bouts 16 (bseed b45 b5)),
      bcount five (Suc (Suc 0)) btwo rows (bouts 16 (bseed b45 b5)),
      bcount five (Suc (Suc 0)) bone rows (bouts 16 (bseed b3 b5)),
      bcount five (Suc (Suc 0)) btwo rows (bouts 16 (bseed b3 b5)),
      bcount six (Suc (Suc (Suc 0))) bone rows (bouts 16 (bseed b4 b6)),
      bcount five 0 bone rows (bouts 16 (bseed b10 b5)),
      bcount six (Suc (Suc (Suc 0))) bone rows (bouts 16 (bseed b13 b6))]"

lemma counts_evaluated: "draft_counts target_rows =
    [Suc (Suc (Suc 0)), 0, Suc (Suc 0), Suc (Suc 0), Suc (Suc 0), Suc (Suc 0), Suc (Suc (Suc 0)), 0, Suc (Suc (Suc 0))]"
  unfolding target_rows_eq
  by (simp only: draft_counts_def number_bits btwo_def five_def six_def bit_rules list.inject simp_thms if_True if_False)

lemma bcounts:
  "bcount six 3 bone target_rows (bouts 16 (bseed b43 b6)) = 3" "bcount five 0 bone target_rows (bouts 16 (bseed b44 b5)) = 0"
  "bcount five 2 bone target_rows (bouts 16 (bseed b45 b5)) = 2" "bcount five 2 btwo target_rows (bouts 16 (bseed b45 b5)) = 2"
  "bcount five 2 bone target_rows (bouts 16 (bseed b3 b5)) = 2" "bcount five 2 btwo target_rows (bouts 16 (bseed b3 b5)) = 2"
  "bcount six 3 bone target_rows (bouts 16 (bseed b4 b6)) = 3" "bcount five 0 bone target_rows (bouts 16 (bseed b10 b5)) = 0"
  "bcount six 3 bone target_rows (bouts 16 (bseed b13 b6)) = 3"
  using counts_evaluated by (simp_all add: draft_counts_def numeral_2_eq_2 numeral_3_eq_3)

lemma unat_bits: "unat (5 :: u32) = five" "unat (6 :: u32) = six" "unat (3 :: u32) = 3" "unat (2 :: u32) = 2" "unat (0 :: u32) = 0"
  "(1 + 0 :: u32) = 1" "(1 + 1 :: u32) = 2" "lo 12 (1 :: u32) = bone" "lo 12 (2 :: u32) = btwo"
  by (simp_all add: five_def six_def lo_small btwo_def)

section \<open>The drafts\<close>

text \<open>The agreements of the drafts, for any seed with the bits of that identifier and depth.\<close>

lemma agreements_evaluated:
  "lo 64 s = bseed b43 b6 \<Longrightarrow> branch_agreement s 6 3 0 = 3" "lo 64 s = bseed b44 b5 \<Longrightarrow> branch_agreement s 5 0 0 = 0"
  "lo 64 s = bseed b45 b5 \<Longrightarrow> branch_agreement s 5 2 0 = 2" "lo 64 s = bseed b45 b5 \<Longrightarrow> branch_agreement s 5 2 1 = 2"
  "lo 64 s = bseed b3 b5 \<Longrightarrow> branch_agreement s 5 2 0 = 2" "lo 64 s = bseed b3 b5 \<Longrightarrow> branch_agreement s 5 2 1 = 2"
  "lo 64 s = bseed b4 b6 \<Longrightarrow> branch_agreement s 6 3 0 = 3" "lo 64 s = bseed b10 b5 \<Longrightarrow> branch_agreement s 5 0 0 = 0"
  "lo 64 s = bseed b13 b6 \<Longrightarrow> branch_agreement s 6 3 0 = 3"
  by (simp_all only: agreement_bits unat_bits bcounts)

lemma best_of_one: "best_agreement seed depth 1 aligned = branch_agreement seed depth aligned 0"
proof -
  have "{..<unat (1 :: u32)} = {0}" by auto
  then show ?thesis by (simp add: best_agreement_def)
qed

lemma best_of_two: "best_agreement seed depth 2 aligned = max (branch_agreement seed depth aligned 0) (branch_agreement seed depth aligned 1)"
proof -
  have "{..<unat (2 :: u32)} = {0, 1}" by auto
  then show ?thesis by (simp add: best_agreement_def)
qed

end
