(* ===== verification/SF_Scenario.thy ===== *)
theory SF_Scenario
  imports SF_Driver SF_Counts
begin

text \<open>
  The outcome of the driver's scenario. With the synthetic model evaluated on the three submissions whose
  drafts leave the target, the exit code of the whole distributed run is known.
\<close>

section \<open>The three submissions\<close>

lemma fresh_seed_bits:
  assumes "uint reqid < 64" and "uint (ucast depth :: u64) < 64"
  shows "lo 64 (fresh_seed reqid depth) = bseed (lo 6 reqid) (lo 6 (ucast depth :: u64))"
  using bseed_mix [OF assms] by (simp add: fresh_seed_def coord_seed_def proposal_seed_def submitted_creq_def)

lemma commits_evaluated: "commit_B = 3" "commit_C = 0" "commit_D = 2"
proof -
  have bits: "lo 64 (fresh_seed 43 6) = bseed b43 b6" "lo 64 (fresh_seed 44 5) = bseed b44 b5" "lo 64 (fresh_seed 45 5) = bseed b45 b5"
    by (simp_all add: fresh_seed_bits lo_numbers)
  show "commit_B = 3" "commit_C = 0" "commit_D = 2"
    unfolding commit_B_def commit_C_def commit_D_def best_of_one best_of_two
    using agreements_evaluated(1) [OF bits(1)] agreements_evaluated(2) [OF bits(2)] agreements_evaluated(3,4) [OF bits(3)] by simp_all
qed

section \<open>The run\<close>

lemma closing_all_ok:
  "closing_lines c 0 = ''coordinator status: '' @ c_str (status_text c) @ newline @ ''driver: ALL_OK (0 failures)'' @ newline"
proof -
  have "decimal 0 = ''0''" by (simp add: decimal.simps char_of_def bit_Suc_0_iff)
  then show ?thesis by (simp add: closing_lines_def int_string_def)
qed

text \<open>
  C14 (driver_passes): the scenario driver, the coordinator and the CPU workers, run together from the first
  connection over the worker restart to the shutdown: neither the driver nor the coordinator meets undefined
  behaviour, the run ends, every expectation of the driver is met, it exits with 0, and the coordinator has
  stopped on the shutdown message with the five submissions in its table, with 5, 3, 0, 2 and 5 tokens
  committed, in epoch 2 and with the restarted proposer. The output ends with the status of that state, as the
  coordinator reported it, and the line of success. All of this holds whatever a worker with undefined
  behaviour would send, so none of it rests on one. Required are valid descriptors, a new boot identifier of
  the restarted worker and a restart within the 300 pauses that the driver grants.
\<close>

theorem driver_passes:
  assumes "0 \<le> dp_proposer_fd dp" and "0 \<le> dp_verifier_fd dp" and "0 \<le> dp_driver_fd dp" and "0 \<le> dp_restart_fd dp"
    and "dp_restart_boot dp \<noteq> dp_proposer_boot dp" and "dp_delay dp \<le> 300"
    and "n < 2 ^ 16" and "connect_port (os host (of_nat n)) [] = (fd, errtext)" and "0 \<le> fd"
  shows "\<exists>d' c. driver_main os (deployment dp) [prog, host, decimal n, tmp] (new_driver (start_world dp)) = Some (0, d') \<and>
    dr_failures d' = 0 \<and> dr_world d' = Stopped c \<and>
    (\<exists>before. dr_out d' = before @ ''coordinator status: '' @ c_str (status_text c) @ newline @ ''driver: ALL_OK (0 failures)'' @ newline) \<and>
    tallies c = [(42, 5), (43, 3), (44, 0), (45, 2), (46, 5)] \<and> cd_epoch c = StrongId 2 \<and>
    cd_proposer_boot c = dp_restart_boot dp \<and> cd_prev_proposer_boot c = dp_proposer_boot dp"
proof -
  obtain code d' c where
    r: "driver_main os (deployment dp) [prog, host, decimal n, tmp] (new_driver (start_world dp)) = Some (code, d')"
      "code = 0 \<longleftrightarrow> commit_B = 3 \<and> commit_C = 0 \<and> commit_D = 2"
      "dr_failures d' = (if commit_B = 3 then 0 else 1) + (if commit_C = 0 then 0 else 1) + (if commit_D = 2 then 0 else 1)"
      "\<exists>before. dr_out d' = before @ closing_lines c (dr_failures d')" "dr_world d' = Stopped c" "run_ends dp c"
    using scenario_run [where os = os and host = host and n = n and prog = prog and tmp = tmp, OF assms] by blast
  have z: "code = 0" "dr_failures d' = 0" using r(2,3) by (simp_all add: commits_evaluated)
  note ends = r(1,4-6) [unfolded z run_ends_def commits_evaluated closing_all_ok]
  show ?thesis using ends z(2) by blast
qed

definition sample_deployment :: Deployment where
  "sample_deployment = \<lparr>dp_proposer_fd = 3, dp_verifier_fd = 4, dp_driver_fd = 5, dp_restart_fd = 6, dp_proposer_boot = 71,
     dp_verifier_boot = 72, dp_restart_boot = 73, dp_delay = 12, dp_lost = silent\<rparr>"

definition sample_calls :: SocketCalls where
  "sample_calls = \<lparr>os_socket = Some 7, os_bind = True, os_listen = True, os_inet_pton = True, os_connect = True, os_last_error = 0\<rparr>"

theorem driver_passes_witness:
  "\<exists>d' c. driver_main (\<lambda>_ _. sample_calls) (deployment sample_deployment) [''sf_driver'', ''127.0.0.1'', decimal 7070, ''tmp'']
     (new_driver (start_world sample_deployment)) = Some (0, d') \<and> dr_world d' = Stopped c \<and> cd_proposer_boot c = 73"
proof -
  have "connect_port sample_calls [] = (7, [])" by (simp add: connect_port_def sample_calls_def)
  with driver_passes [of sample_deployment 7070 "\<lambda>_ _. sample_calls" "''127.0.0.1''" 7 "[]" "''sf_driver''" "''tmp''"]
  show ?thesis by (auto simp: sample_deployment_def)
qed

end
