(* ===== verification/SF_Examples.thy ===== *)
theory SF_Examples
  imports SF_Cli SF_Counts SF_Device SF_Progress
begin

text \<open>
  The example programs (\<^verbatim>\<open>examples/\<close>): the helpers of \<^verbatim>\<open>examples_support.hpp\<close> and one function per
  program, from the steady clock's readings to the exit code and the text written to standard output.
  Each program is a small client of the runtime; the facts below run all of them.
\<close>

section \<open>Shared helpers\<close>

definition ex_model :: "TokenizerId \<Rightarrow> ModelIdentity" where
  "ex_model tok = default_ModelIdentity\<lparr>mi_model := StrongId 101, mi_revision := StrongId 1,
     mi_tokenizer := default_TokenizerIdentity\<lparr>tok_id := tok, tok_name := ''ex-tok'', tok_vocab_size := 4096\<rparr>,
     mi_executor := default_ExecutorIdentity\<lparr>exe_kind := EK_CPU, exe_protocol_version := 1\<rparr>,
     mi_name := ''ex-model''\<rparr>"

definition ex_engine :: "clock \<Rightarrow> u32 \<Rightarrow> u32 \<Rightarrow> u32 \<Rightarrow> Fabric" where
  "ex_engine clk depth brs aligned =
     (let pc = default_CpuProposerConfig\<lparr>ppc_aligned_tokens := aligned\<rparr>
      in new_fabric \<lparr>cfg_proposer = Some (cpu_propose pc), cfg_verifier = Some cpu_verify, cfg_clock = clk,
           cfg_policy = default_ProposalPolicy\<lparr>pol_max_depth := depth, pol_max_branches := brs,
             pol_adaptive_depth_enabled := False\<rparr>, cfg_epoch = null_id\<rparr>)"

definition ex_request :: "u64 \<Rightarrow> u32 \<Rightarrow> u32 \<Rightarrow> SpeculationRequest" where
  "ex_request i depth brs = default_SpeculationRequest\<lparr>rq_id := StrongId i, rq_sequence := StrongId (i + 1),
     rq_tenant := StrongId 1, rq_draft_model := ex_model (StrongId 9), rq_target_model := ex_model (StrongId 9),
     rq_pair_key := \<lparr>key_proposer = ex_model (StrongId 9), key_verifier = ex_model (StrongId 9), key_protocol_version = 1\<rparr>,
     rq_policy := default_ProposalPolicy\<lparr>pol_max_depth := depth, pol_max_branches := brs,
       pol_adaptive_depth_enabled := False\<rparr>\<rparr>"

section \<open>The programs\<close>

definition example1 :: "clock \<Rightarrow> command_result" where
  "example1 clk =
     (let r = ex_request 1 5 1; (s, f) = submit r (ex_engine clk 5 1 5) in do {
        (c, f1) \<leftarrow> run_cycle (rq_id r) f;
        out \<leftarrow> result_value c;
        len \<leftarrow> result_value (authoritative_length (rq_id r) f1);
        Some (if co_accepted_tokens out = 5 then 0 else 1,
              ''example1: outcome='' @ decimal (outcome_number (co_outcome out)) @ '' accepted='' @
              word_string (co_accepted_tokens out) @ '' committed='' @ word_string len @ newline)
      })"

definition example2 :: "clock \<Rightarrow> command_result" where
  "example2 clk =
     (let r = ex_request 2 5 2; (s, f) = submit r (ex_engine clk 5 2 2) in do {
        (c, f1) \<leftarrow> run_cycle (rq_id r) f;
        out \<leftarrow> result_value c;
        brs \<leftarrow> result_value (branches (rq_id r) f1);
        Some (if 2 \<le> length brs \<and> co_accepted_tokens out = 2 then 0 else 1,
              ''example2: outcome='' @ decimal (outcome_number (co_outcome out)) @ '' accepted='' @
              word_string (co_accepted_tokens out) @ '' branches='' @ decimal (length brs) @ newline)
      })"

definition example3 :: "clock \<Rightarrow> command_result" where
  "example3 clk =
     (let r = ex_request 3 6 1; (s, f) = submit r (ex_engine clk 6 1 3) in do {
        (c, f1) \<leftarrow> run_cycle (rq_id r) f;
        out \<leftarrow> result_value c;
        len \<leftarrow> result_value (authoritative_length (rq_id r) f1);
        Some (if co_accepted_tokens out = 3 \<and> co_rejected_tokens out = 3 then 0 else 1,
              ''example3: accepted='' @ word_string (co_accepted_tokens out) @ '' rejected='' @
              word_string (co_rejected_tokens out) @ '' committed='' @ word_string len @ '' rolled_back='' @
              print_bool (rbk_success (co_rollback out)) @ newline)
      })"

definition example4 :: "clock \<Rightarrow> command_result" where
  "example4 clk =
     (let r = ex_request 4 5 1; (s, f) = submit r (ex_engine clk 5 1 5);
          (x, f1) = cancel (rq_id r) ''operator cancel'' f in do {
        (c, f2) \<leftarrow> run_cycle (rq_id r) f1;
        out \<leftarrow> result_value c;
        len \<leftarrow> result_value (authoritative_length (rq_id r) f2);
        Some (if co_outcome out = CK_Cancelled then 0 else 1,
              ''example4: outcome='' @ decimal (outcome_number (co_outcome out)) @ '' committed='' @ word_string len @ newline)
      })"

definition example5 :: "clock \<Rightarrow> command_result" where
  "example5 clk =
     (let r = (ex_request 5 5 1)\<lparr>rq_target_model := ex_model (StrongId 10)\<rparr>; (s, f) = submit r (ex_engine clk 5 1 5) in do {
        (c, f1) \<leftarrow> run_cycle (rq_id r) f;
        out \<leftarrow> result_value c;
        len \<leftarrow> result_value (authoritative_length (rq_id r) f1);
        Some (if co_outcome out = CK_ProposalNonRetryableFailure then 0 else 1,
              ''example5: outcome='' @ decimal (outcome_number (co_outcome out)) @ '' committed='' @ word_string len @ newline)
      })"

definition example6 :: "clock \<Rightarrow> command_result" where
  "example6 clk =
     (let r = ex_request 6 5 1; (s, f) = submit r (ex_engine clk 5 1 5) in do {
        (c, f1) \<leftarrow> run_cycle (rq_id r) f;
        len \<leftarrow> result_value (authoritative_length (rq_id r) f1);
        let pr = \<lparr>pq_id = rq_id r, pq_sequence = rq_sequence r, pq_attempt = StrongId 1, pq_epoch = StrongId 1,
                  pq_auth_gen = StrongId 5, pq_auth_state = \<lparr>sr_id = StrongId 100, sr_generation = StrongId 5\<rparr>,
                  pq_committed = replicate (unat len) 0\<rparr>;
        let a = \<lparr>ar_format_version = 1, ar_epoch = StrongId 1, ar_requests = [pr]\<rparr>;
        blob \<leftarrow> result_value (serialize_archive a);
        let b = deserialize_archive blob;
        a' \<leftarrow> result_value b;
        q \<leftarrow> vec_at (ar_requests a') 0;
        Some (if has_value b \<and> length (pq_committed q) = 5 then 0 else 1,
              ''example6: roundtrip='' @ print_bool (has_value b) @ '' tokens='' @ decimal (length (pq_committed q)) @ newline)
      })"

definition example7 :: "clock \<Rightarrow> command_result" where
  "example7 clk =
     (let pc = default_CpuProposerConfig\<lparr>ppc_aligned_tokens := 5\<rparr>;
          f0 = new_fabric \<lparr>cfg_proposer = Some (cpu_propose pc), cfg_verifier = Some cpu_verify, cfg_clock = clk,
                 cfg_policy = default_ProposalPolicy\<lparr>pol_max_depth := 8, pol_max_branches := 1,
                   pol_adaptive_depth_enabled := True, pol_adaptive_window := 8\<rparr>, cfg_epoch = null_id\<rparr>;
          r = ex_request 7 5 1; (s, f) = submit r f0 in do {
        f1 \<leftarrow> run_cycles 5 (rq_id r) f;
        let st = stats f1;
        Some (if 0 < st_acceptance_ratio st then 0 else 1,
              ''example7: cycles='' @ word_string (st_speculative_cycles_started st) @ '' tokens_proposed='' @
              word_string (st_tokens_proposed st) @ '' tokens_accepted='' @ word_string (st_tokens_accepted st) @
              '' ratio='' @ print_fixed3 (st_acceptance_ratio st) @ newline)
      })"

definition example8 :: "clock \<Rightarrow> command_result" where
  "example8 clk =
     (let r0 = ex_request 8 5 1;
          r = r0\<lparr>rq_tenant := StrongId 42,
                rq_policy := (rq_policy r0)\<lparr>pol_tenant_max_concurrent_branches := 1, pol_max_branches := 2\<rparr>\<rparr>;
          (s, f) = submit r (ex_engine clk 5 1 5) in do {
        (c, f1) \<leftarrow> run_cycle (rq_id r) f;
        out \<leftarrow> result_value c;
        Some (if co_accepted_tokens out = 5 then 0 else 1,
              ''example8: outcome='' @ decimal (outcome_number (co_outcome out)) @ '' accepted='' @
              word_string (co_accepted_tokens out) @ '' tenant='' @ word_string (id_get (rq_tenant r)) @ newline)
      })"

definition example9 :: "clock \<Rightarrow> command_result" where
  "example9 clk =
     (let r = (ex_request 9 5 1)\<lparr>rq_max_attempts := 2\<rparr>; (s, f) = submit r (ex_engine clk 5 1 0) in do {
        (c, f1) \<leftarrow> run_cycle (rq_id r) f;
        out \<leftarrow> result_value c;
        let (tr, f2) = retry (rq_id r) f1;
        let n = (case tr of Ok a \<Rightarrow> id_get a | Err _ \<Rightarrow> 0);
        Some (if has_value tr \<and> n = 2 then 0 else 1,
              ''example9: first='' @ decimal (outcome_number (co_outcome out)) @ '' retry_attempt='' @ word_string n @ newline)
      })"

definition example10 :: "clock \<Rightarrow> command_result" where
  "example10 clk =
     (let r = ex_request 10 5 1; (s, f) = submit r (ex_engine clk 5 1 5) in do {
        (c, f1) \<leftarrow> run_cycle (rq_id r) f;
        let (snap, f2) = snapshot f1;
        let ev = events (rq_id r) f2;
        let ex = explain (rq_id r) ''why did this commit?'' f2;
        Some (if 0 < length ev \<and> 1 \<le> snap_active_requests snap then 0 else 1,
              ''example10: active_requests='' @ decimal (snap_active_requests snap) @ '' events='' @ decimal (length ev) @ newline @
              ''expl='' @ c_str (ex_answer_text ex) @ newline)
      })"

text \<open>\<open>cu\<close> and \<open>cv\<close> are what the two executors meet on the device, per call.\<close>

definition example11 :: "(ProposalInput \<Rightarrow> CudaRuntime) \<Rightarrow> (VerificationInput \<Rightarrow> CudaRuntime) \<Rightarrow> clock \<Rightarrow> command_result" where
  "example11 cu cv clk =
     (let f0 = new_fabric \<lparr>cfg_proposer = Some (cuda_proposer_on cu 5 0), cfg_verifier = Some (cuda_verifier_on cv), cfg_clock = clk,
                 cfg_policy = default_ProposalPolicy\<lparr>pol_max_depth := 5, pol_max_branches := 1,
                   pol_adaptive_depth_enabled := False\<rparr>, cfg_epoch = null_id\<rparr>;
          r = ex_request 11 5 1; (s, f) = submit r f0 in do {
        (c, f1) \<leftarrow> run_cycle (rq_id r) f;
        out \<leftarrow> result_value c;
        len \<leftarrow> result_value (authoritative_length (rq_id r) f1);
        Some (if co_accepted_tokens out = 5 then 0 else 1,
              ''example11: outcome='' @ decimal (outcome_number (co_outcome out)) @ '' accepted='' @
              word_string (co_accepted_tokens out) @ '' committed='' @ word_string len @ newline)
      })"

definition example12 :: "clock \<Rightarrow> command_result" where
  "example12 clk =
     (let r = ex_request 12 6 1; (s, f) = submit r (ex_engine clk 6 1 3) in do {
        (c, f1) \<leftarrow> run_cycle (rq_id r) f;
        let (rb, f2) = rollback (rq_id r) ''operator rollback'' f1;
        len \<leftarrow> result_value (authoritative_length (rq_id r) f2);
        let ok = (case rb of Ok x \<Rightarrow> rbk_success x | Err _ \<Rightarrow> False);
        let released = (case rb of Ok x \<Rightarrow> rbk_released_reservations x | Err _ \<Rightarrow> 0);
        Some (if ok then 0 else 1,
              ''example12: committed='' @ word_string len @ '' rollback_ok='' @ print_bool ok @ '' released='' @
              word_string released @ newline)
      })"

section \<open>Requests and engines of the examples\<close>

lemma ex_engine_ok: "cpu_engine depth brs aligned (ex_engine clk depth brs aligned)" "lookup (ex_engine clk depth brs aligned) r = None"
  unfolding ex_engine_def Let_def cli_policy_def [symmetric] by (rule engine_ok_new, rule new_engine_empty)

lemma ex_models:
  "plain_request (ex_request i depth brs)" "rq_id (ex_request i depth brs) = StrongId i" "rq_prefix (ex_request i depth brs) = []"
  "rq_sequence (ex_request i depth brs) = StrongId (i + 1)"
  "rq_draft_model (ex_request i depth brs) = ex_model (StrongId 9)" "rq_target_model (ex_request i depth brs) = ex_model (StrongId 9)"
  by (simp_all add: ex_request_def default_SpeculationRequest_def plain_request_def pair_agrees_def ex_model_def
      default_ModelIdentity_def default_TokenizerIdentity_def default_ExecutorIdentity_def same_executor_kind_def null_id_def)

lemma ex_seed_bits:
  assumes "rq_draft_model req = ex_model (StrongId 9)" and "rq_sequence req = StrongId r" and "uint r < 64" and "uint (ucast depth :: u64) < 64"
  shows "lo 64 (submitted_seed req depth) = bseed (lo 6 r) (lo 6 (ucast depth :: u64))"
  using bseed_mix [OF assms(3,4)] assms(1,2)
  by (simp add: submitted_seed_def proposal_seed_def ex_model_def)

text \<open>The first cycle of an example's request on the example's engine.\<close>

lemma ex_run:
  assumes "plain_request req" and "rq_id req = StrongId i" and "rq_prefix req = []" and "0 < unat depth" and "unat depth \<le> 256"
    and "k = best_agreement (submitted_seed req depth) depth (max 1 brs) aligned"
  obtains f out f1 rs rs' xs where "submit req (ex_engine clk depth brs aligned) = (Ok (), f)" "run_cycle (StrongId i) f = Some (Ok out, f1)"
    "lookup f1 (StrongId i) = Some rs'" "registered req rs" "cycled rs xs rs'" "length (rs_branches rs') = unat (max 1 brs)"
    "reports depth k out" "authoritative_length (StrongId i) f1 = Ok (of_nat k)" "fabric_wf f1"
proof (rule first_cycle [where req = req and brs = brs and aligned = aligned, unfolded assms(2,3), OF ex_engine_ok assms(1,4,5), folded assms(6)])
  fix rs f out f1 rs' and xs :: "u32 list"
  assume c: "submit req (ex_engine clk depth brs aligned) = (Ok (), f)" "registered req rs" "run_cycle (StrongId i) f = Some (Ok out, f1)"
    "cpu_engine depth brs aligned f1" "lookup f1 (StrongId i) = Some rs'" "cycled rs xs rs'" "length (rs_branches rs') = unat (max 1 brs)"
    "reports depth k out" "authoritative_length (StrongId i) f1 = Ok (of_nat (length ([] :: u32 list) + k))"
  show thesis using that [OF c(1,3,5,2,6-8)] c(4,9) by (simp add: engine_ok_def)
qed

lemma full_agreement: "best_agreement seed depth (max 1 brs) depth = unat depth"
proof -
  have "0 < unat (max 1 brs)" by (simp add: max_def word_le_nat_alt)
  then have "0 \<in> {..<unat (max 1 brs)}" by simp
  moreover have "branch_agreement seed depth depth b = unat depth" for b
    using branch_agreement_bounds [where aligned = depth and depth = depth and seed = seed and b = b] by simp
  ultimately show ?thesis unfolding best_agreement_def by (auto intro!: Max_eqI)
qed

lemma partial_agreements:
  "best_agreement (submitted_seed (ex_request 2 d b) 5) 5 (max 1 2) 2 = 2"
  "best_agreement (submitted_seed (ex_request 3 d b) 6) 6 (max 1 1) 3 = 3"
  "best_agreement (submitted_seed ((ex_request 9 d b)\<lparr>rq_max_attempts := n\<rparr>) 5) 5 (max 1 1) 0 = 0"
  "best_agreement (submitted_seed (ex_request 12 d b) 6) 6 (max 1 1) 3 = 3"
proof -
  have m: "max 1 (2 :: u32) = 2" "max 1 (1 :: u32) = 1" by (simp_all add: max_def)
  have bits: "lo 64 (submitted_seed (ex_request 2 d b) 5) = bseed b3 b5" "lo 64 (submitted_seed (ex_request 3 d b) 6) = bseed b4 b6"
    "lo 64 (submitted_seed ((ex_request 9 d b)\<lparr>rq_max_attempts := n\<rparr>) 5) = bseed b10 b5"
    "lo 64 (submitted_seed (ex_request 12 d b) 6) = bseed b13 b6"
    using ex_seed_bits [of "ex_request 2 d b" 3 5] ex_seed_bits [of "ex_request 3 d b" 4 6] ex_seed_bits [of "ex_request 12 d b" 13 6]
      ex_seed_bits [of "(ex_request 9 d b)\<lparr>rq_max_attempts := n\<rparr>" 10 5]
    by (simp_all add: ex_models lo_numbers)
  show "best_agreement (submitted_seed (ex_request 2 d b) 5) 5 (max 1 2) 2 = 2"
    "best_agreement (submitted_seed (ex_request 3 d b) 6) 6 (max 1 1) 3 = 3"
    "best_agreement (submitted_seed ((ex_request 9 d b)\<lparr>rq_max_attempts := n\<rparr>) 5) 5 (max 1 1) 0 = 0"
    "best_agreement (submitted_seed (ex_request 12 d b) 6) 6 (max 1 1) 3 = 3"
    unfolding m best_of_one best_of_two
    using agreements_evaluated(5,6) [OF bits(1)] agreements_evaluated(7) [OF bits(2)] agreements_evaluated(8) [OF bits(3)]
      agreements_evaluated(9) [OF bits(4)] by simp_all
qed

section \<open>The runs\<close>

lemma digits:
  "decimal 0 = ''0''" "decimal 1 = ''1''" "decimal (Suc 0) = ''1''" "decimal 2 = ''2''" "decimal 3 = ''3''" "decimal 4 = ''4''"
  "decimal 5 = ''5''" "decimal 8 = ''8''" "decimal 42 = ''42''"
  by (simp_all add: decimal.simps char_of_def bit_Suc_0_iff)

lemma ex_full:
  assumes "plain_request req" and "rq_id req = StrongId i" and "rq_prefix req = []"
  obtains f out f1 rs rs' xs where "submit req (ex_engine clk 5 1 5) = (Ok (), f)" "run_cycle (StrongId i) f = Some (Ok out, f1)"
    "lookup f1 (StrongId i) = Some rs'" "registered req rs" "cycled rs xs rs'" "length (rs_branches rs') = unat (max 1 (1 :: u32))"
    "reports 5 5 out" "authoritative_length (StrongId i) f1 = Ok (of_nat 5)" "fabric_wf f1"
proof (rule ex_run [OF assms])
  show "5 = best_agreement (submitted_seed req 5) 5 (max 1 1) 5" using full_agreement [of _ 5 1] by simp
qed simp_all

lemma example1_run: "example1 clk = Some (0, ''example1: outcome=3 accepted=5 committed=5'' @ newline)"
proof -
  obtain f out f1 where "submit (ex_request 1 5 1) (ex_engine clk 5 1 5) = (Ok (), f)" "run_cycle (StrongId 1) f = Some (Ok out, f1)"
    "reports 5 5 out" "authoritative_length (StrongId 1) f1 = Ok (of_nat 5)"
    by (rule ex_full [OF ex_models(1-3)]) blast
  then show ?thesis by (simp add: example1_def ex_models reports_def word_string_def digits)
qed

lemma example2_run: "example2 clk = Some (0, ''example2: outcome=4 accepted=2 branches=2'' @ newline)"
proof -
  obtain f out f1 rs' where "submit (ex_request 2 5 2) (ex_engine clk 5 2 2) = (Ok (), f)" "run_cycle (StrongId 2) f = Some (Ok out, f1)"
    "lookup f1 (StrongId 2) = Some rs'" "length (rs_branches rs') = unat (max 1 (2 :: u32))" "reports 5 2 out"
    by (rule ex_run [OF ex_models(1-3) _ _ partial_agreements(1) [symmetric]]) (simp, simp, blast)
  then show ?thesis by (simp add: example2_def ex_models reports_def word_string_def branches_def max_def digits)
qed

lemma example3_run: "example3 clk = Some (0, ''example3: accepted=3 rejected=3 committed=3 rolled_back=1'' @ newline)"
proof -
  obtain f out f1 where "submit (ex_request 3 6 1) (ex_engine clk 6 1 3) = (Ok (), f)" "run_cycle (StrongId 3) f = Some (Ok out, f1)"
    "reports 6 3 out" "authoritative_length (StrongId 3) f1 = Ok (of_nat 3)"
    by (rule ex_run [OF ex_models(1-3) _ _ partial_agreements(2) [symmetric]]) (simp, simp, blast)
  then show ?thesis by (simp add: example3_def ex_models reports_def word_string_def print_bool_def digits)
qed

lemma example4_run: "example4 clk = Some (0, ''example4: outcome=8 committed=0'' @ newline)"
proof -
  obtain rs f where "submit (ex_request 4 5 1) (ex_engine clk 5 1 5) = (Ok (), f)"
    "lookup f (StrongId 4) = Some rs" "registered (ex_request 4 5 1) rs"
    by (rule engine_submit [where req = "ex_request 4 5 1", unfolded ex_models(2), OF ex_engine_ok]) blast
  then show ?thesis
    by (simp add: example4_def ex_models cancel_def registered_def run_cycle_def cycle_prepare_def Let_def make_outcome_def
        authoritative_length_def word_string_def digits)
qed

lemma example5_run: "example5 clk = Some (0, ''example5: outcome=2 committed=0'' @ newline)"
proof -
  let ?r = "(ex_request 5 5 1)\<lparr>rq_target_model := ex_model (StrongId 10)\<rparr>"
  have r: "rq_id ?r = StrongId 5" "rq_prefix ?r = []" "rq_deadline_ns ?r = None" "rq_draft_model ?r = ex_model (StrongId 9)"
    "rq_target_model ?r = ex_model (StrongId 10)"
    using ex_models(1) [of 5 5 1] by (simp_all add: ex_models plain_request_def)
  have inc: "\<not> dec_compatible (evaluate_compatibility \<lparr>key_proposer = ex_model (StrongId 9), key_verifier = ex_model (StrongId 10), key_protocol_version = 1\<rparr>)"
    by (simp add: compatible_iff pair_agrees_def ex_model_def default_TokenizerIdentity_def)
  obtain rs f where s: "submit ?r (ex_engine clk 5 1 5) = (Ok (), f)" "lookup f (StrongId 5) = Some rs" "registered ?r rs"
    by (rule engine_submit [where req = ?r, unfolded r(1), OF ex_engine_ok]) blast
  have rs: "rs_req rs = ?r" "rs_committed rs = []" "\<not> rs_terminal rs" "\<not> rs_cancelled rs"
    "\<not> is_terminal_phase (ssm_phase (rs_cycle rs))"
    using s(3) r(2) by (simp_all add: registered_def machine_at_def is_terminal_phase_def)
  obtain out f1 where c: "cycle_admit (StrongId 5) rs f = Some (Inl (Ok out), f1)" "co_outcome out = CK_ProposalNonRetryableFailure"
    "\<exists>t d. f1 = push_event (StrongId 5) t d ''{}'' (set_request (StrongId 5) rs f)"
    using inc rs by (simp add: cycle_admit_def Let_def r make_outcome_def) blast
  then have "authoritative_length (StrongId 5) f1 = Ok 0" using rs(2) by (auto simp: authoritative_length_def)
  moreover have "run_cycle (StrongId 5) f = Some (Ok out, f1)"
    using s(2) rs c(1) r(3) by (simp add: run_cycle_def cycle_prepare_def)
  ultimately show ?thesis using s(1) c(2) by (simp add: example5_def r word_string_def digits)
qed

lemma example6_run: "example6 clk = Some (0, ''example6: roundtrip=1 tokens=5'' @ newline)"
proof -
  let ?a = "\<lparr>ar_format_version = 1, ar_epoch = StrongId 1, ar_requests = [\<lparr>pq_id = StrongId 6, pq_sequence = StrongId 7,
      pq_attempt = StrongId 1, pq_epoch = StrongId 1, pq_auth_gen = StrongId 5,
      pq_auth_state = \<lparr>sr_id = StrongId 100, sr_generation = StrongId 5\<rparr>, pq_committed = replicate 5 0\<rparr>]\<rparr>"
  obtain f out f1 where c: "submit (ex_request 6 5 1) (ex_engine clk 5 1 5) = (Ok (), f)" "run_cycle (StrongId 6) f = Some (Ok out, f1)"
    "authoritative_length (StrongId 6) f1 = Ok (of_nat 5)"
    by (rule ex_full [OF ex_models(1-3)]) blast
  have small: "archive_small ?a" by (simp add: archive_small_def request_small_def kMaxRequests_def kMaxTokensPerRequest_def)
  obtain blob where blob: "serialize_archive ?a = Ok blob" by (simp add: serialize_archive_def)
  have same: "deserialize_archive blob = Ok ?a" using serialize_deserialize [OF small blob] .
  have "(6 + 1 :: u64) = 7" "unat (of_nat 5 :: u64) = 5" by simp_all
  with c blob same show ?thesis by (simp add: example6_def ex_models vec_at_def print_bool_def digits del: of_nat_numeral)
qed

lemma example8_run: "example8 clk = Some (0, ''example8: outcome=3 accepted=5 tenant=42'' @ newline)"
proof -
  let ?r = "(ex_request 8 5 1)\<lparr>rq_tenant := StrongId 42,
     rq_policy := (rq_policy (ex_request 8 5 1))\<lparr>pol_tenant_max_concurrent_branches := 1, pol_max_branches := 2\<rparr>\<rparr>"
  have r: "plain_request ?r" "rq_id ?r = StrongId 8" "rq_prefix ?r = []"
    using ex_models(1) [of 8 5 1] by (simp_all add: ex_models plain_request_def)
  obtain f out f1 where "submit ?r (ex_engine clk 5 1 5) = (Ok (), f)" "run_cycle (StrongId 8) f = Some (Ok out, f1)" "reports 5 5 out"
    by (rule ex_full [OF r]) blast
  then show ?thesis by (simp add: example8_def ex_models Let_def reports_def word_string_def digits)
qed

lemma example9_run: "example9 clk = Some (0, ''example9: first=5 retry_attempt=2'' @ newline)"
proof -
  let ?r = "(ex_request 9 5 1)\<lparr>rq_max_attempts := 2\<rparr>"
  have r: "plain_request ?r" "rq_id ?r = StrongId 9" "rq_prefix ?r = []"
    using ex_models(1) [of 9 5 1] by (simp_all add: ex_models plain_request_def)
  obtain f out f1 rs rs' xs where c: "submit ?r (ex_engine clk 5 1 0) = (Ok (), f)" "run_cycle (StrongId 9) f = Some (Ok out, f1)"
    "lookup f1 (StrongId 9) = Some rs'" "registered ?r rs" "cycled rs xs rs'" "reports 5 0 out"
    by (rule ex_run [OF r _ _ partial_agreements(3) [symmetric]]) (simp, simp, blast)
  have "rs_req rs' = ?r" "rs_attempt rs' = StrongId 1" "rs_retry_count rs' = 0" "\<not> rs_terminal rs'" "\<not> rs_cancelled rs'"
    using c(4,5) by (simp_all add: registered_def cycled_def)
  then have "fst (retry (StrongId 9) f1) = Ok (StrongId 2)" using c(3) by (simp add: retry_def Let_def)
  with c(1,2,6) show ?thesis by (simp add: example9_def r case_prod_beta reports_def word_string_def digits)
qed

lemma example10_run: "\<exists>text. example10 clk = Some (0, text)"
proof -
  obtain f out f1 rs rs' xs where c: "submit (ex_request 10 5 1) (ex_engine clk 5 1 5) = (Ok (), f)" "run_cycle (StrongId 10) f = Some (Ok out, f1)"
    "lookup f1 (StrongId 10) = Some rs'" "cycled rs xs rs'"
    by (rule ex_full [OF ex_models(1-3)]) blast
  have "events (StrongId 10) (snd (snapshot f1)) = rs_events rs'" "rs_events rs' \<noteq> []"
    using c(3,4) by (simp_all add: events_def snapshot_def Let_def case_prod_beta cycled_def)
  moreover have "im_requests f1 \<noteq> []" using c(3) by auto
  then have "1 \<le> snap_active_requests (fst (snapshot f1))" by (simp add: snapshot_def Let_def case_prod_beta Suc_le_eq)
  ultimately show ?thesis using c(1,2) by (simp add: example10_def ex_models case_prod_beta Let_def digits)
qed

lemma example12_run: "example12 clk = Some (0, ''example12: committed=3 rollback_ok=1 released=0'' @ newline)"
proof -
  obtain f out f1 rs' where c: "submit (ex_request 12 6 1) (ex_engine clk 6 1 3) = (Ok (), f)" "run_cycle (StrongId 12) f = Some (Ok out, f1)"
    "lookup f1 (StrongId 12) = Some rs'" "authoritative_length (StrongId 12) f1 = Ok (of_nat 3)" "fabric_wf f1"
    by (rule ex_run [OF ex_models(1-3) _ _ partial_agreements(4) [symmetric]]) (simp, simp, blast)
  have "rs_reservations rs' = []" using wf_lookup [OF c(5,3)] by (simp add: request_wf_def)
  then obtain rb where rb: "fst (rollback (StrongId 12) ''operator rollback'' f1) = Ok rb" "rbk_success rb" "rbk_released_reservations rb = 0"
    using c(3) by (simp add: rollback_def Let_def active_count_def)
  have "authoritative_length (StrongId 12) (snd (rollback (StrongId 12) ''operator rollback'' f1)) = Ok (of_nat 3)"
    using c(3,4) by (simp add: rollback_def Let_def authoritative_length_def)
  with c(1,2) rb show ?thesis by (simp add: example12_def ex_models case_prod_beta word_string_def print_bool_def digits)
qed

lemma example11_run:
  assumes "\<And>p. device_works (cu p)" and "\<And>v. device_works (cv v)"
  shows "example11 cu cv clk = Some (0, ''example11: outcome=3 accepted=5 committed=5'' @ newline)"
proof -
  let ?p = "cuda_proposer_on cu 5 0" and ?v = "cuda_verifier_on cv" and ?r = "ex_request 11 5 1"
  let ?f0 = "new_fabric \<lparr>cfg_proposer = Some ?p, cfg_verifier = Some ?v, cfg_clock = clk, cfg_policy = cli_policy 5 1, cfg_epoch = null_id\<rparr>"
  obtain rs f where s: "submit ?r ?f0 = (Ok (), f)" "engine_ok ?p ?v (cli_policy 5 1) f" "lookup f (StrongId 11) = Some rs" "registered ?r rs"
    by (rule engine_submit [where req = ?r, unfolded ex_models(2), OF engine_ok_new new_engine_empty]) blast
  have rs: "length (rs_proposals rs) < 8" "rs_branches rs = []" "rs_committed rs = []" using s(4) by (simp_all add: registered_def ex_models)
  obtain out f1 rs' w and xs :: "u32 list" where c: "run_cycle (StrongId 11) f = Some (Ok out, f1)" "lookup f1 (StrongId 11) = Some rs'"
    "cycled rs xs rs'" "reports 5 (length xs) out" "length xs = branch_agreement (cycle_seed rs 5) 5 5 0"
    by (rule target_executors.engine_cycle [OF cuda_target_executors [OF assms] s(2,3) registered_ok [OF s(4) ex_models(1)] rs(1,2)])
      (simp, simp, blast)
  have "length xs = 5" using c(5) branch_agreement_bounds [where aligned = 5 and depth = 5 and seed = "cycle_seed rs 5" and b = 0] by simp
  moreover then have "authoritative_length (StrongId 11) f1 = Ok (of_nat 5)"
    using c(2,3) rs(3) by (simp add: authoritative_length_def cycled_def)
  ultimately show ?thesis
    using s(1) c(1,4) by (simp add: example11_def ex_models cli_policy_def [symmetric] reports_def word_string_def digits)
qed

section \<open>The adaptive example\<close>

definition adaptive_policy :: ProposalPolicy where
  "adaptive_policy = default_ProposalPolicy\<lparr>pol_max_depth := 8, pol_max_branches := 1,
     pol_adaptive_depth_enabled := True, pol_adaptive_window := 8\<rparr>"

text \<open>After \<open>n\<close> cycles at least \<open>n\<close> and at most \<open>8 n\<close> tokens were accepted, of no more proposed ones than that.\<close>

definition adaptive_run :: "nat \<Rightarrow> Fabric \<Rightarrow> bool" where
  "adaptive_run n f \<longleftrightarrow>
     engine_ok (cpu_propose (default_CpuProposerConfig\<lparr>ppc_aligned_tokens := 5\<rparr>)) cpu_verify adaptive_policy f \<and>
     history_ok (sch_adaptive (im_scheduler f)) \<and>
     (\<exists>rs. lookup f (StrongId 7) = Some rs \<and> request_ok rs \<and> length (rs_proposals rs) = n) \<and>
     n \<le> unat (st_tokens_accepted (im_stats f)) \<and> unat (st_tokens_accepted (im_stats f)) \<le> unat (st_tokens_proposed (im_stats f)) \<and>
     unat (st_tokens_proposed (im_stats f)) \<le> 8 * n"

lemma counter_add: "unat (x :: u64) + unat (y :: u32) < 2 ^ 64 \<Longrightarrow> unat (x + ucast y) = unat x + unat y"
  using unsigned_less [of y, where ?'a = nat]
  by (subst unat_add_lem [THEN iffD1]) (simp_all add: unsigned_ucast_eq take_bit_eq_mod)

lemma fl_pos: "0 < x \<Longrightarrow> 0 < fl x"
  using fl_bounds(1) [of x] by (meson less_le_trans zero_less_numeral zero_less_power_int)

lemma ratio_pos: "0 < unat a \<Longrightarrow> 0 < unat b \<Longrightarrow> 0 < counter_ratio a b"
  unfolding counter_ratio_def by (intro fl_pos divide_pos_pos) (simp_all del: of_nat_unat)

lemma adaptive_admit:
  assumes "adaptive_run n f" and "n < 8" and "lookup f (StrongId 7) = Some rs"
  obtains pp f1 where "cycle_prepare (StrongId 7) f = Some (Inr pp, f1)" "pp_proposer pp = cpu_propose (default_CpuProposerConfig\<lparr>ppc_aligned_tokens := 5\<rparr>)"
    "pp_verifier pp = cpu_verify" "im_stats f1 = im_stats f" "1 \<le> unat (pp_depth pp)" "unat (pp_depth pp) \<le> 8"
proof -
  let ?cfg = "default_CpuProposerConfig\<lparr>ppc_aligned_tokens := 5\<rparr>"
  have rs: "request_ok rs" "length (rs_proposals rs) < 8" and
    eng: "engine_ok (cpu_propose ?cfg) cpu_verify adaptive_policy f" and hist: "history_ok (sch_adaptive (im_scheduler f))"
    using assms by (auto simp: adaptive_run_def)
  have op: "open_policy adaptive_policy" "unat (pol_max_depth adaptive_policy) = 8" "sch_policy (im_scheduler f) = adaptive_policy"
    using eng by (simp_all add: adaptive_policy_def open_policy_def default_ProposalPolicy_def engine_ok_def)
  obtain plan rat where plan: "plan_proposal (im_scheduler f) (rs_req rs) (rs_auth_gen rs) 0 0 0 = Some (plan, rat)"
    "1 \<le> unat (plan_depth plan)" "unat (plan_depth plan) \<le> 8"
    using plan_in_range [OF hist, of "rs_req rs" "rs_auth_gen rs" 0 0 0] op(2,3) by auto
  obtain pp f1 where pp: "cycle_prepare (StrongId 7) f = Some (Inr pp, f1)" "pp_depth pp = max 1 (plan_depth plan)"
    "pp_branch_count pp = max 1 (plan_branch_count plan)" "pp_proposer pp = cpu_propose ?cfg" "pp_verifier pp = cpu_verify" "im_stats f1 = im_stats f"
    by (rule engine_admit [OF eng op(1) assms(3) rs plan(1)])
  show thesis using that [OF pp(1,4-6)] plan(2,3) pp(2) by (simp add: max_def word_le_nat_alt)
qed

lemma adaptive_step:
  assumes "adaptive_run n f" and "n < 8"
  shows "\<exists>r f'. run_cycle (StrongId 7) f = Some (r, f') \<and> adaptive_run (Suc n) f'"
proof -
  let ?cfg = "default_CpuProposerConfig\<lparr>ppc_aligned_tokens := 5\<rparr>"
  obtain rs where rs: "lookup f (StrongId 7) = Some rs" "request_ok rs" "length (rs_proposals rs) = n" and
    eng: "engine_ok (cpu_propose ?cfg) cpu_verify adaptive_policy f" and hist: "history_ok (sch_adaptive (im_scheduler f))"
    and wf: "fabric_wf f"
    using assms(1) by (auto simp: adaptive_run_def engine_ok_def)
  obtain pp f1 where pp: "cycle_prepare (StrongId 7) f = Some (Inr pp, f1)" "pp_proposer pp = cpu_propose ?cfg" "pp_verifier pp = cpu_verify"
    "im_stats f1 = im_stats f" and d: "1 \<le> unat (pp_depth pp)" "unat (pp_depth pp) \<le> 8"
    by (rule adaptive_admit [OF assms rs(1)])
  have small: "unat (pp_depth pp) \<le> 256" using d(2) by simp
  obtain out f' rs' w where r: "run_cycle (StrongId 7) f = Some (Ok out, f')" "lookup f' (StrongId 7) = Some rs'"
    "unat (co_accepted_tokens out) = branch_agreement (cycle_seed rs (pp_depth pp)) (pp_depth pp) 5 (of_nat w)"
    "rs_committed rs' = rs_committed rs @
       take (unat (co_accepted_tokens out)) (cpu_draft (cycle_seed rs (pp_depth pp)) (pp_depth pp) 5 (of_nat w))"
    by (rule cpu.cycle_exact [OF wf rs(1) pp(1-3) small]) (use that in simp)
  note l = cycle_leaves [OF eng rs(1,2) pp(1) r(1,2,4)] and acc = cpu.cycle_accounts [OF wf rs(1) pp(1-3) r(1)]
  have a: "1 \<le> unat (co_accepted_tokens out)" "unat (co_accepted_tokens out) \<le> unat (pp_depth pp)"
    unfolding r(3) using branch_agreement_bounds [where aligned = 5 and depth = "pp_depth pp" and seed = "cycle_seed rs (pp_depth pp)" and b = "of_nat w"] d
    by simp_all
  have st: "st_tokens_accepted (im_stats f') = st_tokens_accepted (im_stats f) + ucast (co_accepted_tokens out)"
    "st_tokens_proposed (im_stats f') = st_tokens_proposed (im_stats f) + ucast (pp_depth pp)"
    unfolding acc(2) pp(4) by (simp_all add: outcome_stats_def Let_def)
  have bounds: "n \<le> unat (st_tokens_accepted (im_stats f))" "unat (st_tokens_accepted (im_stats f)) \<le> unat (st_tokens_proposed (im_stats f))"
    "unat (st_tokens_proposed (im_stats f)) \<le> 8 * n" using assms(1) by (simp_all add: adaptive_run_def)
  have sums: "unat (st_tokens_accepted (im_stats f')) = unat (st_tokens_accepted (im_stats f)) + unat (co_accepted_tokens out)"
    "unat (st_tokens_proposed (im_stats f')) = unat (st_tokens_proposed (im_stats f)) + unat (pp_depth pp)"
    unfolding st using counter_add bounds a d assms(2) by simp_all
  have "history_ok (sch_adaptive (im_scheduler f'))"
    unfolding acc(3) using history_record [OF hist] sample_in_unit [OF a(2)] by simp
  moreover have "request_ok rs'" "length (rs_proposals rs') = Suc n" using cycled_ok [OF l(2) rs(2)] l(2) rs(3) by (simp_all add: cycled_def)
  ultimately have "adaptive_run (Suc n) f'"
    using l(1) r(2) bounds sums a d by (auto simp: adaptive_run_def)
  with r(1) show ?thesis by blast
qed

lemma adaptive_cycles: "adaptive_run n f \<Longrightarrow> n + m \<le> 8 \<Longrightarrow> \<exists>f'. run_cycles m (StrongId 7) f = Some f' \<and> adaptive_run (n + m) f'"
proof (induction m arbitrary: n f)
  case (Suc m)
  obtain r f1 where r: "run_cycle (StrongId 7) f = Some (r, f1)" "adaptive_run (Suc n) f1"
    using adaptive_step [OF Suc.prems(1)] Suc.prems(2) by auto
  with Suc.IH [OF r(2)] Suc.prems(2) show ?case by simp
qed simp

lemma example7_run: "\<exists>text. example7 clk = Some (0, text)"
proof -
  let ?p = "cpu_propose (default_CpuProposerConfig\<lparr>ppc_aligned_tokens := 5\<rparr>)" and ?r = "ex_request 7 5 1"
  let ?f0 = "new_fabric \<lparr>cfg_proposer = Some ?p, cfg_verifier = Some cpu_verify, cfg_clock = clk, cfg_policy = adaptive_policy, cfg_epoch = null_id\<rparr>"
  obtain rs f where s: "submit ?r ?f0 = (Ok (), f)" "engine_ok ?p cpu_verify adaptive_policy f" "lookup f (StrongId 7) = Some rs" "registered ?r rs"
    "im_scheduler f = im_scheduler ?f0"
    "im_stats f = (im_stats ?f0)\<lparr>st_requests_eligible_for_speculation := st_requests_eligible_for_speculation (im_stats ?f0) + 1\<rparr>"
    by (rule engine_submit [where req = ?r, unfolded ex_models(2), OF engine_ok_new new_engine_empty]) blast
  have "adaptive_run 0 f"
    using s(2,3) registered_ok [OF s(4) ex_models(1)] s(4)
    by (simp add: adaptive_run_def registered_def s(5,6))
      (simp add: new_fabric_def new_scheduler_def history_ok_def default_AdaptiveDepth_def default_Stats_def)
  from adaptive_cycles [OF this, of 5] obtain f1 where f1: "run_cycles 5 (StrongId 7) f = Some f1" "adaptive_run 5 f1" by auto
  have "0 < unat (st_tokens_accepted (im_stats f1))" "0 < unat (st_tokens_proposed (im_stats f1))"
    using f1(2) by (auto simp: adaptive_run_def)
  then have "0 < st_acceptance_ratio (stats f1)" using ratio_pos by (simp add: stats_def Let_def word_unat_eq_iff)
  then show ?thesis using s(1) f1(1) by (simp add: example7_def adaptive_policy_def [symmetric] ex_models Let_def)
qed

end
