(* ===== verification/Spec2Isabelle.thy ===== *)
theory Spec2Isabelle
  imports SF_Runs SF_Progress SF_Vocabulary SF_Persistence SF_CoordinatorProps SF_Device SF_Clock SF_Cli SF_Scenario SF_Examples
begin

text \<open>
  \<^bold>\<open>Speculation Fabric\<close>: a C++20 runtime for speculative token generation. A proposer drafts tokens, a
  verifier compares them with the target model, and the accepted tokens are committed to an
  authoritative sequence per request. Requests live in the runtime (\<^verbatim>\<open>src/core/fabric.cpp\<close>); the
  executors are CPU or CUDA implementations of one synthetic model; a coordinator with worker
  processes runs the same cycle over sockets with a framed binary protocol; archives of the
  authoritative state are stored with a checksum; a command-line tool drives an engine.

  \<^bold>\<open>Theories and what they model\<close> (paths below the source tree; headers are in
  \<^verbatim>\<open>include/speculation_fabric/core\<close>):

  \<^item> \<open>SF_Prelude\<close>: words, undefined behaviour as \<open>None\<close> (type \<open>cpp\<close>), \<^verbatim>\<open>std::map\<close> as an ordered
    association list, decimal printing, little-endian fields; the locales \<open>key_store\<close>,
    \<open>tournament\<close> (a winner loop), \<open>invariant_system\<close>, \<open>monotone_system\<close>, \<open>simulated_system\<close> (step
    relations), \<open>byte_codec\<close>.
  \<^item> \<open>SF_Error\<close> (\<^verbatim>\<open>error.hpp\<close>, \<^verbatim>\<open>error.cpp\<close>), \<open>SF_Id\<close> (\<^verbatim>\<open>id.hpp\<close>), \<open>SF_Model\<close> (\<^verbatim>\<open>model.hpp\<close>,
    \<^verbatim>\<open>state.hpp\<close>), \<open>SF_Proposal\<close> (\<^verbatim>\<open>candidate.hpp\<close>, \<^verbatim>\<open>proposal.hpp\<close>, \<^verbatim>\<open>verification.hpp\<close>,
    \<^verbatim>\<open>executor.hpp\<close>): the data, one record per struct, one datatype per enumeration.
  \<^item> \<open>SF_Compat\<close> (\<^verbatim>\<open>compat.cpp\<close>): the compatibility decision of a model pair.
  \<^item> \<open>SF_Lifecycle\<close> (\<^verbatim>\<open>lifecycle.cpp\<close>): phases, events, the transition table and the machine.
  \<^item> \<open>SF_Float\<close>, \<open>SF_Policy\<close> (\<^verbatim>\<open>policy.cpp\<close>), \<open>SF_Scheduler\<close> (\<^verbatim>\<open>request.hpp\<close> and the scheduler of
    \<^verbatim>\<open>fabric.cpp\<close>): adaptive depth in rounded double arithmetic, plans, backpressure.
  \<^item> \<open>SF_Synthetic\<close>, \<open>SF_Executors\<close> (\<^verbatim>\<open>cpu_proposer.cpp\<close>, \<^verbatim>\<open>cpu_verifier.cpp\<close>): the recurrence, the
    CPU proposer and verifier on machine words; the locales \<open>proposal_contract\<close> and
    \<open>verification_contract\<close> are what the runtime relies on.
  \<^item> \<open>SF_Cuda\<close> (\<^verbatim>\<open>cuda/cuda_executor.cu\<close>): host code and kernels. A kernel is a sequence of phases
    between barriers; in each phase the sixteen threads run in an arbitrary order.
  \<^item> \<open>SF_Fabric\<close> (\<^verbatim>\<open>fabric.hpp\<close>, \<^verbatim>\<open>fabric.cpp\<close>): the runtime state and every operation but
    \<^verbatim>\<open>run_cycle\<close>. \<open>SF_Cycle\<close>, \<open>SF_CycleProps\<close>: \<^verbatim>\<open>run_cycle\<close>, split at its critical sections. The locales
    \<open>contracted_executors\<close> and \<open>target_executors\<close> carry the results on a cycle; the CPU pair interprets
    them, and \<open>SF_Device\<close> shows that the CUDA pair satisfies them. \<open>SF_Engine\<close>: engines as the programs
    build them, the first cycle of a submitted request and what it leaves.
  \<^item> \<open>SF_Runs\<close>: the interleaved system, in which any operation may happen between two sections of a
    cycle in flight, as an inductive step relation. \<open>SF_Progress\<close>: definedness and termination in it.
    \<open>SF_Vocabulary\<close>: the locale \<open>vocabulary_proposer\<close> and the typing of tokens in every reachable state.
  \<^item> \<open>SF_Wire\<close> (\<^verbatim>\<open>wire.cpp\<close>), \<open>SF_Transport\<close> (\<^verbatim>\<open>tools/sockutil.h\<close>), \<open>SF_Persistence\<close>
    (\<^verbatim>\<open>persistence.cpp\<close>): message format, framing over partial reads and writes, archives and the
    file store.
  \<^item> \<open>SF_Worker\<close> (\<^verbatim>\<open>tools/sf_worker.cpp\<close>, \<^verbatim>\<open>tools/distmsg.h\<close>), \<open>SF_Coordinator\<close>,
    \<open>SF_CoordinatorProps\<close> (\<^verbatim>\<open>tools/sf_coordinator.cpp\<close>): the distributed processes; the message
    handlers are functions from state to replies and state. \<open>SF_Driver\<close> (\<^verbatim>\<open>tools/sf_driver.cpp\<close>): the
    scenario driver, and the deployment of driver, coordinator and workers in one world. \<open>SF_Bits\<close>,
    \<open>SF_Counts\<close>: evaluation of the synthetic model on bit lists; \<open>SF_Scenario\<close>: the outcome of the
    driver's run.
  \<^item> \<open>SF_Clock\<close> (\<^verbatim>\<open>clock.hpp\<close>, \<^verbatim>\<open>clock.cpp\<close>), \<open>SF_Cli\<close> (\<^verbatim>\<open>tools/sf.cpp\<close>), \<open>SF_Examples\<close> (\<^verbatim>\<open>examples/\<close>):
    durations, the command-line tool and the twelve example programs.
    \<open>SF_CText\<close>: the text and number conversions of the C library that the programs use.

  \<^bold>\<open>What is shown.\<close> For one cycle: what is committed and why (\<open>run_cycle_commits\<close>), the whole effect
  with the CPU executors (\<open>run_cycle_cpu\<close>) and with the CUDA executors for every thread schedule
  (\<open>run_cycle_cuda\<close>, from \<open>cuda_draft_is_cpu_draft\<close> and \<open>cuda_verdict_is_cpu_verdict\<close>), the executors
  against the target sequence (\<open>verify_against_target\<close>, \<open>draft_first_rejection\<close>). For all
  interleavings: the state invariant (\<open>reachable_wf\<close>), that committed tokens are never lost
  (\<open>committed_monotone\<close>), the refinement of an append-only log (\<open>runtime_refines_log\<close>), both with the
  null identifier as the exception that the code has (\<open>null_request_overwritten\<close>), that no
  reachable state leads a cycle into undefined behaviour (\<open>run_cycle_total\<close>) and that every cycle in
  flight can be completed in a bounded number of sections (\<open>cycles_terminate\<close>), and that all tokens
  in flight, recorded or committed are tokens of the vocabulary (\<open>committed_tokens_typed\<close>). For the
  distributed system: safety against arbitrary workers (\<open>distributed_commit_authorised\<close>),
  the effect with CPU workers through the wire format (\<open>distributed_cycle_cpu\<close>,
  \<open>submission_served\<close>), the coordinator's invariant, and the whole run of the scenario driver with a
  worker restart, which meets all expectations and exits with 0 (\<open>driver_passes\<close>), whatever a worker
  with undefined behaviour would send. For the formats: exact characterisations and
  round trips. For the tool: the printed report of \<^verbatim>\<open>sf submit\<close> and \<^verbatim>\<open>sf bench\<close> from the argument
  vector (\<open>sf_submit_report\<close>, \<open>sf_bench_report\<close>), with exactly the number of tokens the best branch
  agrees with the target; for the examples: all of them succeed (\<open>examples_pass\<close>). Several theorems record where the code falls short
  of its documentation: \<open>rejected_token_committed\<close>, \<open>stale_flight_commits\<close>,
  \<open>outstanding_limit_is_final\<close>, \<open>cycle_reports_ready\<close>, \<open>null_request_overwritten\<close>.

  \<^bold>\<open>Conventions and bounds.\<close> Integers have their C++ width. \<^verbatim>\<open>double\<close> is a rational rounded to 53
  significant bits after each operation; the values that occur are far from overflow and subnormals.
  No definition needs fuel: every loop is recursion on the iterations left or on the data.
  Undefined behaviour (an empty optional that is dereferenced, an index out of range, the value of an
  error) is \<open>None\<close>, and theorems that a call returns show that the result is \<open>Some\<close>. The CPU and CUDA
  proposers draft up to 256 tokens, and a dispatch message has room for 61; the theorems carry
  these bounds. Clocks, the CUDA runtime, the files and sockets of the operating system are
  parameters with explicit failures.

  \<^bold>\<open>Not modelled.\<close> The benchmark only calls the interfaces above and measures time; the readings of
  \<^verbatim>\<open>std::chrono\<close>'s clocks and \<^verbatim>\<open>std::hash\<close> are library code; log lines of the coordinator are left out. The operations of the
  runtime are atomic in the model. For those that hold the mutex this is what the code does; \<^verbatim>\<open>epoch\<close> and
  \<^verbatim>\<open>roll_epoch\<close> access the epoch without it, a data race whose effects are not modelled. The
  coordinator is single-threaded.
\<close>

section \<open>Cycles on the device\<close>


definition cuda_sample_fabric :: Fabric where
  "cuda_sample_fabric = snd (submit sample_request (new_fabric (sample_config (cuda_proposer_on (\<lambda>_. sample_cuda) 9 0)
     \<lparr>cfg_verifier := Some (cuda_verifier_on (\<lambda>_. sample_cuda))\<rparr>)))"


section \<open>The example programs\<close>

text \<open>
  C15 (examples_pass): all twelve example programs exit with 0, whatever the clock shows, the CUDA example
  on a working device. Ten of them print exactly the text given: full acceptance of five tokens, two
  branches with the two aligned tokens accepted, a partial acceptance of three of six tokens, a
  cancelled request, an incompatible pair, an archive read back, a limited tenant, a second attempt
  after a rejection, and a rollback that keeps the three committed tokens.
\<close>

theorem examples_pass:
  assumes "\<And>p. device_works (cu p)" and "\<And>v. device_works (cv v)"
  shows "example1 clk = Some (0, ''example1: outcome=3 accepted=5 committed=5'' @ newline) \<and>
    example2 clk = Some (0, ''example2: outcome=4 accepted=2 branches=2'' @ newline) \<and>
    example3 clk = Some (0, ''example3: accepted=3 rejected=3 committed=3 rolled_back=1'' @ newline) \<and>
    example4 clk = Some (0, ''example4: outcome=8 committed=0'' @ newline) \<and>
    example5 clk = Some (0, ''example5: outcome=2 committed=0'' @ newline) \<and>
    example6 clk = Some (0, ''example6: roundtrip=1 tokens=5'' @ newline) \<and>
    (\<exists>text. example7 clk = Some (0, text)) \<and>
    example8 clk = Some (0, ''example8: outcome=3 accepted=5 tenant=42'' @ newline) \<and>
    example9 clk = Some (0, ''example9: first=5 retry_attempt=2'' @ newline) \<and>
    (\<exists>text. example10 clk = Some (0, text)) \<and>
    example11 cu cv clk = Some (0, ''example11: outcome=3 accepted=5 committed=5'' @ newline) \<and>
    example12 clk = Some (0, ''example12: committed=3 rollback_ok=1 released=0'' @ newline)"
  by (intro conjI example1_run example2_run example3_run example4_run example5_run example6_run example7_run example8_run
      example9_run example10_run example11_run [OF assms] example12_run)

theorem examples_pass_witness:
  "example2 (\<lambda>_. 0) = Some (0, ''example2: outcome=4 accepted=2 branches=2'' @ newline) \<and>
    example11 (\<lambda>_. sample_cuda) (\<lambda>_. sample_cuda) (\<lambda>_. 0) = Some (0, ''example11: outcome=3 accepted=5 committed=5'' @ newline)"
proof -
  have "device_works sample_cuda" using sample_cuda_works by (simp add: device_works_def)
  from examples_pass [OF this this] show ?thesis by blast
qed

end
